(* ===== verification/Prelude.thy ===== *)
theory Prelude imports Main begin

text \<open>
  The vocabulary every theory of the development shares: Go computations that read and change
  the outside world and may panic, the frame and invariant rules for them, the collections of
  hints, and generic facts on lists.
\<close>

section \<open>Collections of hints\<close>

named_theorems frame_rules \<open>rules for that a computation leaves a view of the world alone\<close>
named_theorems keep_rules \<open>rules for invariants of the world that a computation keeps\<close>
named_theorems run_simps \<open>equations that run a computation one call at a time\<close>

section \<open>Computations\<close>

text \<open>
  A Go function that calls out of the program (the database, the network, the clock) is a
  function of the state \<open>'w\<close> of the outside world. It returns a value or panics, and either
  way leaves a new world behind.
\<close>

datatype 'a outcome = Return 'a | Panic string

type_synonym ('w, 'a) io = "'w \<Rightarrow> 'a outcome \<times> 'w"

definition ret :: "'a \<Rightarrow> ('w, 'a) io" where
  "ret a = (\<lambda>w. (Return a, w))"

definition raise_panic :: "string \<Rightarrow> ('w, 'a) io" where
  "raise_panic p = (\<lambda>w. (Panic p, w))"

text \<open>
  \<open>call m k\<close> makes the call \<open>m\<close> and goes on with its result; a panic of \<open>m\<close> unwinds past
  \<open>k\<close>, as Go's does.
\<close>

definition call :: "('w, 'a) io \<Rightarrow> ('a \<Rightarrow> ('w, 'b) io) \<Rightarrow> ('w, 'b) io" where
  "call m k = (\<lambda>w. case m w of (Return a, w') \<Rightarrow> k a w' | (Panic p, w') \<Rightarrow> (Panic p, w'))"

text \<open>A deferred \<open>recover\<close>: a panic of the body becomes the handler's result.\<close>

definition with_recover :: "('w, 'a) io \<Rightarrow> (string \<Rightarrow> ('w, 'a) io) \<Rightarrow> ('w, 'a) io" where
  "with_recover m h = (\<lambda>w. case m w of (Return a, w') \<Rightarrow> (Return a, w') | (Panic p, w') \<Rightarrow> h p w')"

lemma run_ret [simp, run_simps]: "ret a w = (Return a, w)"
  by (simp add: ret_def)

lemma run_raise_panic [simp, run_simps]: "raise_panic p w = (Panic p, w)"
  by (simp add: raise_panic_def)

lemma run_call_Return [run_simps]: "m w = (Return a, w') \<Longrightarrow> call m k w = k a w'"
  by (simp add: call_def)

lemma run_call_Panic [run_simps]: "m w = (Panic p, w') \<Longrightarrow> call m k w = (Panic p, w')"
  by (simp add: call_def)

lemma call_ret [simp]: "call (ret a) k = k a"
  by (simp add: call_def ret_def)

lemma call_ret_right [simp]: "call m ret = m"
  by (auto simp: call_def ret_def fun_eq_iff split: prod.splits outcome.splits)

lemma call_assoc: "call (call m k) l = call m (\<lambda>a. call (k a) l)"
  by (auto simp: call_def fun_eq_iff split: prod.splits outcome.splits)

text \<open>What a run that returned says of the calls it made.\<close>

lemma call_ReturnE:
  assumes "call m k w = (Return b, w')"
  obtains a w1 where "m w = (Return a, w1)" and "k a w1 = (Return b, w')"
  using assms by (auto simp: call_def split: prod.splits outcome.splits)

lemma call_PanicE:
  assumes "call m k w = (Panic p, w')"
  obtains (first) "m w = (Panic p, w')"
  | (rest) a w1 where "m w = (Return a, w1)" and "k a w1 = (Panic p, w')"
  using assms by (auto simp: call_def split: prod.splits outcome.splits)

section \<open>Frames and invariants\<close>

text \<open>A computation keeps a view of the world: the view has the same value afterwards.\<close>

definition keeps :: "('w \<Rightarrow> 'v) \<Rightarrow> ('w, 'a) io \<Rightarrow> bool" where
  "keeps v m \<longleftrightarrow> (\<forall>w. v (snd (m w)) = v w)"

lemma keepsI: "(\<And>w r w'. m w = (r, w') \<Longrightarrow> v w' = v w) \<Longrightarrow> keeps v m"
  by (metis keeps_def surjective_pairing)

lemma keepsD: "keeps v m \<Longrightarrow> m w = (r, w') \<Longrightarrow> v w' = v w"
  by (metis keeps_def snd_conv)

lemma keeps_ret [simp, frame_rules]: "keeps v (ret a)"
  by (simp add: keeps_def)

lemma keeps_raise_panic [simp, frame_rules]: "keeps v (raise_panic p)"
  by (simp add: keeps_def)

lemma keeps_call [frame_rules]:
  "keeps v m \<Longrightarrow> (\<And>a. keeps v (k a)) \<Longrightarrow> keeps v (call m k)"
  by (rule keepsI) (auto simp: call_def split: prod.splits outcome.splits; metis keepsD)

lemma keeps_with_recover [frame_rules]:
  "keeps v m \<Longrightarrow> (\<And>p. keeps v (h p)) \<Longrightarrow> keeps v (with_recover m h)"
  by (rule keepsI) (auto simp: with_recover_def split: prod.splits outcome.splits; metis keepsD)

text \<open>A computation maintains a predicate of the world.\<close>

definition maintains :: "('w \<Rightarrow> bool) \<Rightarrow> ('w, 'a) io \<Rightarrow> bool" where
  "maintains I m \<longleftrightarrow> (\<forall>w. I w \<longrightarrow> I (snd (m w)))"

lemma maintainsI: "(\<And>w r w'. I w \<Longrightarrow> m w = (r, w') \<Longrightarrow> I w') \<Longrightarrow> maintains I m"
  by (metis maintains_def surjective_pairing)

lemma maintainsD: "maintains I m \<Longrightarrow> m w = (r, w') \<Longrightarrow> I w \<Longrightarrow> I w'"
  by (metis maintains_def snd_conv)

lemma maintains_ret [simp, keep_rules]: "maintains I (ret a)"
  by (simp add: maintains_def)

lemma maintains_raise_panic [simp, keep_rules]: "maintains I (raise_panic p)"
  by (simp add: maintains_def)

lemma maintains_call [keep_rules]:
  "maintains I m \<Longrightarrow> (\<And>a. maintains I (k a)) \<Longrightarrow> maintains I (call m k)"
  by (rule maintainsI) (auto simp: call_def dest: maintainsD split: prod.splits outcome.splits)

lemma maintains_with_recover [keep_rules]:
  "maintains I m \<Longrightarrow> (\<And>p. maintains I (h p)) \<Longrightarrow> maintains I (with_recover m h)"
  by (rule maintainsI) (auto simp: with_recover_def dest: maintainsD split: prod.splits outcome.splits)

lemma keeps_maintains: "keeps v m \<Longrightarrow> maintains (\<lambda>w. P (v w)) m"
  by (simp add: keeps_def maintains_def)

section \<open>Contracts\<close>

text \<open>
  A contract relates a view of the world before a computation, its outcome and the view
  afterwards. \<open>meets v m S\<close> says that every run of \<open>m\<close> satisfies \<open>S\<close>. A contract is all
  that a client may know of code that is not part of the program.
\<close>

type_synonym ('d, 'a) contract = "'d \<Rightarrow> 'a outcome \<Rightarrow> 'd \<Rightarrow> bool"

definition meets :: "('w \<Rightarrow> 'd) \<Rightarrow> ('w, 'a) io \<Rightarrow> ('d, 'a) contract \<Rightarrow> bool" where
  "meets v m S \<longleftrightarrow> (\<forall>w. S (v w) (fst (m w)) (v (snd (m w))))"

lemma meetsI: "(\<And>w r w'. m w = (r, w') \<Longrightarrow> S (v w) r (v w')) \<Longrightarrow> meets v m S"
  by (metis meets_def surjective_pairing)

lemma meetsD: "meets v m S \<Longrightarrow> m w = (r, w') \<Longrightarrow> S (v w) r (v w')"
  by (metis meets_def fst_conv snd_conv)

lemma meets_weaken: "meets v m S \<Longrightarrow> (\<And>d r d'. S d r d' \<Longrightarrow> T d r d') \<Longrightarrow> meets v m T"
  by (simp add: meets_def)

lemma meets_keeps: "keeps v m \<Longrightarrow> meets v m (\<lambda>d r d'. d' = d)"
  by (simp add: meets_def keeps_def)

lemma keeps_meets: "meets v m S \<Longrightarrow> (\<And>d r d'. S d r d' \<Longrightarrow> d' = d) \<Longrightarrow> keeps v m"
  by (rule keepsI) (blast dest: meetsD)

lemma meets_maintains:
  "meets v m S \<Longrightarrow> (\<And>d r d'. S d r d' \<Longrightarrow> I d \<Longrightarrow> I d') \<Longrightarrow> maintains (\<lambda>w. I (v w)) m"
  by (rule maintainsI) (blast dest: meetsD)

lemma meets_ret: "(\<And>d. S d (Return a) d) \<Longrightarrow> meets v (ret a) S"
  by (simp add: meets_def)

text \<open>Two views side by side, when the computation keeps one of them.\<close>

lemma meets_both:
  "meets v m S \<Longrightarrow> meets u m T \<Longrightarrow>
   meets (\<lambda>w. (v w, u w)) m (\<lambda>d r d'. S (fst d) r (fst d') \<and> T (snd d) r (snd d'))"
  by (rule meetsI) (auto dest: meetsD)

lemma meets_frame_left:
  "meets v m S \<Longrightarrow> keeps u m \<Longrightarrow>
   meets (\<lambda>w. (u w, v w)) m (\<lambda>d r d'. fst d' = fst d \<and> S (snd d) r (snd d'))"
  by (rule meetsI) (auto dest: meetsD keepsD)

lemma meets_frame_right:
  "meets v m S \<Longrightarrow> keeps u m \<Longrightarrow>
   meets (\<lambda>w. (v w, u w)) m (\<lambda>d r d'. S (fst d) r (fst d') \<and> snd d' = snd d)"
  by (rule meetsI) (auto dest: meetsD keepsD)

text \<open>The contract of a call followed by a continuation.\<close>

lemma meets_call:
  assumes "meets v m S" and "\<And>a. meets v (k a) (T a)"
    and "\<And>d p d'. S d (Panic p) d' \<Longrightarrow> U d (Panic p) d'"
    and "\<And>d a d1 r d'. S d (Return a) d1 \<Longrightarrow> T a d1 r d' \<Longrightarrow> U d r d'"
  shows "meets v (call m k) U"
proof (rule meetsI)
  fix w r w'
  assume run: "call m k w = (r, w')"
  show "U (v w) r (v w')"
  proof (cases "m w")
    case (Pair o1 w1)
    then have S: "S (v w) o1 (v w1)" by (rule meetsD [OF assms(1)])
    show ?thesis
    proof (cases o1)
      case (Return a)
      with run Pair have "k a w1 = (r, w')" by (simp add: call_def)
      then have "T a (v w1) r (v w')" by (rule meetsD [OF assms(2)])
      with S Return show ?thesis by (auto intro: assms(4))
    next
      case (Panic p)
      with run Pair have "r = Panic p" "w1 = w'" by (simp_all add: call_def)
      with S Panic show ?thesis by (auto intro: assms(3))
    qed
  qed
qed

section \<open>Running a computation\<close>

text \<open>
  \<open>run_ok m Q w\<close>: the run of \<open>m\<close> from \<open>w\<close> ends as \<open>Q\<close> says. The rules step through the
  program text, one call at a time, and hand each call's contract to what follows it.
\<close>

definition run_ok :: "('w, 'a) io \<Rightarrow> ('a outcome \<Rightarrow> 'w \<Rightarrow> bool) \<Rightarrow> 'w \<Rightarrow> bool" where
  "run_ok m Q w \<longleftrightarrow> Q (fst (m w)) (snd (m w))"

lemma run_okD: "run_ok m Q w \<Longrightarrow> m w = (r, w') \<Longrightarrow> Q r w'"
  by (simp add: run_ok_def)

lemma run_ok_ret [simp]: "run_ok (ret a) Q w \<longleftrightarrow> Q (Return a) w"
  by (simp add: run_ok_def)

lemma run_ok_raise_panic [simp]: "run_ok (raise_panic p) Q w \<longleftrightarrow> Q (Panic p) w"
  by (simp add: run_ok_def)

lemma run_ok_call:
  assumes "meets v m S"
    and "\<And>p w'. S (v w) (Panic p) (v w') \<Longrightarrow> Q (Panic p) w'"
    and "\<And>a w'. S (v w) (Return a) (v w') \<Longrightarrow> run_ok (k a) Q w'"
  shows "run_ok (call m k) Q w"
proof (cases "m w")
  case (Pair r w')
  then have "S (v w) r (v w')" by (rule meetsD [OF assms(1)])
  with Pair assms(2,3) show ?thesis
    by (cases r) (auto simp: run_ok_def call_def)
qed

lemma meets_run_ok: "(\<And>w. run_ok m (\<lambda>r w'. S (v w) r (v w')) w) \<Longrightarrow> meets v m S"
  by (simp add: run_ok_def meets_def)

lemma run_ok_meets:
  "meets v m S \<Longrightarrow> (\<And>r w'. S (v w) r (v w') \<Longrightarrow> Q r w') \<Longrightarrow> run_ok m Q w"
  by (simp add: run_ok_def meets_def)

section \<open>Loops over a slice\<close>

text \<open>\<open>for _, x := range xs\<close> with a body that threads an accumulator.\<close>

primrec for_each :: "'a list \<Rightarrow> ('a \<Rightarrow> 's \<Rightarrow> ('w, 's) io) \<Rightarrow> 's \<Rightarrow> ('w, 's) io" where
  "for_each [] body s = ret s"
| "for_each (x # xs) body s = call (body x s) (\<lambda>s'. for_each xs body s')"

lemma keeps_for_each [frame_rules]:
  "(\<And>x s. keeps v (body x s)) \<Longrightarrow> keeps v (for_each xs body s)"
  by (induction xs arbitrary: s) (auto intro: frame_rules)

lemma maintains_for_each [keep_rules]:
  "(\<And>x s. maintains I (body x s)) \<Longrightarrow> maintains I (for_each xs body s)"
  by (induction xs arbitrary: s) (auto intro: keep_rules)

text \<open>A loop invariant: it speaks of the elements done, the accumulator and the world.\<close>

lemma run_ok_for_each:
  assumes "I [] s w"
    and step: "\<And>ys x zs s w. xs = ys @ x # zs \<Longrightarrow> I ys s w \<Longrightarrow>
      run_ok (body x s) (\<lambda>r w'. case r of Return s' \<Rightarrow> I (ys @ [x]) s' w' | Panic p \<Rightarrow> Q (Panic p) w') w"
    and "\<And>s w. I xs s w \<Longrightarrow> Q (Return s) w"
  shows "run_ok (for_each xs body s) Q w"
proof -
  have "xs = ys @ zs \<Longrightarrow> I ys s w \<Longrightarrow> run_ok (for_each zs body s) Q w" for ys zs s w
  proof (induction zs arbitrary: ys s w)
    case Nil
    then show ?case using assms(3) by (simp add: run_ok_def)
  next
    case (Cons x zs)
    from step [OF Cons(2,3)] Cons(1) [of "ys @ [x]"] Cons(2) show ?case
      by (auto simp: run_ok_def call_def split: prod.splits outcome.splits)
  qed
  from this [of "[]" xs s w] assms(1) show ?thesis by simp
qed

section \<open>Lists\<close>

lemma find_eq_None_iff: "List.find P xs = None \<longleftrightarrow> filter P xs = []"
  by (induction xs) auto

lemma find_key_eq:
  assumes "distinct (map f xs)"
  shows "List.find (\<lambda>y. f y = k) xs = Some x \<longleftrightarrow> x \<in> set xs \<and> f x = k"
  using assms by (induction xs) (auto simp: image_iff)

lemma distinct_map_eqD:
  "distinct (map f xs) \<Longrightarrow> x \<in> set xs \<Longrightarrow> y \<in> set xs \<Longrightarrow> f x = f y \<Longrightarrow> x = y"
  by (simp add: distinct_map inj_on_def)

text \<open>Updating the one element that satisfies a predicate.\<close>

lemma image_update_one:
  assumes "s \<in> A" and "\<And>x. x \<in> A \<Longrightarrow> P x \<longleftrightarrow> x = s"
  shows "(\<lambda>x. if P x then f x else x) ` A = insert (f s) (A - {s})"
  using assms by force

lemma bex_pick: "s \<in> A \<Longrightarrow> Bex A Q \<longleftrightarrow> Q s \<or> Bex (A - {s}) Q"
  by auto

lemma map_leD: "m \<subseteq>\<^sub>m n \<Longrightarrow> m k = Some v \<Longrightarrow> n k = Some v"
  by (metis map_le_def domI)

end
