(* ===== verification/GoErrors.thy ===== *)
theory GoErrors imports Prelude begin

text \<open>
  Go's error values as the program builds and inspects them: the sentinels (\<open>errors.New\<close> at
  package level), the trees \<open>fmt.Errorf\<close> and \<open>errors.Join\<close> build over them, and
  \<open>errors.Is\<close>, \<open>errors.Unwrap\<close> and \<open>Error()\<close> on those trees.
\<close>

section \<open>Sentinels\<close>

text \<open>
  The first six are \<open>internal/app/domain/errors.go\<close>, then \<open>cache.ErrMiss\<close> and
  \<open>notifier.ErrPermanent\<close>. The rest belong to packages the program imports and are compared
  with by identity only (\<open>gorm.ErrRecordNotFound\<close>, \<open>redis.Nil\<close>,
  \<open>jetstream.ErrStreamNameAlreadyInUse\<close>, \<open>migrate.ErrNoChange\<close>, \<open>fs.ErrNotExist\<close>,
  \<open>http.ErrServerClosed\<close>, \<open>context.Canceled\<close>, \<open>context.DeadlineExceeded\<close>).
\<close>

datatype sentinel =
    ErrInvalidRepoFormat
  | ErrRepoNotFound
  | ErrAlreadySubscribed
  | ErrTokenNotFound
  | ErrInvalidEmail
  | ErrRateLimited
  | ErrMiss
  | ErrPermanent
  | ErrRecordNotFound
  | RedisNil
  | ErrStreamNameAlreadyInUse
  | ErrNoChange
  | ErrNotExist
  | ErrServerClosed
  | Canceled
  | DeadlineExceeded

text \<open>The sentinels the program itself declares.\<close>

fun sentinel_text :: "sentinel \<Rightarrow> string" where
  "sentinel_text ErrInvalidRepoFormat = ''invalid repository format, expected owner/repo''"
| "sentinel_text ErrRepoNotFound = ''repository not found on GitHub or is private''"
| "sentinel_text ErrAlreadySubscribed = ''email already subscribed to this repository''"
| "sentinel_text ErrTokenNotFound = ''token not found''"
| "sentinel_text ErrInvalidEmail = ''invalid email format''"
| "sentinel_text ErrRateLimited = ''GitHub API rate limit exceeded''"
| "sentinel_text ErrMiss = ''cache miss''"
| "sentinel_text ErrPermanent = ''permanent failure''"
| "sentinel_text ErrRecordNotFound = ''record not found''"
| "sentinel_text RedisNil = ''redis: nil''"
| "sentinel_text ErrStreamNameAlreadyInUse = ''nats: stream name already in use''"
| "sentinel_text ErrNoChange = ''no change''"
| "sentinel_text ErrNotExist = ''file does not exist''"
| "sentinel_text ErrServerClosed = ''http: Server closed''"
| "sentinel_text Canceled = ''context canceled''"
| "sentinel_text DeadlineExceeded = ''context deadline exceeded''"

section \<open>Error trees\<close>

text \<open>
  \<open>Extern m\<close> is an error value of another package with message \<open>m\<close> (or a plain
  \<open>fmt.Errorf\<close> without \<open>%w\<close>). \<open>Errorf ps\<close> is \<open>fmt.Errorf\<close> of a format with at
  least one \<open>%w\<close>: literal text and wrapped errors in the order of the format. \<open>Joined es\<close>
  is \<open>errors.Join\<close> of the non-nil errors \<open>es\<close>.
\<close>

datatype 'e piece = Lit string | Wrapped 'e

datatype error =
    Sentinel sentinel
  | Extern string
  | Errorf "error piece list"
  | Joined "error list"

definition wrapf :: "string \<Rightarrow> error \<Rightarrow> error" where
  \<comment> \<open>\<open>fmt.Errorf("prefix: %w", err)\<close>\<close>
  "wrapf prefix e = Errorf [Lit (prefix @ '': ''), Wrapped e]"

text \<open>The errors one level below, in the order of the format.\<close>

fun wrapped_in :: "error \<Rightarrow> error list" where
  "wrapped_in (Sentinel s) = []"
| "wrapped_in (Extern m) = []"
| "wrapped_in (Errorf ps) = concat (map (\<lambda>p. case p of Lit s \<Rightarrow> [] | Wrapped e \<Rightarrow> [e]) ps)"
| "wrapped_in (Joined es) = es"

lemma wrapped_in_size: "e' \<in> set (wrapped_in e) \<Longrightarrow> size e' < size e"
proof (cases e)
  case (Errorf ps)
  assume "e' \<in> set (wrapped_in e)"
  with Errorf have "Wrapped e' \<in> set ps"
    by (auto split: piece.splits)
  then have "size_piece size (Wrapped e') \<le> size_list (size_piece size) ps"
    by (rule size_list_estimation') simp
  with Errorf show ?thesis by simp
next
  case (Joined es)
  assume "e' \<in> set (wrapped_in e)"
  with Joined have "size e' \<le> size_list size es"
    by (auto intro: size_list_estimation')
  with Joined show ?thesis by simp
qed auto

text \<open>
  \<open>errors.Is(err, target)\<close>: compare, then search depth first through \<open>Unwrap() error\<close> and
  \<open>Unwrap() []error\<close>. Sentinels are compared by identity; no error type of the program has an
  \<open>Is\<close> method.
\<close>

function errors_is :: "error \<Rightarrow> sentinel \<Rightarrow> bool" where
  "errors_is e t = (e = Sentinel t \<or> list_ex (\<lambda>e'. errors_is e' t) (wrapped_in e))"
  by pat_completeness auto
termination
  by (relation "measure (\<lambda>(e, t). size e)") (auto simp: wrapped_in_size)

declare errors_is.simps [simp del]

lemma errors_is_Sentinel [simp]: "errors_is (Sentinel s) t \<longleftrightarrow> s = t"
  by (simp add: errors_is.simps [of "Sentinel s"])

lemma errors_is_Extern [simp]: "\<not> errors_is (Extern m) t"
  by (simp add: errors_is.simps [of "Extern m"])

lemma errors_is_Errorf_Nil [simp]: "\<not> errors_is (Errorf []) t"
  by (simp add: errors_is.simps [of "Errorf []"])

lemma errors_is_Errorf_Lit [simp]: "errors_is (Errorf (Lit s # ps)) t = errors_is (Errorf ps) t"
  by (simp add: errors_is.simps [of "Errorf _"])

lemma errors_is_Errorf_Wrapped [simp]:
  "errors_is (Errorf (Wrapped e # ps)) t \<longleftrightarrow> errors_is e t \<or> errors_is (Errorf ps) t"
  by (simp add: errors_is.simps [of "Errorf _"])

lemma errors_is_Joined [simp]: "errors_is (Joined es) t \<longleftrightarrow> (\<exists>e \<in> set es. errors_is e t)"
  by (simp add: errors_is.simps [of "Joined es"] list_ex_iff)

lemma errors_is_wrapf [simp]: "errors_is (wrapf p e) t = errors_is e t"
  by (simp add: wrapf_def)

text \<open>
  \<open>errors.Unwrap\<close> follows \<open>Unwrap() error\<close> only: an \<open>fmt.Errorf\<close> with several \<open>%w\<close>
  and an \<open>errors.Join\<close> have \<open>Unwrap() []error\<close> and give nil.
\<close>

fun errors_unwrap :: "error \<Rightarrow> error option" where
  "errors_unwrap (Errorf ps) = (case wrapped_in (Errorf ps) of [e] \<Rightarrow> Some e | _ \<Rightarrow> None)"
| "errors_unwrap _ = None"

lemma errors_unwrap_wrapf [simp]: "errors_unwrap (wrapf p e) = Some e"
  by (simp add: wrapf_def)

lemma errors_unwrap_size: "errors_unwrap e = Some e' \<Longrightarrow> size e' < size e"
  using wrapped_in_size [of e' e] by (cases e) (auto simp del: wrapped_in.simps split: list.splits)

text \<open>\<open>errors.Join\<close>: nil when every argument is nil.\<close>

definition errors_join :: "error option list \<Rightarrow> error option" where
  "errors_join rs = (let es = List.map_filter id rs in if es = [] then None else Some (Joined es))"

lemma errors_join_None [simp]: "errors_join rs = None \<longleftrightarrow> (\<forall>r \<in> set rs. r = None)"
  by (auto simp: errors_join_def Let_def map_filter_def filter_empty_conv)

lemma errors_join_is:
  "errors_join rs = Some e \<Longrightarrow> errors_is e t \<longleftrightarrow> (\<exists>e'. Some e' \<in> set rs \<and> errors_is e' t)"
  by (force simp: errors_join_def Let_def map_filter_def split: if_splits)

text \<open>\<open>Error()\<close>: the text of the tree; \<open>errors.Join\<close> puts a newline between its errors.\<close>

primrec piece_text :: "string piece \<Rightarrow> string" where
  "piece_text (Lit s) = s"
| "piece_text (Wrapped s) = s"

fun join_lines :: "string list \<Rightarrow> string" where
  "join_lines [] = []"
| "join_lines [x] = x"
| "join_lines (x # y # xs) = x @ [CHR 0x0A] @ join_lines (y # xs)"

primrec error_text :: "error \<Rightarrow> string" where
  "error_text (Sentinel s) = sentinel_text s"
| "error_text (Extern m) = m"
| "error_text (Errorf ps) = concat (map piece_text (map (map_piece error_text) ps))"
| "error_text (Joined es) = join_lines (map error_text es)"

lemma error_text_wrapf [simp]: "error_text (wrapf p e) = p @ '': '' @ error_text e"
  by (simp add: wrapf_def)

section \<open>Errors of the environment\<close>

text \<open>
  An error that a driver, a client library or the runtime reports on its own account is none
  of the program's sentinels, whatever its text: the identity comparison of \<open>errors.Is\<close> can
  only succeed on a value the program itself handed over.
\<close>

fun app_sentinel :: "sentinel \<Rightarrow> bool" where
  "app_sentinel ErrInvalidRepoFormat = True"
| "app_sentinel ErrRepoNotFound = True"
| "app_sentinel ErrAlreadySubscribed = True"
| "app_sentinel ErrTokenNotFound = True"
| "app_sentinel ErrInvalidEmail = True"
| "app_sentinel ErrRateLimited = True"
| "app_sentinel ErrMiss = True"
| "app_sentinel ErrPermanent = True"
| "app_sentinel _ = False"

definition foreign :: "error \<Rightarrow> bool" where
  "foreign e \<longleftrightarrow> (\<forall>s. app_sentinel s \<longrightarrow> \<not> errors_is e s)"

lemma foreign_Extern [simp, intro]: "foreign (Extern m)"
  by (simp add: foreign_def)

lemma foreign_wrapf [simp]: "foreign (wrapf p e) = foreign e"
  by (simp add: foreign_def)

lemma foreign_Sentinel [simp]: "foreign (Sentinel s) \<longleftrightarrow> \<not> app_sentinel s"
  by (auto simp: foreign_def)

lemma foreign_errors_is [simp]: "foreign e \<Longrightarrow> app_sentinel s \<Longrightarrow> \<not> errors_is e s"
  by (simp add: foreign_def)

text \<open>Of the program's own sentinels, only those of \<open>S\<close> are in the tree.\<close>

definition reports_only :: "sentinel set \<Rightarrow> error \<Rightarrow> bool" where
  "reports_only S e \<longleftrightarrow> (\<forall>t. app_sentinel t \<longrightarrow> errors_is e t \<longrightarrow> t \<in> S)"

lemma reports_only_errors_is:
  "app_sentinel t \<Longrightarrow> reports_only S e \<Longrightarrow> t \<notin> S \<Longrightarrow> \<not> errors_is e t"
  by (auto simp: reports_only_def)

lemma reports_only_Sentinel [simp]: "reports_only S (Sentinel t) \<longleftrightarrow> (app_sentinel t \<longrightarrow> t \<in> S)"
  by (auto simp: reports_only_def)

lemma reports_only_wrapf [simp]: "reports_only S (wrapf p e) = reports_only S e"
  by (simp add: reports_only_def)

lemma foreign_reports_only: "foreign e \<Longrightarrow> reports_only S e"
  by (simp add: reports_only_def)

end
