(* ===== verification/GoStrings.thy ===== *)
theory GoStrings imports Prelude "HOL-Library.Sublist" begin

text \<open>
  The functions of Go's \<open>strings\<close> package the program calls, and the decimal form that
  \<open>%d\<close> prints. A Go string is a sequence of bytes, so it is a \<open>char list\<close> here and
  \<open>length\<close> counts bytes.
\<close>

section \<open>Searching and cutting\<close>

text \<open>\<open>strings.Index\<close>: the first place where \<open>sep\<close> occurs.\<close>

fun index_of :: "string \<Rightarrow> string \<Rightarrow> nat option" where
  "index_of [] sep = (if sep = [] then Some 0 else None)"
| "index_of (c # s) sep =
     (if prefix sep (c # s) then Some 0 else map_option Suc (index_of s sep))"

text \<open>\<open>strings.LastIndex(s, "c")\<close> for one byte.\<close>

fun last_index_of :: "string \<Rightarrow> char \<Rightarrow> nat option" where
  "last_index_of [] c = None"
| "last_index_of (x # s) c =
     (case last_index_of s c of Some i \<Rightarrow> Some (Suc i) | None \<Rightarrow> if x = c then Some 0 else None)"

text \<open>\<open>strings.SplitN(s, sep, n)\<close> for \<open>n \<ge> 0\<close> and a non-empty separator.\<close>

fun split_n :: "nat \<Rightarrow> string \<Rightarrow> string \<Rightarrow> string list" where
  "split_n 0 sep s = []"
| "split_n (Suc 0) sep s = [s]"
| "split_n (Suc (Suc n)) sep s =
     (case index_of s sep of
        None \<Rightarrow> [s]
      | Some i \<Rightarrow> take i s # split_n (Suc n) sep (drop (i + length sep) s))"

text \<open>\<open>strings.Replace(s, old, new, 1)\<close>.\<close>

definition replace_first :: "string \<Rightarrow> string \<Rightarrow> string \<Rightarrow> string" where
  "replace_first s old new =
     (case index_of s old of
        None \<Rightarrow> s
      | Some i \<Rightarrow> take i s @ new @ drop (i + length old) s)"

lemma index_of_Some_split:
  "index_of s sep = Some i \<Longrightarrow> s = take i s @ sep @ drop (i + length sep) s"
proof (induction s sep arbitrary: i rule: index_of.induct)
  case (2 c s sep)
  show ?case
  proof (cases "prefix sep (c # s)")
    case True
    with 2 show ?thesis by (auto elim!: prefixE)
  next
    case False
    with 2 show ?thesis by auto
  qed
qed (auto split: if_splits)

lemma index_of_char_None: "index_of s [c] = None \<longleftrightarrow> c \<notin> set s"
  by (induction s) auto

lemma index_of_char_append: "c \<notin> set a \<Longrightarrow> index_of (a @ c # b) [c] = Some (length a)"
  by (induction a) auto

lemma split_2_char: "c \<notin> set a \<Longrightarrow> split_n 2 [c] (a @ c # b) = [a, b]"
  by (simp add: numeral_2_eq_2 index_of_char_append)

lemma split_2_char_none: "c \<notin> set s \<Longrightarrow> split_n 2 [c] s = [s]"
  by (simp add: numeral_2_eq_2 index_of_char_None [THEN iffD2])

lemma split_2_length: "length (split_n 2 sep s) = (if index_of s sep = None then 1 else 2)"
  by (auto simp: numeral_2_eq_2 split: option.splits)

lemma split_2_join: "split_n 2 sep s = [a, b] \<Longrightarrow> s = a @ sep @ b"
  by (auto simp: numeral_2_eq_2 split: option.splits dest: index_of_Some_split)

lemma split_2_fst: "split_n 2 [c] s = [a, b] \<Longrightarrow> c \<notin> set a"
proof -
  assume split: "split_n 2 [c] s = [a, b]"
  then obtain i where i: "index_of s [c] = Some i" and a: "a = take i s"
    by (auto simp: numeral_2_eq_2 split: option.splits)
  have "index_of s [c] = Some i \<Longrightarrow> c \<notin> set (take i s)"
    by (induction s arbitrary: i) (auto split: if_splits)
  with i a show ?thesis by simp
qed

section \<open>Trimming\<close>

text \<open>
  \<open>strings.TrimSpace\<close> drops the code points of Unicode's \<open>White_Space\<close> at both ends. These
  are their UTF-8 forms: tab to carriage return, space, U+0085, U+00A0, U+1680,
  U+2000 to U+200A, U+2028, U+2029, U+202F, U+205F and U+3000.
\<close>

definition white_space :: "string list" where
  "white_space =
     [[CHR 0x09], [CHR 0x0A], [CHR 0x0B], [CHR 0x0C], [CHR 0x0D], [CHR 0x20],
      [CHR 0xC2, CHR 0x85], [CHR 0xC2, CHR 0xA0], [CHR 0xE1, CHR 0x9A, CHR 0x80]]
     @ map (\<lambda>b. [CHR 0xE2, CHR 0x80, b])
         [CHR 0x80, CHR 0x81, CHR 0x82, CHR 0x83, CHR 0x84, CHR 0x85, CHR 0x86, CHR 0x87,
          CHR 0x88, CHR 0x89, CHR 0x8A, CHR 0xA8, CHR 0xA9, CHR 0xAF]
     @ [[CHR 0xE2, CHR 0x81, CHR 0x9F], [CHR 0xE3, CHR 0x80, CHR 0x80]]"

function strip_left :: "string list \<Rightarrow> string \<Rightarrow> string" where
  "strip_left ws s =
     (case List.find (\<lambda>p. p \<noteq> [] \<and> prefix p s) ws of
        None \<Rightarrow> s
      | Some p \<Rightarrow> strip_left ws (drop (length p) s))"
  by pat_completeness auto
termination
  by (relation "measure (\<lambda>(ws, s). length s)") (auto simp: find_Some_iff prefix_def)

declare strip_left.simps [simp del]

definition trim_space :: "string \<Rightarrow> string" where
  "trim_space s =
     rev (strip_left (map rev white_space) (rev (strip_left white_space s)))"

lemma strip_left_suffix: "suffix (strip_left ws s) s"
proof (induction ws s rule: strip_left.induct)
  case (1 ws s)
  show ?case
  proof (cases "List.find (\<lambda>p. p \<noteq> [] \<and> prefix p s) ws")
    case None
    then show ?thesis by (simp add: strip_left.simps [of ws s])
  next
    case (Some p)
    with "1.IH" have "suffix (strip_left ws (drop (length p) s)) (drop (length p) s)" by blast
    then have "suffix (strip_left ws (drop (length p) s)) s"
      using suffix_drop suffix_order.trans by blast
    with Some show ?thesis by (simp add: strip_left.simps [of ws s])
  qed
qed

lemma strip_left_clean: "p \<in> set ws \<Longrightarrow> p \<noteq> [] \<Longrightarrow> \<not> prefix p (strip_left ws s)"
proof (induction ws s rule: strip_left.induct)
  case (1 ws s)
  show ?case
  proof (cases "List.find (\<lambda>p. p \<noteq> [] \<and> prefix p s) ws")
    case None
    then have "strip_left ws s = s" by (simp add: strip_left.simps [of ws s])
    with None "1.prems" show ?thesis by (auto simp: find_None_iff)
  next
    case (Some q)
    with "1" show ?thesis by (simp add: strip_left.simps [of ws s])
  qed
qed

lemma white_space_nonempty: "p \<in> set white_space \<Longrightarrow> p \<noteq> []"
  by (auto simp: white_space_def)

lemma trim_space_no_suffix: "p \<in> set white_space \<Longrightarrow> \<not> suffix p (trim_space s)"
  using strip_left_clean [of "rev p" "map rev white_space"] white_space_nonempty [of p]
  by (auto simp: trim_space_def suffix_to_prefix)

section \<open>Case and numbers\<close>

text \<open>
  \<open>strings.ToLower\<close>: the fast path for an ASCII string; any other string goes through
  \<open>unicode.ToLower\<close>, which is the argument \<open>uni\<close>.
\<close>

definition char_code :: "char \<Rightarrow> nat" where
  "char_code c = of_char c"

definition ascii_lower :: "char \<Rightarrow> char" where
  "ascii_lower c = (if 65 \<le> char_code c \<and> char_code c \<le> 90 then char_of (char_code c + 32) else c)"

definition to_lower :: "(string \<Rightarrow> string) \<Rightarrow> string \<Rightarrow> string" where
  "to_lower uni s = (if list_all (\<lambda>c. char_code c < 128) s then map ascii_lower s else uni s)"

lemma ascii_lower_idem [simp]: "ascii_lower (ascii_lower c) = ascii_lower c"
  by (auto simp: ascii_lower_def char_code_def)

text \<open>\<open>%d\<close> of a non-negative integer.\<close>

definition digit_char :: "nat \<Rightarrow> char" where
  "digit_char d = char_of (48 + d)"

definition hex_digit :: "nat \<Rightarrow> char" where
  "hex_digit n = (if n < 10 then char_of (48 + n) else char_of (87 + n))"

definition is_digit :: "char \<Rightarrow> bool" where
  "is_digit c \<longleftrightarrow> 48 \<le> char_code c \<and> char_code c \<le> 57"

definition digit_value :: "char \<Rightarrow> int" where
  "digit_value c = int (char_code c) - 48"

fun decimal :: "nat \<Rightarrow> string" where
  "decimal n = (if n < 10 then [digit_char n] else decimal (n div 10) @ [digit_char (n mod 10)])"

declare decimal.simps [simp del]

definition decimal_int :: "int \<Rightarrow> string" where
  "decimal_int i = (if i < 0 then CHR ''-'' # decimal (nat (- i)) else decimal (nat i))"

end
