(* ===== verification/Domain.thy ===== *)
theory Domain imports GoErrors GoStrings begin

text \<open>
  The model types of \<open>internal/app/domain\<close>: the rows the program stores (\<open>models.go\<close>) and
  the shapes its HTTP interface shows (\<open>schema.go\<close>).
\<close>

section \<open>Rows\<close>

text \<open>\<open>time.Time\<close>, as nanoseconds since the epoch; \<open>time.Duration\<close> is in nanoseconds too.\<close>

type_synonym time = int

record subscription =
  sub_id :: nat
  sub_email :: string
  sub_repo :: string
  sub_confirmed :: bool
  sub_unsubscribe_token :: string
  sub_created_at :: time
  sub_updated_at :: time

record watched_repo =
  watched_name :: string
  last_seen_tag :: string
  last_polled_at :: time

record confirmation_token =
  tok_id :: nat
  tok_token :: string
  tok_subscription_id :: nat
  tok_subscription :: subscription
  tok_created_at :: time

text \<open>Go's zero values, which a composite literal leaves in the fields it does not name.\<close>

definition zero_subscription :: subscription where
  "zero_subscription =
     \<lparr>sub_id = 0, sub_email = [], sub_repo = [], sub_confirmed = False,
      sub_unsubscribe_token = [], sub_created_at = 0, sub_updated_at = 0\<rparr>"

definition zero_token :: confirmation_token where
  "zero_token =
     \<lparr>tok_id = 0, tok_token = [], tok_subscription_id = 0,
      tok_subscription = zero_subscription, tok_created_at = 0\<rparr>"

definition zero_watched :: watched_repo where
  "zero_watched = \<lparr>watched_name = [], last_seen_tag = [], last_polled_at = 0\<rparr>"

text \<open>\<open>WatchedRepo.IsNewRelease\<close>.\<close>

definition is_new_release :: "watched_repo \<Rightarrow> string \<Rightarrow> bool" where
  "is_new_release w tag \<longleftrightarrow> tag \<noteq> [] \<and> tag \<noteq> last_seen_tag w"

section \<open>Requests and responses\<close>

record subscribe_request =
  req_email :: string
  req_repo :: string

record subscription_response =
  resp_email :: string
  resp_repo :: string
  resp_confirmed :: bool

definition to_subscription_response :: "subscription \<Rightarrow> subscription_response" where
  "to_subscription_response s =
     \<lparr>resp_email = sub_email s, resp_repo = sub_repo s, resp_confirmed = sub_confirmed s\<rparr>"

text \<open>
  The slice is allocated at its full length and then filled by index, as the source does.
\<close>

fun fill_responses ::
  "subscription list \<Rightarrow> nat \<Rightarrow> subscription_response list \<Rightarrow> subscription_response list" where
  "fill_responses [] i result = result"
| "fill_responses (s # subs) i result =
     fill_responses subs (Suc i) (result[i := to_subscription_response s])"

definition to_subscription_list_response :: "subscription list \<Rightarrow> subscription_response list" where
  "to_subscription_list_response subs =
     fill_responses subs 0
       (replicate (length subs) \<lparr>resp_email = [], resp_repo = [], resp_confirmed = False\<rparr>)"

lemma fill_responses_eq:
  "length result = i + length subs \<Longrightarrow>
   fill_responses subs i result = take i result @ map to_subscription_response subs"
proof (induction subs i result rule: fill_responses.induct)
  case (2 s subs i result)
  then show ?case
    by (simp add: take_Suc_conv_app_nth)
qed simp

lemma to_subscription_list_response_eq [simp]:
  "to_subscription_list_response subs = map to_subscription_response subs"
  by (simp add: to_subscription_list_response_def fill_responses_eq)

end
