(* ===== verification/Schema.thy ===== *)
theory Schema imports Domain begin

text \<open>
  The tables the migrations under \<open>internal/app/db/migrations\<close> leave behind, their
  constraints, and what a statement that succeeded did to them. Rows are kept in insertion
  order, which no query below depends on but \<open>First\<close>, ordered by primary key.
\<close>

section \<open>Tables and constraints\<close>

text \<open>
  The ids come from sequences (\<open>BIGSERIAL\<close>), which never give out a value twice: every id of
  a committed row, deleted or not, is below \<open>sub_seq\<close> or \<open>tok_seq\<close>.
\<close>

record db =
  subs :: "subscription list"
  toks :: "confirmation_token list"
  watched :: "watched_repo list"
  sub_seq :: nat
  tok_seq :: nat

definition empty_db :: db where
  "empty_db = \<lparr>subs = [], toks = [], watched = [], sub_seq = 1, tok_seq = 1\<rparr>"

text \<open>The unique index on \<open>(email, repo)\<close> of migration 2.\<close>

definition email_repo_unique :: "db \<Rightarrow> bool" where
  "email_repo_unique d \<longleftrightarrow> distinct (map (\<lambda>s. (sub_email s, sub_repo s)) (subs d))"

text \<open>The table \<open>subscriptions\<close> of migration 1: its primary key and its token index.\<close>

definition subscriptions_keys :: "db \<Rightarrow> bool" where
  "subscriptions_keys d \<longleftrightarrow>
     distinct (map sub_id (subs d)) \<and> distinct (map sub_unsubscribe_token (subs d)) \<and>
     (\<forall>s \<in> set (subs d). sub_id s < sub_seq d)"

text \<open>
  The table \<open>confirmation_tokens\<close> of migration 1: its primary key, its token index and its
  foreign key.
\<close>

definition tokens_keys :: "db \<Rightarrow> bool" where
  "tokens_keys d \<longleftrightarrow>
     distinct (map tok_id (toks d)) \<and> distinct (map tok_token (toks d)) \<and>
     (\<forall>t \<in> set (toks d). tok_id t < tok_seq d) \<and>
     (\<forall>t \<in> set (toks d). tok_subscription_id t \<in> sub_id ` set (subs d))"

text \<open>The table \<open>watched_repos\<close> of migration 3: its primary key.\<close>

definition watched_keys :: "db \<Rightarrow> bool" where
  "watched_keys d \<longleftrightarrow> distinct (map watched_name (watched d))"

definition schema_ok :: "db \<Rightarrow> bool" where
  "schema_ok d \<longleftrightarrow> email_repo_unique d \<and> subscriptions_keys d \<and> tokens_keys d \<and> watched_keys d"

lemmas schema_defs =
  schema_ok_def email_repo_unique_def subscriptions_keys_def tokens_keys_def watched_keys_def

lemma schema_ok_empty [simp]: "schema_ok empty_db"
  by (simp add: schema_defs empty_db_def)

section \<open>Statements that succeeded\<close>

text \<open>
  \<open>INSERT INTO subscriptions\<close>: GORM lets the sequence choose a zero id and stamps the two
  times; the row breaks no unique index.
\<close>

definition inserts_sub :: "subscription \<Rightarrow> db \<Rightarrow> subscription \<Rightarrow> db \<Rightarrow> bool" where
  "inserts_sub s d s' d' \<longleftrightarrow>
     (\<exists>i created updated.
        s' = s\<lparr>sub_id := i, sub_created_at := created, sub_updated_at := updated\<rparr> \<and>
        (if sub_id s = 0 then sub_seq d \<le> i else i = sub_id s) \<and> i \<notin> sub_id ` set (subs d)) \<and>
     (sub_email s, sub_repo s) \<notin> (\<lambda>r. (sub_email r, sub_repo r)) ` set (subs d) \<and>
     sub_unsubscribe_token s \<notin> sub_unsubscribe_token ` set (subs d) \<and>
     d' = d\<lparr>subs := subs d @ [s'], sub_seq := max (sub_seq d) (Suc (sub_id s'))\<rparr>"

text \<open>\<open>INSERT INTO confirmation_tokens\<close>, under its unique index and its foreign key.\<close>

definition inserts_tok :: "confirmation_token \<Rightarrow> db \<Rightarrow> confirmation_token \<Rightarrow> db \<Rightarrow> bool" where
  "inserts_tok t d t' d' \<longleftrightarrow>
     (\<exists>i created. t' = t\<lparr>tok_id := i, tok_created_at := created\<rparr> \<and>
        (if tok_id t = 0 then tok_seq d \<le> i else i = tok_id t) \<and> i \<notin> tok_id ` set (toks d)) \<and>
     tok_token t \<notin> tok_token ` set (toks d) \<and>
     tok_subscription_id t \<in> sub_id ` set (subs d) \<and>
     d' = d\<lparr>toks := toks d @ [t'], tok_seq := max (tok_seq d) (Suc (tok_id t'))\<rparr>"

text \<open>\<open>UPDATE subscriptions SET ... WHERE\<close>; GORM also stamps \<open>updated_at\<close>.\<close>

definition updates_subs ::
  "(subscription \<Rightarrow> bool) \<Rightarrow> (subscription \<Rightarrow> subscription) \<Rightarrow> db \<Rightarrow> db \<Rightarrow> bool" where
  "updates_subs P f d d' \<longleftrightarrow>
     (\<exists>now. d' = d\<lparr>subs := map (\<lambda>s. if P s then (f s)\<lparr>sub_updated_at := now\<rparr> else s) (subs d)\<rparr>)"

text \<open>\<open>DELETE FROM subscriptions WHERE\<close>, which cascades to the tokens.\<close>

definition delete_subs :: "(subscription \<Rightarrow> bool) \<Rightarrow> db \<Rightarrow> db" where
  "delete_subs P d =
     d\<lparr>subs := filter (\<lambda>s. \<not> P s) (subs d),
       toks := filter (\<lambda>t. tok_subscription_id t \<notin> sub_id ` set (filter P (subs d))) (toks d)\<rparr>"

text \<open>\<open>DELETE FROM confirmation_tokens WHERE\<close>.\<close>

definition delete_toks :: "(confirmation_token \<Rightarrow> bool) \<Rightarrow> db \<Rightarrow> db" where
  "delete_toks P d = d\<lparr>toks := filter (\<lambda>t. \<not> P t) (toks d)\<rparr>"

text \<open>
  \<open>INSERT INTO watched_repos ... ON CONFLICT (repo) DO UPDATE\<close>: \<open>f now\<close> is the assignment
  list, evaluated at the statement's \<open>now()\<close>; an insert stamps \<open>last_polled_at\<close> itself.
\<close>

definition upsert_watched ::
  "watched_repo \<Rightarrow> (time \<Rightarrow> watched_repo \<Rightarrow> watched_repo) \<Rightarrow> time \<Rightarrow> db \<Rightarrow> db" where
  "upsert_watched w f now d =
     (if watched_name w \<in> watched_name ` set (watched d)
      then d\<lparr>watched := map (\<lambda>r. if watched_name r = watched_name w then f now r else r) (watched d)\<rparr>
      else d\<lparr>watched := watched d @ [w\<lparr>last_polled_at := now\<rparr>]\<rparr>)"

definition upserts_watched ::
  "watched_repo \<Rightarrow> (time \<Rightarrow> watched_repo \<Rightarrow> watched_repo) \<Rightarrow> db \<Rightarrow> db \<Rightarrow> bool" where
  "upserts_watched w f d d' \<longleftrightarrow> (\<exists>now. d' = upsert_watched w f now d)"

text \<open>\<open>SELECT ... ORDER BY id LIMIT 1\<close>.\<close>

definition is_first :: "('r \<Rightarrow> 'k::linorder) \<Rightarrow> ('r \<Rightarrow> bool) \<Rightarrow> 'r list \<Rightarrow> 'r \<Rightarrow> bool" where
  "is_first key P rows r \<longleftrightarrow> r \<in> set rows \<and> P r \<and> (\<forall>x \<in> set rows. P x \<longrightarrow> key r \<le> key x)"

section \<open>The statements keep the constraints\<close>

lemma inserts_sub_schema: "inserts_sub s d s' d' \<Longrightarrow> schema_ok d \<Longrightarrow> schema_ok d'"
  by (auto simp: inserts_sub_def schema_defs less_max_iff_disj)

lemma inserts_tok_schema: "inserts_tok t d t' d' \<Longrightarrow> schema_ok d \<Longrightarrow> schema_ok d'"
  by (auto simp: inserts_tok_def schema_defs less_max_iff_disj)

lemma delete_subs_schema: "schema_ok d \<Longrightarrow> schema_ok (delete_subs P d)"
  by (simp add: schema_defs delete_subs_def distinct_map_filter) blast

lemma delete_toks_schema: "schema_ok d \<Longrightarrow> schema_ok (delete_toks P d)"
  by (auto simp: schema_defs delete_toks_def distinct_map_filter)

text \<open>An update that leaves the indexed columns alone keeps every index and key.\<close>

lemma map_subs_schema:
  assumes "schema_ok d" and "\<And>s. sub_id (u s) = sub_id s" "\<And>s. sub_email (u s) = sub_email s"
    "\<And>s. sub_repo (u s) = sub_repo s" "\<And>s. sub_unsubscribe_token (u s) = sub_unsubscribe_token s"
  shows "schema_ok (d\<lparr>subs := map u (subs d)\<rparr>)"
  using assms by (simp add: schema_defs comp_def image_image)

lemma updates_subs_schema:
  assumes "updates_subs P f d d'" and "schema_ok d"
    and "\<And>s. sub_id (f s) = sub_id s" "\<And>s. sub_email (f s) = sub_email s"
      "\<And>s. sub_repo (f s) = sub_repo s" "\<And>s. sub_unsubscribe_token (f s) = sub_unsubscribe_token s"
  shows "schema_ok d'"
  using assms by (auto simp: updates_subs_def intro!: map_subs_schema)

lemma map_watched_schema:
  assumes "schema_ok d" and "\<And>r. watched_name (u r) = watched_name r"
  shows "schema_ok (d\<lparr>watched := map u (watched d)\<rparr>)"
  using assms by (simp add: schema_defs comp_def)

lemma append_watched_schema:
  "schema_ok d \<Longrightarrow> watched_name r \<notin> watched_name ` set (watched d) \<Longrightarrow>
   schema_ok (d\<lparr>watched := watched d @ [r]\<rparr>)"
  by (simp add: schema_defs)

lemma upserts_watched_schema:
  assumes "upserts_watched w f d d'" and "schema_ok d"
    and "\<And>now r. watched_name (f now r) = watched_name r"
  shows "schema_ok d'"
  using assms
  by (auto simp: upserts_watched_def upsert_watched_def intro!: map_watched_schema append_watched_schema)

end
