(* ===== verification/Gorm.thy ===== *)
theory Gorm imports Schema "HOL-Library.Multiset" begin

text \<open>
  The database driver (GORM on PostgreSQL) is not part of the repository: it is a record of
  functions, one field per kind of GORM chain that \<open>repository.go\<close> builds, and a locale that
  states what the program relies on. A \<open>WHERE\<close> clause is a predicate on rows.
\<close>

section \<open>The driver\<close>

record 'w gorm =
  gorm_transaction :: "('w, error option) io \<Rightarrow> ('w, error option) io"
  gorm_create_sub :: "subscription \<Rightarrow> ('w, error + subscription) io"
  gorm_create_tok :: "confirmation_token \<Rightarrow> ('w, error + confirmation_token) io"
  gorm_first_sub :: "(subscription \<Rightarrow> bool) \<Rightarrow> ('w, error + subscription) io"
  gorm_find_subs :: "(subscription \<Rightarrow> bool) \<Rightarrow> ('w, error + subscription list) io"
  gorm_update_subs ::
    "(subscription \<Rightarrow> bool) \<Rightarrow> (subscription \<Rightarrow> subscription) \<Rightarrow> ('w, error option) io"
  gorm_delete_subs :: "(subscription \<Rightarrow> bool) \<Rightarrow> ('w, error option) io"
  gorm_first_tok_preload :: "(confirmation_token \<Rightarrow> bool) \<Rightarrow> ('w, error + confirmation_token) io"
  gorm_delete_toks :: "(confirmation_token \<Rightarrow> bool) \<Rightarrow> ('w, error option) io"
  gorm_distinct_pluck ::
    "(subscription \<Rightarrow> bool) \<Rightarrow> (subscription \<Rightarrow> string) \<Rightarrow> ('w, error + string list) io"
  gorm_first_watched :: "(watched_repo \<Rightarrow> bool) \<Rightarrow> ('w, error + watched_repo) io"
  gorm_upsert_watched ::
    "watched_repo \<Rightarrow> (time \<Rightarrow> watched_repo \<Rightarrow> watched_repo) \<Rightarrow> ('w, error option) io"

section \<open>Contracts of statements\<close>

text \<open>
  A query changes no row. It gives an answer that \<open>R\<close> allows, or a driver error; the error is
  \<open>gorm.ErrRecordNotFound\<close> only where \<open>N\<close> holds (no row matches).
\<close>

definition query :: "('d \<Rightarrow> 'a \<Rightarrow> bool) \<Rightarrow> ('d \<Rightarrow> bool) \<Rightarrow> ('d, error + 'a) contract" where
  "query R N d r d' \<longleftrightarrow> d' = d \<and>
     (\<forall>a. r = Return (Inr a) \<longrightarrow> R d a) \<and>
     (\<forall>e. r = Return (Inl e) \<longrightarrow> foreign e \<and> (errors_is e ErrRecordNotFound \<longrightarrow> N d))"

text \<open>
  A statement that writes either succeeds as \<open>R\<close> says, or reports a driver error. A reported
  failure leaves two possibilities: nothing happened, or the statement was applied and only
  its acknowledgement was lost. It is never applied in part.
\<close>

definition execute :: "('d \<Rightarrow> 'a \<Rightarrow> 'd \<Rightarrow> bool) \<Rightarrow> ('d, error + 'a) contract" where
  "execute R d r d' \<longleftrightarrow>
     (case r of
        Return (Inr a) \<Rightarrow> R d a d'
      | Return (Inl e) \<Rightarrow> foreign e \<and> (d' = d \<or> (\<exists>a. R d a d'))
      | Panic p \<Rightarrow> d' = d \<or> (\<exists>a. R d a d'))"

definition perform :: "('d \<Rightarrow> 'd \<Rightarrow> bool) \<Rightarrow> ('d, error option) contract" where
  "perform R d r d' \<longleftrightarrow>
     (case r of
        Return None \<Rightarrow> R d d'
      | Return (Some e) \<Rightarrow> foreign e \<and> (d' = d \<or> R d d')
      | Panic p \<Rightarrow> d' = d \<or> R d d')"

text \<open>
  \<open>db.Transaction(body)\<close>: an error or a panic of the body rolls everything back and is passed
  on; otherwise the commit succeeds, or fails with a driver error that again leaves open
  whether it was applied.
\<close>

definition transaction :: "('d, error option) contract \<Rightarrow> ('d, error option) contract" where
  "transaction S d r d' \<longleftrightarrow>
     (case r of
        Return None \<Rightarrow> S d (Return None) d'
      | Return (Some e) \<Rightarrow>
          d' = d \<and> ((\<exists>d1. S d (Return (Some e)) d1) \<or> foreign e) \<or>
          foreign e \<and> S d (Return None) d'
      | Panic p \<Rightarrow> d' = d \<or> S d (Return None) d')"

lemmas contract_defs = query_def execute_def perform_def transaction_def

section \<open>What the program relies on\<close>

locale gorm_postgres =
  fixes g :: "'w gorm" and tables :: "'w \<Rightarrow> db"
  assumes transaction:
      "meets tables body S \<Longrightarrow> meets tables (gorm_transaction g body) (transaction S)"
    and create_sub: "meets tables (gorm_create_sub g s) (execute (inserts_sub s))"
    and create_tok: "meets tables (gorm_create_tok g t) (execute (inserts_tok t))"
    and first_sub: "meets tables (gorm_first_sub g P)
      (query (\<lambda>d. is_first sub_id P (subs d)) (\<lambda>d. \<not> (\<exists>s \<in> set (subs d). P s)))"
    and find_subs: "meets tables (gorm_find_subs g P)
      (query (\<lambda>d rows. mset rows = mset (filter P (subs d))) (\<lambda>_. False))"
    and update_subs: "meets tables (gorm_update_subs g P f) (perform (updates_subs P f))"
    and delete_subs: "meets tables (gorm_delete_subs g P) (perform (\<lambda>d d'. d' = delete_subs P d))"
    and first_tok_preload: "meets tables (gorm_first_tok_preload g Q)
      (query (\<lambda>d t. \<exists>t0 s. is_first tok_id Q (toks d) t0 \<and> t = t0\<lparr>tok_subscription := s\<rparr> \<and>
           s \<in> insert zero_subscription {s \<in> set (subs d). sub_id s = tok_subscription_id t0})
         (\<lambda>d. \<not> (\<exists>t \<in> set (toks d). Q t)))"
    and delete_toks: "meets tables (gorm_delete_toks g Q) (perform (\<lambda>d d'. d' = delete_toks Q d))"
    and distinct_pluck: "meets tables (gorm_distinct_pluck g P c)
      (query (\<lambda>d cs. distinct cs \<and> set cs = c ` {s \<in> set (subs d). P s}) (\<lambda>_. False))"
    and first_watched: "meets tables (gorm_first_watched g W)
      (query (\<lambda>d w. w \<in> set (watched d) \<and> W w) (\<lambda>d. \<not> (\<exists>w \<in> set (watched d). W w)))"
    and upsert_watched: "meets tables (gorm_upsert_watched g wr upd) (perform (upserts_watched wr upd))"

end
