(* ===== verification/Repository.thy ===== *)
theory Repository imports Gorm begin

text \<open>
  \<open>internal/app/repository/repository.go\<close>: every method of \<open>Repository\<close>, over any driver
  \<open>g\<close>. A method that gives \<open>(*T, error)\<close> with nil for "no such row" gives
  \<open>error + 'a option\<close> here.
\<close>

section \<open>Methods\<close>

definition not_found_as_nil :: "error + 'a \<Rightarrow> ('w, error + 'a option) io" where
  "not_found_as_nil r =
     (case r of
        Inl e \<Rightarrow> if errors_is e ErrRecordNotFound then ret (Inr None) else ret (Inl e)
      | Inr a \<Rightarrow> ret (Inr (Some a)))"

definition create_subscription_with_token ::
  "'w gorm \<Rightarrow> subscription \<Rightarrow> confirmation_token \<Rightarrow> ('w, error option) io" where
  "create_subscription_with_token g sub token =
     gorm_transaction g
       (call (gorm_create_sub g sub) (\<lambda>r. case r of
          Inl err \<Rightarrow> ret (Some err)
        | Inr sub' \<Rightarrow>
            call (gorm_create_tok g (token\<lparr>tok_subscription_id := sub_id sub'\<rparr>)) (\<lambda>r. case r of
              Inl err \<Rightarrow> ret (Some err)
            | Inr _ \<Rightarrow> ret None)))"

definition find_subscription_by_email_and_repo ::
  "'w gorm \<Rightarrow> string \<Rightarrow> string \<Rightarrow> ('w, error + subscription option) io" where
  "find_subscription_by_email_and_repo g email repo =
     call (gorm_first_sub g (\<lambda>s. sub_email s = email \<and> sub_repo s = repo)) not_found_as_nil"

definition find_subscriptions_by_email ::
  "'w gorm \<Rightarrow> string \<Rightarrow> ('w, error + subscription list) io" where
  "find_subscriptions_by_email g email = gorm_find_subs g (\<lambda>s. sub_email s = email)"

definition find_subscription_by_unsubscribe_token ::
  "'w gorm \<Rightarrow> string \<Rightarrow> ('w, error + subscription option) io" where
  "find_subscription_by_unsubscribe_token g token =
     call (gorm_first_sub g (\<lambda>s. sub_unsubscribe_token s = token)) not_found_as_nil"

definition confirm_subscription :: "'w gorm \<Rightarrow> nat \<Rightarrow> ('w, error option) io" where
  "confirm_subscription g i =
     gorm_update_subs g (\<lambda>s. sub_id s = i) (\<lambda>s. s\<lparr>sub_confirmed := True\<rparr>)"

definition delete_subscription :: "'w gorm \<Rightarrow> nat \<Rightarrow> ('w, error option) io" where
  "delete_subscription g i = gorm_delete_subs g (\<lambda>s. sub_id s = i)"

definition find_token_by_value ::
  "'w gorm \<Rightarrow> string \<Rightarrow> ('w, error + confirmation_token option) io" where
  "find_token_by_value g value =
     call (gorm_first_tok_preload g (\<lambda>t. tok_token t = value)) not_found_as_nil"

definition delete_token :: "'w gorm \<Rightarrow> nat \<Rightarrow> ('w, error option) io" where
  "delete_token g i = gorm_delete_toks g (\<lambda>t. tok_id t = i)"

definition find_distinct_confirmed_repos :: "'w gorm \<Rightarrow> ('w, error + string list) io" where
  "find_distinct_confirmed_repos g = gorm_distinct_pluck g (\<lambda>s. sub_confirmed s = True) sub_repo"

definition find_confirmed_subscriptions_by_repo ::
  "'w gorm \<Rightarrow> string \<Rightarrow> ('w, error + subscription list) io" where
  "find_confirmed_subscriptions_by_repo g repo =
     gorm_find_subs g (\<lambda>s. sub_repo s = repo \<and> sub_confirmed s = True)"

definition get_watched_repo :: "'w gorm \<Rightarrow> string \<Rightarrow> ('w, error + watched_repo option) io" where
  "get_watched_repo g repo = call (gorm_first_watched g (\<lambda>w. watched_name w = repo)) not_found_as_nil"

definition save_watched_repo_tag :: "'w gorm \<Rightarrow> string \<Rightarrow> string \<Rightarrow> ('w, error option) io" where
  "save_watched_repo_tag g repo tag =
     gorm_upsert_watched g
       (zero_watched\<lparr>watched_name := repo, last_seen_tag := tag\<rparr>)
       (\<lambda>now w. w\<lparr>last_seen_tag := tag, last_polled_at := now\<rparr>)"

section \<open>What the methods do to the tables\<close>

text \<open>The optional row a lookup gives.\<close>

definition finds :: "('r \<Rightarrow> bool) \<Rightarrow> 'r list \<Rightarrow> 'r option \<Rightarrow> bool" where
  "finds P rows a \<longleftrightarrow> (case a of None \<Rightarrow> \<forall>r \<in> set rows. \<not> P r | Some r \<Rightarrow> r \<in> set rows \<and> P r)"

lemma finds_None [simp]: "finds P rows None \<longleftrightarrow> (\<forall>r \<in> set rows. \<not> P r)"
  by (simp add: finds_def)

lemma finds_Some [simp]: "finds P rows (Some r) \<longleftrightarrow> r \<in> set rows \<and> P r"
  by (simp add: finds_def)

text \<open>
  A token lookup: the preloaded association is the only field that need not come from the row.
\<close>

definition finds_token ::
  "string \<Rightarrow> confirmation_token list \<Rightarrow> confirmation_token option \<Rightarrow> bool" where
  "finds_token value rows a \<longleftrightarrow>
     (case a of
        None \<Rightarrow> value \<notin> tok_token ` set rows
      | Some t \<Rightarrow> \<exists>t0 \<in> set rows. \<exists>s. tok_token t0 = value \<and> t = t0\<lparr>tok_subscription := s\<rparr>)"

lemma finds_token_None [simp]: "finds_token v rows None \<longleftrightarrow> v \<notin> tok_token ` set rows"
  by (simp add: finds_token_def)

lemma finds_token_Some:
  "finds_token v rows (Some t) \<Longrightarrow>
   \<exists>t0 \<in> set rows. tok_token t0 = v \<and> tok_id t0 = tok_id t \<and>
     tok_subscription_id t0 = tok_subscription_id t"
  by (force simp: finds_token_def)

text \<open>A new subscription together with its confirmation token.\<close>

definition adds_pending :: "subscription \<Rightarrow> confirmation_token \<Rightarrow> db \<Rightarrow> db \<Rightarrow> bool" where
  "adds_pending sub token d d' \<longleftrightarrow>
     (\<exists>s t d1. inserts_sub sub d s d1 \<and>
        inserts_tok (token\<lparr>tok_subscription_id := sub_id s\<rparr>) d1 t d')"

definition confirms :: "nat \<Rightarrow> db \<Rightarrow> db \<Rightarrow> bool" where
  "confirms i = updates_subs (\<lambda>s. sub_id s = i) (\<lambda>s. s\<lparr>sub_confirmed := True\<rparr>)"

definition saves_tag :: "string \<Rightarrow> string \<Rightarrow> db \<Rightarrow> db \<Rightarrow> bool" where
  "saves_tag repo tag =
     upserts_watched (zero_watched\<lparr>watched_name := repo, last_seen_tag := tag\<rparr>)
       (\<lambda>now w. w\<lparr>last_seen_tag := tag, last_polled_at := now\<rparr>)"

text \<open>The contract of a lookup that turns "not found" into nil.\<close>

lemma meets_not_found_as_nil:
  assumes "meets v m (query R N)"
    and "\<And>d a. R d a \<Longrightarrow> Q d (Some a)" and "\<And>d. N d \<Longrightarrow> Q d None"
  shows "meets v (call m not_found_as_nil) (query Q (\<lambda>_. False))"
proof (rule meets_call [OF assms(1)])
  show "meets v (not_found_as_nil r)
          (\<lambda>d o1 d'. d' = d \<and> o1 = Return (case r of
             Inl e \<Rightarrow> if errors_is e ErrRecordNotFound then Inr None else Inl e
           | Inr a \<Rightarrow> Inr (Some a)))" for r
    by (rule meetsI) (auto simp: not_found_as_nil_def split: sum.splits)
qed (auto simp: query_def assms(2,3) split: sum.splits)

context gorm_postgres
begin

lemma create_meets:
  "meets tables (create_subscription_with_token g sub token) (perform (adds_pending sub token))"
proof -
  let ?S = "\<lambda>d r d'. case r of
      Return None \<Rightarrow> adds_pending sub token d d'
    | Return (Some e) \<Rightarrow> foreign e
    | Panic p \<Rightarrow> True"
  have tok: "meets tables
      (call (gorm_create_tok g t) (\<lambda>r. case r of Inl err \<Rightarrow> ret (Some err) | Inr _ \<Rightarrow> ret None))
      (\<lambda>d r d'. case r of Return None \<Rightarrow> \<exists>t'. inserts_tok t d t' d'
         | Return (Some e) \<Rightarrow> foreign e | Panic p \<Rightarrow> True)" for t
    by (rule meets_call [OF create_tok,
          where T = "\<lambda>a d r d'. d' = d \<and> r = Return (case a of Inl e \<Rightarrow> Some e | Inr _ \<Rightarrow> None)"])
       (auto simp: meets_def execute_def split: sum.splits)
  have "meets tables
      (call (gorm_create_sub g sub) (\<lambda>r. case r of Inl err \<Rightarrow> ret (Some err)
         | Inr sub' \<Rightarrow> call (gorm_create_tok g (token\<lparr>tok_subscription_id := sub_id sub'\<rparr>))
             (\<lambda>r. case r of Inl err \<Rightarrow> ret (Some err) | Inr _ \<Rightarrow> ret None))) ?S"
  proof (rule meets_call [OF create_sub])
    show "meets tables (case a of Inl err \<Rightarrow> ret (Some err)
         | Inr sub' \<Rightarrow> call (gorm_create_tok g (token\<lparr>tok_subscription_id := sub_id sub'\<rparr>))
             (\<lambda>r. case r of Inl err \<Rightarrow> ret (Some err) | Inr _ \<Rightarrow> ret None))
        (case a of
            Inl e \<Rightarrow> (\<lambda>d r d'. d' = d \<and> r = Return (Some e))
          | Inr s \<Rightarrow> (\<lambda>d r d'. case r of
              Return None \<Rightarrow> \<exists>t'. inserts_tok (token\<lparr>tok_subscription_id := sub_id s\<rparr>) d t' d'
            | Return (Some e) \<Rightarrow> foreign e | Panic p \<Rightarrow> True))" for a
      by (cases a) (simp_all add: meets_ret tok)
  qed (auto simp: execute_def adds_pending_def split: sum.splits outcome.splits option.splits)
  from transaction [OF this] show ?thesis
    unfolding create_subscription_with_token_def
    by (rule meets_weaken) (auto simp: transaction_def perform_def split: outcome.splits option.splits)
qed

lemma find_by_email_repo_meets:
  "meets tables (find_subscription_by_email_and_repo g email repo)
     (query (\<lambda>d. finds (\<lambda>s. sub_email s = email \<and> sub_repo s = repo) (subs d)) (\<lambda>_. False))"
  unfolding find_subscription_by_email_and_repo_def
  by (rule meets_not_found_as_nil [OF first_sub]) (auto simp: is_first_def)

lemma find_by_email_meets:
  "meets tables (find_subscriptions_by_email g email)
     (query (\<lambda>d rows. mset rows = mset (filter (\<lambda>s. sub_email s = email) (subs d))) (\<lambda>_. False))"
  unfolding find_subscriptions_by_email_def by (rule find_subs)

lemma find_by_unsubscribe_token_meets:
  "meets tables (find_subscription_by_unsubscribe_token g token)
     (query (\<lambda>d. finds (\<lambda>s. sub_unsubscribe_token s = token) (subs d)) (\<lambda>_. False))"
  unfolding find_subscription_by_unsubscribe_token_def
  by (rule meets_not_found_as_nil [OF first_sub]) (auto simp: is_first_def)

lemma confirm_meets: "meets tables (confirm_subscription g i) (perform (confirms i))"
  unfolding confirm_subscription_def confirms_def by (rule update_subs)

lemma delete_subscription_meets:
  "meets tables (delete_subscription g i) (perform (\<lambda>d d'. d' = delete_subs (\<lambda>s. sub_id s = i) d))"
  unfolding delete_subscription_def by (rule delete_subs)

lemma find_token_meets:
  "meets tables (find_token_by_value g value)
     (query (\<lambda>d. finds_token value (toks d)) (\<lambda>_. False))"
  unfolding find_token_by_value_def
  by (rule meets_not_found_as_nil [OF first_tok_preload]) (auto simp: is_first_def finds_token_def)

lemma delete_token_meets:
  "meets tables (delete_token g i) (perform (\<lambda>d d'. d' = delete_toks (\<lambda>t. tok_id t = i) d))"
  unfolding delete_token_def by (rule delete_toks)

lemma distinct_confirmed_repos_meets:
  "meets tables (find_distinct_confirmed_repos g)
     (query (\<lambda>d cs. distinct cs \<and> set cs = sub_repo ` {s \<in> set (subs d). sub_confirmed s}) (\<lambda>_. False))"
  unfolding find_distinct_confirmed_repos_def
  by (rule meets_weaken [OF distinct_pluck]) (simp add: query_def)

lemma confirmed_by_repo_meets:
  "meets tables (find_confirmed_subscriptions_by_repo g repo)
     (query (\<lambda>d rows. mset rows = mset (filter (\<lambda>s. sub_repo s = repo \<and> sub_confirmed s) (subs d)))
        (\<lambda>_. False))"
  unfolding find_confirmed_subscriptions_by_repo_def
  by (rule meets_weaken [OF find_subs]) (simp add: query_def)

lemma get_watched_meets:
  "meets tables (get_watched_repo g repo)
     (query (\<lambda>d. finds (\<lambda>w. watched_name w = repo) (watched d)) (\<lambda>_. False))"
  unfolding get_watched_repo_def
  by (rule meets_not_found_as_nil [OF first_watched]) (auto simp: is_first_def)

lemma save_watched_meets: "meets tables (save_watched_repo_tag g repo tag) (perform (saves_tag repo tag))"
  unfolding save_watched_repo_tag_def saves_tag_def by (rule upsert_watched)

end

end
