(* ===== verification/RepoFormat.thy ===== *)
theory RepoFormat imports GoStrings begin

text \<open>
  The format of a repository name: the regular expression of \<open>service.go\<close>, the matcher the
  model evaluates, and how the name splits at its slash.
\<close>

section \<open>The repository name format\<close>

text \<open>
  \<open>repoFormatRegex\<close> is \<open>^[a-zA-Z0-9._-]+/[a-zA-Z0-9._-]+$\<close>. No byte of the class is a slash, so
  the first slash ends the owner.
\<close>

definition repo_char :: "char \<Rightarrow> bool" where
  "repo_char c \<longleftrightarrow>
     (97 \<le> char_code c \<and> char_code c \<le> 122) \<or> (65 \<le> char_code c \<and> char_code c \<le> 90) \<or>
     (48 \<le> char_code c \<and> char_code c \<le> 57) \<or> c = CHR ''.'' \<or> c = CHR ''_'' \<or> c = CHR ''-''"

definition repo_format_matches :: "string \<Rightarrow> bool" where
  "repo_format_matches s \<longleftrightarrow>
     (let owner = takeWhile repo_char s in
      case drop (length owner) s of
        [] \<Rightarrow> False
      | c # name \<Rightarrow> owner \<noteq> [] \<and> c = CHR ''/'' \<and> name \<noteq> [] \<and> list_all repo_char name)"

text \<open>The language of the regular expression, as its syntax defines it.\<close>

datatype regex = Class "char \<Rightarrow> bool" | Plus regex | Seq regex regex

inductive in_regex :: "regex \<Rightarrow> string \<Rightarrow> bool" where
  rx_class: "P c \<Longrightarrow> in_regex (Class P) [c]"
| rx_one: "in_regex r s \<Longrightarrow> in_regex (Plus r) s"
| rx_more: "in_regex r s \<Longrightarrow> in_regex (Plus r) t \<Longrightarrow> in_regex (Plus r) (s @ t)"
| rx_seq: "in_regex r s \<Longrightarrow> in_regex q t \<Longrightarrow> in_regex (Seq r q) (s @ t)"

inductive_cases in_regex_ClassE: "in_regex (Class P) s"
inductive_cases in_regex_SeqE: "in_regex (Seq r q) s"

definition repo_format_regex :: regex where
  "repo_format_regex = Seq (Plus (Class repo_char)) (Seq (Class (\<lambda>c. c = CHR ''/'')) (Plus (Class repo_char)))"

lemma in_regex_Plus_ClassD: "in_regex r s \<Longrightarrow> r = Plus (Class P) \<Longrightarrow> s \<noteq> [] \<and> list_all P s"
  by (induction rule: in_regex.induct) (auto elim: in_regex_ClassE)

lemma in_regex_Plus_ClassI: "s \<noteq> [] \<Longrightarrow> list_all P s \<Longrightarrow> in_regex (Plus (Class P)) s"
proof (induction s)
  case (Cons c s)
  show ?case
  proof (cases s)
    case Nil
    with Cons show ?thesis by (auto intro: in_regex.intros)
  next
    case (Cons d t)
    with Cons.IH Cons.prems have "in_regex (Plus (Class P)) ([c] @ s)"
      by (intro rx_more rx_class) auto
    then show ?thesis by simp
  qed
qed simp

lemma repo_char_not_slash [simp]: "\<not> repo_char (CHR ''/'')"
  by (simp add: repo_char_def char_code_def)

lemma repo_format_split:
  "repo_format_matches s \<longleftrightarrow>
   (\<exists>owner name. s = owner @ CHR ''/'' # name \<and> owner \<noteq> [] \<and> name \<noteq> [] \<and>
      list_all repo_char owner \<and> list_all repo_char name)"
proof
  assume m: "repo_format_matches s"
  let ?owner = "takeWhile repo_char s"
  from m obtain c name where d: "drop (length ?owner) s = c # name"
    and p: "?owner \<noteq> []" "c = CHR ''/''" "name \<noteq> []" "list_all repo_char name"
    by (auto simp: repo_format_matches_def Let_def split: list.splits)
  have "s = ?owner @ drop (length ?owner) s"
    by (metis append_take_drop_id takeWhile_eq_take)
  with d p show "\<exists>owner name. s = owner @ CHR ''/'' # name \<and> owner \<noteq> [] \<and> name \<noteq> [] \<and>
      list_all repo_char owner \<and> list_all repo_char name"
    by (metis list_all_iff set_takeWhileD)
next
  assume "\<exists>owner name. s = owner @ CHR ''/'' # name \<and> owner \<noteq> [] \<and> name \<noteq> [] \<and>
      list_all repo_char owner \<and> list_all repo_char name"
  then obtain owner name where s: "s = owner @ CHR ''/'' # name"
    and p: "owner \<noteq> []" "name \<noteq> []" "list_all repo_char owner" "list_all repo_char name"
    by blast
  then have "takeWhile repo_char s = owner"
    by (simp add: takeWhile_append2 list_all_iff)
  with s p show "repo_format_matches s"
    by (simp add: repo_format_matches_def)
qed

lemma repo_format_owner_no_slash: "list_all repo_char owner \<Longrightarrow> CHR ''/'' \<notin> set owner"
  by (auto simp: list_all_iff dest: repo_char_not_slash [THEN notE, rotated])

lemma repo_format_split_n:
  assumes "repo_format_matches s"
  obtains owner name where "split_n 2 ''/'' s = [owner, name]" and "s = owner @ ''/'' @ name"
    and "owner \<noteq> []" and "name \<noteq> []" and "list_all repo_char owner" and "list_all repo_char name"
  using assms by (auto simp: repo_format_split split_2_char repo_format_owner_no_slash)

text \<open>
  C32. The matcher accepts exactly the language of the regular expression
  \<open>^[a-zA-Z0-9._-]+/[a-zA-Z0-9._-]+$\<close>, the greedy match of the owner and the anchors included.
\<close>

theorem repo_format_language: "repo_format_matches s \<longleftrightarrow> in_regex repo_format_regex s"
proof
  assume "repo_format_matches s"
  then obtain owner name where s: "s = owner @ [CHR ''/''] @ name"
    and p: "owner \<noteq> []" "name \<noteq> []" "list_all repo_char owner" "list_all repo_char name"
    by (auto simp: repo_format_split)
  have "in_regex (Class (\<lambda>c. c = CHR ''/'')) [CHR ''/'']"
    by (rule rx_class) simp
  with p show "in_regex repo_format_regex s"
    unfolding s repo_format_regex_def by (intro rx_seq in_regex_Plus_ClassI)
next
  assume "in_regex repo_format_regex s"
  then show "repo_format_matches s"
    unfolding repo_format_regex_def
    by (elim in_regex_SeqE in_regex_ClassE)
       (auto simp: repo_format_split dest: in_regex_Plus_ClassD)
qed

end
