(* ===== verification/Service.thy ===== *)
theory Service imports Repository RepoFormat begin

text \<open>
  \<open>internal/app/service/service.go\<close>: the business logic behind the HTTP interface. The
  collaborators of \<open>Service\<close> are Go interfaces declared next to it, so they are records of
  functions here, and a locale states what the service needs of them.
\<close>

section \<open>Collaborators\<close>

record 'w subscription_repo =
  sr_create_with_token :: "subscription \<Rightarrow> confirmation_token \<Rightarrow> ('w, error option) io"
  sr_find_by_email_and_repo :: "string \<Rightarrow> string \<Rightarrow> ('w, error + subscription option) io"
  sr_find_by_email :: "string \<Rightarrow> ('w, error + subscription list) io"
  sr_find_by_unsubscribe_token :: "string \<Rightarrow> ('w, error + subscription option) io"
  sr_confirm :: "nat \<Rightarrow> ('w, error option) io"
  sr_delete :: "nat \<Rightarrow> ('w, error option) io"

record 'w token_repo =
  tr_find_by_value :: "string \<Rightarrow> ('w, error + confirmation_token option) io"
  tr_delete :: "nat \<Rightarrow> ('w, error option) io"

type_synonym 'w repo_validator = "string \<Rightarrow> string \<Rightarrow> ('w, error option) io"
type_synonym 'w confirmation_sender = "string \<Rightarrow> string \<Rightarrow> string \<Rightarrow> string \<Rightarrow> ('w, error option) io"
type_synonym 'w token_generator = "('w, error + string) io"

record 'w service =
  svc_subs :: "'w subscription_repo"
  svc_tokens :: "'w token_repo"
  svc_github :: "'w repo_validator"
  svc_notifier :: "'w confirmation_sender"
  svc_new_token :: "'w token_generator"

text \<open>
  \<open>RandomToken\<close>; \<open>uuid_new\<close> is \<open>uuid.NewRandom\<close> followed by \<open>String\<close>, which may find
  the system's randomness unavailable.
\<close>

definition random_token :: "('w, error + string) io \<Rightarrow> 'w token_generator" where
  "random_token uuid_new =
     call uuid_new (\<lambda>r. case r of
       Inl err \<Rightarrow> ret (Inl (wrapf ''uuid generation failed'' err))
     | Inr u \<Rightarrow> ret (Inr u))"

definition new_service ::
  "('w, error + string) io \<Rightarrow> 'w subscription_repo \<Rightarrow> 'w token_repo \<Rightarrow> 'w repo_validator \<Rightarrow>
   'w confirmation_sender \<Rightarrow> 'w token_generator option \<Rightarrow> 'w service" where
  "new_service uuid_new sr tr github notifier new_token =
     \<lparr>svc_subs = sr, svc_tokens = tr, svc_github = github, svc_notifier = notifier,
      svc_new_token = (case new_token of None \<Rightarrow> random_token uuid_new | Some f \<Rightarrow> f)\<rparr>"

section \<open>Operations\<close>

text \<open>The rows \<open>Subscribe\<close> asks the repository to store.\<close>

definition pending_sub :: "subscribe_request \<Rightarrow> string \<Rightarrow> subscription" where
  "pending_sub req unsub_token =
     zero_subscription\<lparr>sub_email := req_email req, sub_repo := req_repo req,
       sub_unsubscribe_token := unsub_token\<rparr>"

definition pending_tok :: "string \<Rightarrow> confirmation_token" where
  "pending_tok confirm_token = zero_token\<lparr>tok_token := confirm_token\<rparr>"

definition svc_subscribe :: "'w service \<Rightarrow> subscribe_request \<Rightarrow> ('w, error option) io" where
  "svc_subscribe s req =
     (if \<not> repo_format_matches (req_repo req) then ret (Some (Sentinel ErrInvalidRepoFormat)) else
      call (sr_find_by_email_and_repo (svc_subs s) (req_email req) (req_repo req)) (\<lambda>r. case r of
        Inl err \<Rightarrow> ret (Some (wrapf ''failed to check existing subscription'' err))
      | Inr (Some existing) \<Rightarrow> ret (Some (Sentinel ErrAlreadySubscribed))
      | Inr None \<Rightarrow>
      (case split_n 2 ''/'' (req_repo req) of
        owner # name # _ \<Rightarrow>
        call (svc_github s owner name) (\<lambda>r. case r of
          Some err \<Rightarrow> ret (Some err)
        | None \<Rightarrow>
        call (svc_new_token s) (\<lambda>r. case r of
          Inl err \<Rightarrow> ret (Some (wrapf ''failed to generate unsubscribe token'' err))
        | Inr unsub_token \<Rightarrow>
        call (svc_new_token s) (\<lambda>r. case r of
          Inl err \<Rightarrow> ret (Some (wrapf ''failed to generate confirmation token'' err))
        | Inr confirm_token \<Rightarrow>
        call (sr_create_with_token (svc_subs s) (pending_sub req unsub_token) (pending_tok confirm_token))
          (\<lambda>r. case r of
          Some err \<Rightarrow> ret (Some (wrapf ''failed to persist subscription'' err))
        | None \<Rightarrow>
        call (svc_notifier s (req_email req) (req_repo req) confirm_token unsub_token) (\<lambda>r.
          \<comment> \<open>a failed send is logged only\<close>
          ret None)))))
      | _ \<Rightarrow> raise_panic ''index out of range'')))"

definition svc_confirm_subscription :: "'w service \<Rightarrow> string \<Rightarrow> ('w, error option) io" where
  "svc_confirm_subscription s token_value =
     (if token_value = [] then ret (Some (Sentinel ErrTokenNotFound)) else
      call (tr_find_by_value (svc_tokens s) token_value) (\<lambda>r. case r of
        Inl err \<Rightarrow> ret (Some (wrapf ''failed to look up token'' err))
      | Inr None \<Rightarrow> ret (Some (Sentinel ErrTokenNotFound))
      | Inr (Some token) \<Rightarrow>
      call (sr_confirm (svc_subs s) (tok_subscription_id token)) (\<lambda>r. case r of
        Some err \<Rightarrow>
          ret (Some (wrapf (''failed to confirm subscription id='' @ decimal (tok_subscription_id token)) err))
      | None \<Rightarrow>
      call (tr_delete (svc_tokens s) (tok_id token)) (\<lambda>r.
        \<comment> \<open>a failed delete is logged only\<close>
        ret None))))"

definition svc_unsubscribe :: "'w service \<Rightarrow> string \<Rightarrow> ('w, error option) io" where
  "svc_unsubscribe s token_value =
     (if token_value = [] then ret (Some (Sentinel ErrTokenNotFound)) else
      call (sr_find_by_unsubscribe_token (svc_subs s) token_value) (\<lambda>r. case r of
        Inl err \<Rightarrow> ret (Some (wrapf ''failed to look up unsubscribe token'' err))
      | Inr None \<Rightarrow> ret (Some (Sentinel ErrTokenNotFound))
      | Inr (Some sub) \<Rightarrow>
      call (sr_delete (svc_subs s) (sub_id sub)) (\<lambda>r. case r of
        Some err \<Rightarrow> ret (Some (wrapf (''failed to delete subscription id='' @ decimal (sub_id sub)) err))
      | None \<Rightarrow> ret None)))"

text \<open>
  \<open>parse_ok\<close> is whether \<open>net/mail\<close>'s \<open>ParseAddress\<close> accepts its argument; the service
  drops the address it parses.
\<close>

definition svc_get_subscriptions ::
  "(string \<Rightarrow> bool) \<Rightarrow> 'w service \<Rightarrow> string \<Rightarrow> ('w, error + subscription_response list) io" where
  "svc_get_subscriptions parse_ok s raw_email =
     (let email = trim_space raw_email in
      if email = [] then ret (Inl (Sentinel ErrInvalidEmail)) else
      if \<not> parse_ok email then ret (Inl (Sentinel ErrInvalidEmail)) else
      call (sr_find_by_email (svc_subs s) email) (\<lambda>r. case r of
        Inl err \<Rightarrow> ret (Inl (wrapf ''failed to fetch subscriptions'' err))
      | Inr rows \<Rightarrow> ret (Inr (to_subscription_list_response rows))))"

section \<open>What the service needs of its collaborators\<close>

locale subscription_store =
  fixes sr :: "'w subscription_repo" and tr :: "'w token_repo" and tables :: "'w \<Rightarrow> db"
  assumes create: "meets tables (sr_create_with_token sr sub tok) (perform (adds_pending sub tok))"
    and find_by_email_and_repo: "meets tables (sr_find_by_email_and_repo sr email repo)
      (query (\<lambda>d. finds (\<lambda>s. sub_email s = email \<and> sub_repo s = repo) (subs d)) (\<lambda>_. False))"
    and find_by_email: "meets tables (sr_find_by_email sr email)
      (query (\<lambda>d rows. mset rows = mset (filter (\<lambda>s. sub_email s = email) (subs d))) (\<lambda>_. False))"
    and find_by_unsubscribe_token: "meets tables (sr_find_by_unsubscribe_token sr token)
      (query (\<lambda>d. finds (\<lambda>s. sub_unsubscribe_token s = token) (subs d)) (\<lambda>_. False))"
    and confirm: "meets tables (sr_confirm sr i) (perform (confirms i))"
    and delete: "meets tables (sr_delete sr i) (perform (\<lambda>d d'. d' = delete_subs (\<lambda>s. sub_id s = i) d))"
    and find_token: "meets tables (tr_find_by_value tr v)
      (query (\<lambda>d. finds_token v (toks d)) (\<lambda>_. False))"
    and delete_token: "meets tables (tr_delete tr i)
      (perform (\<lambda>d d'. d' = delete_toks (\<lambda>t. tok_id t = i) d))"

text \<open>
  The other collaborators leave the tables alone. The validator reports, of the program's own
  errors, only that the repository does not exist or that GitHub is rate limiting.
\<close>

abbreviation validator_error :: "error \<Rightarrow> bool" where
  "validator_error \<equiv> reports_only {ErrRepoNotFound, ErrRateLimited}"

declare reports_only_errors_is [simp]

locale service_env = subscription_store "svc_subs s" "svc_tokens s" tables
  for s :: "'w service" and tables :: "'w \<Rightarrow> db" +
  assumes validate: "meets tables (svc_github s owner name)
      (\<lambda>d r d'. d' = d \<and> (\<forall>e. r = Return (Some e) \<longrightarrow> validator_error e))"
    and notifier: "keeps tables (svc_notifier s email repo ctok utok)"
    and new_token: "meets tables (svc_new_token s)
      (\<lambda>d r d'. d' = d \<and> (\<forall>e. r = Return (Inl e) \<longrightarrow> foreign e))"

definition subscribed :: "string \<Rightarrow> string \<Rightarrow> db \<Rightarrow> bool" where
  "subscribed email repo d \<longleftrightarrow> (\<exists>s \<in> set (subs d). sub_email s = email \<and> sub_repo s = repo)"

lemma subscribedI: "s \<in> set (subs d) \<Longrightarrow> sub_email s = email \<Longrightarrow> sub_repo s = repo \<Longrightarrow> subscribed email repo d"
  by (auto simp: subscribed_def)

definition added_pending :: "subscribe_request \<Rightarrow> db \<Rightarrow> db \<Rightarrow> bool" where
  "added_pending req d d' \<longleftrightarrow> (\<exists>ut ct. adds_pending (pending_sub req ut) (pending_tok ct) d d')"

lemma added_pendingI: "adds_pending (pending_sub req ut) (pending_tok ct) d d' \<Longrightarrow> added_pending req d d'"
  by (auto simp: added_pending_def)

text \<open>
  The contracts of the operations. A failure is reported with the tables as they were, but for
  the write whose outcome the driver could not tell.
\<close>

definition subscribe_contract :: "subscribe_request \<Rightarrow> (db, error option) contract" where
  "subscribe_contract req d r d' \<longleftrightarrow>
     (case r of
        Return None \<Rightarrow>
          repo_format_matches (req_repo req) \<and> \<not> subscribed (req_email req) (req_repo req) d \<and>
          added_pending req d d'
      | Return (Some e) \<Rightarrow>
          (d' = d \<or> repo_format_matches (req_repo req) \<and> foreign e \<and> added_pending req d d') \<and>
          (\<not> repo_format_matches (req_repo req) \<longrightarrow> e = Sentinel ErrInvalidRepoFormat) \<and>
          (repo_format_matches (req_repo req) \<and> subscribed (req_email req) (req_repo req) d \<longrightarrow>
             e = Sentinel ErrAlreadySubscribed \<or> foreign e) \<and>
          (errors_is e ErrInvalidRepoFormat \<longrightarrow> \<not> repo_format_matches (req_repo req)) \<and>
          (errors_is e ErrAlreadySubscribed \<longrightarrow> subscribed (req_email req) (req_repo req) d) \<and>
          \<not> errors_is e ErrTokenNotFound \<and> \<not> errors_is e ErrInvalidEmail
      | Panic p \<Rightarrow> repo_format_matches (req_repo req) \<and> (d' = d \<or> added_pending req d d'))"

definition confirmed_by :: "string \<Rightarrow> db \<Rightarrow> db \<Rightarrow> bool" where
  "confirmed_by v d d' \<longleftrightarrow> v \<noteq> [] \<and>
     (\<exists>t \<in> set (toks d). tok_token t = v \<and> confirms (tok_subscription_id t) d d')"

definition confirmed_and_spent :: "string \<Rightarrow> db \<Rightarrow> db \<Rightarrow> bool" where
  "confirmed_and_spent v d d' \<longleftrightarrow> v \<noteq> [] \<and>
     (\<exists>t \<in> set (toks d). \<exists>d1. tok_token t = v \<and> confirms (tok_subscription_id t) d d1 \<and>
        d' = delete_toks (\<lambda>x. tok_id x = tok_id t) d1)"

lemma confirmed_byI:
  "finds_token v (toks d) (Some t) \<Longrightarrow> v \<noteq> [] \<Longrightarrow> confirms (tok_subscription_id t) d d' \<Longrightarrow> confirmed_by v d d'"
  by (force simp: confirmed_by_def dest: finds_token_Some)

lemma confirmed_and_spentI:
  "finds_token v (toks d) (Some t) \<Longrightarrow> v \<noteq> [] \<Longrightarrow> confirms (tok_subscription_id t) d d1 \<Longrightarrow>
   d' = delete_toks (\<lambda>x. tok_id x = tok_id t) d1 \<Longrightarrow> confirmed_and_spent v d d'"
  by (force simp: confirmed_and_spent_def dest: finds_token_Some)

definition confirm_contract :: "string \<Rightarrow> (db, error option) contract" where
  "confirm_contract v d r d' \<longleftrightarrow>
     (case r of
        Return None \<Rightarrow> confirmed_by v d d' \<or> confirmed_and_spent v d d'
      | Return (Some e) \<Rightarrow>
          (d' = d \<or> foreign e \<and> confirmed_by v d d') \<and>
          (e = Sentinel ErrTokenNotFound \<and> (v = [] \<or> v \<notin> tok_token ` set (toks d)) \<or> foreign e \<and> v \<noteq> [])
      | Panic p \<Rightarrow> d' = d \<or> confirmed_by v d d' \<or> confirmed_and_spent v d d')"

definition unsubscribed_by :: "string \<Rightarrow> db \<Rightarrow> db \<Rightarrow> bool" where
  "unsubscribed_by v d d' \<longleftrightarrow> v \<noteq> [] \<and>
     (\<exists>s \<in> set (subs d). sub_unsubscribe_token s = v \<and> d' = delete_subs (\<lambda>x. sub_id x = sub_id s) d)"

lemma unsubscribed_byI:
  "s \<in> set (subs d) \<Longrightarrow> sub_unsubscribe_token s = v \<Longrightarrow> v \<noteq> [] \<Longrightarrow>
   unsubscribed_by v d (delete_subs (\<lambda>x. sub_id x = sub_id s) d)"
  by (auto simp: unsubscribed_by_def)

definition unsubscribe_contract :: "string \<Rightarrow> (db, error option) contract" where
  "unsubscribe_contract v d r d' \<longleftrightarrow>
     (case r of
        Return None \<Rightarrow> unsubscribed_by v d d'
      | Return (Some e) \<Rightarrow>
          (d' = d \<or> foreign e \<and> unsubscribed_by v d d') \<and>
          (e = Sentinel ErrTokenNotFound \<and> (v = [] \<or> v \<notin> sub_unsubscribe_token ` set (subs d)) \<or>
           foreign e \<and> v \<noteq> [])
      | Panic p \<Rightarrow> d' = d \<or> unsubscribed_by v d d')"

definition get_contract ::
  "(string \<Rightarrow> bool) \<Rightarrow> string \<Rightarrow> (db, error + subscription_response list) contract" where
  "get_contract parse_ok raw d r d' \<longleftrightarrow> d' = d \<and>
     (let email = trim_space raw in
      case r of
        Return (Inr rs) \<Rightarrow> email \<noteq> [] \<and> parse_ok email \<and>
          mset rs = mset (map to_subscription_response (filter (\<lambda>s. sub_email s = email) (subs d)))
      | Return (Inl e) \<Rightarrow>
          e = Sentinel ErrInvalidEmail \<and> (email = [] \<or> \<not> parse_ok email) \<or>
          foreign e \<and> email \<noteq> [] \<and> parse_ok email
      | Panic p \<Rightarrow> email \<noteq> [] \<and> parse_ok email)"

context service_env
begin

lemmas calls =
  run_ok_call [OF create] run_ok_call [OF find_by_email_and_repo] run_ok_call [OF find_by_email]
  run_ok_call [OF find_by_unsubscribe_token] run_ok_call [OF confirm] run_ok_call [OF delete]
  run_ok_call [OF find_token] run_ok_call [OF delete_token] run_ok_call [OF validate]
  run_ok_call [OF new_token] run_ok_call [OF meets_keeps [OF notifier]]

lemma subscribe_meets: "meets tables (svc_subscribe s req) (subscribe_contract req)"
proof (rule meets_run_ok)
  fix w
  show "run_ok (svc_subscribe s req) (\<lambda>r w'. subscribe_contract req (tables w) r (tables w')) w"
  proof (cases "repo_format_matches (req_repo req)")
    case False
    then show ?thesis by (simp add: svc_subscribe_def subscribe_contract_def)
  next
    case True
    then obtain owner name where "split_n 2 ''/'' (req_repo req) = [owner, name]"
      by (rule repo_format_split_n)
    with True show ?thesis
      unfolding svc_subscribe_def
      by (auto simp: query_def perform_def subscribe_contract_def subscribed_def
            intro!: calls dest!: added_pendingI split: sum.splits option.splits; blast)
  qed
qed

lemma confirm_meets: "meets tables (svc_confirm_subscription s v) (confirm_contract v)"
  unfolding svc_confirm_subscription_def
  by (rule meets_run_ok)
     (auto simp: query_def perform_def confirm_contract_def intro!: calls
        split: sum.splits option.splits; metis confirmed_byI confirmed_and_spentI)

lemma unsubscribe_meets: "meets tables (svc_unsubscribe s v) (unsubscribe_contract v)"
  unfolding svc_unsubscribe_def
  by (rule meets_run_ok)
     (auto simp: query_def perform_def unsubscribe_contract_def
        intro!: calls split: sum.splits option.splits; metis unsubscribed_byI)

lemma get_subscriptions_meets:
  "meets tables (svc_get_subscriptions parse_ok s raw) (get_contract parse_ok raw)"
  unfolding svc_get_subscriptions_def
  by (rule meets_run_ok)
     (auto simp: query_def get_contract_def Let_def intro!: calls split: sum.splits option.splits)

end

section \<open>Operations that stop before any call\<close>

lemma subscribe_bad_format:
  "\<not> repo_format_matches (req_repo req) \<Longrightarrow>
   svc_subscribe s req w = (Return (Some (Sentinel ErrInvalidRepoFormat)), w)"
  by (simp add: svc_subscribe_def)

lemma confirm_empty: "svc_confirm_subscription s [] w = (Return (Some (Sentinel ErrTokenNotFound)), w)"
  by (simp add: svc_confirm_subscription_def)

lemma unsubscribe_empty: "svc_unsubscribe s [] w = (Return (Some (Sentinel ErrTokenNotFound)), w)"
  by (simp add: svc_unsubscribe_def)

end
