(* ===== verification/Registry.thy ===== *)
theory Registry imports Service begin

text \<open>
  The abstract specification of the subscription service: a registry of who follows which
  repository, with the links that were mailed out. The tables refine it, and every operation
  of the service is one of its steps.
\<close>

section \<open>The registry\<close>

type_synonym account = "string \<times> string"

record registry =
  status :: "account \<rightharpoonup> bool"
  confirm_links :: "string \<rightharpoonup> account"
  unsub_links :: "string \<rightharpoonup> account"

abbreviation account_of :: "subscription \<Rightarrow> account" where
  "account_of s \<equiv> (sub_email s, sub_repo s)"

text \<open>An account joins, unconfirmed, with two fresh links.\<close>

definition reg_join :: "account \<Rightarrow> string \<Rightarrow> string \<Rightarrow> registry \<Rightarrow> registry" where
  "reg_join k ut ct g =
     g\<lparr>status := (status g)(k \<mapsto> False), confirm_links := (confirm_links g)(ct \<mapsto> k),
       unsub_links := (unsub_links g)(ut \<mapsto> k)\<rparr>"

definition reg_confirm :: "account \<Rightarrow> registry \<Rightarrow> registry" where
  "reg_confirm k g = g\<lparr>status := (status g)(k \<mapsto> True)\<rparr>"

definition reg_spend :: "string \<Rightarrow> registry \<Rightarrow> registry" where
  "reg_spend v g = g\<lparr>confirm_links := (confirm_links g)(v := None)\<rparr>"

text \<open>An account leaves: its status and every link to it disappear.\<close>

definition reg_leave :: "account \<Rightarrow> registry \<Rightarrow> registry" where
  "reg_leave k g =
     g\<lparr>status := (status g)(k := None),
       confirm_links := (\<lambda>v. if confirm_links g v = Some k then None else confirm_links g v),
       unsub_links := (\<lambda>v. if unsub_links g v = Some k then None else unsub_links g v)\<rparr>"

section \<open>The registry that the tables hold\<close>

definition abs_registry :: "db \<Rightarrow> registry" where
  "abs_registry d =
     \<lparr>status = (\<lambda>k. map_option sub_confirmed (List.find (\<lambda>s. account_of s = k) (subs d))),
      confirm_links = (\<lambda>v. Option.bind (List.find (\<lambda>t. tok_token t = v) (toks d))
        (\<lambda>t. map_option account_of (List.find (\<lambda>s. sub_id s = tok_subscription_id t) (subs d)))),
      unsub_links = (\<lambda>v. map_option account_of
        (List.find (\<lambda>s. sub_unsubscribe_token s = v) (subs d)))\<rparr>"

lemma schema_distinct:
  assumes "schema_ok d"
  shows "distinct (map account_of (subs d))" and "distinct (map sub_id (subs d))"
    and "distinct (map sub_unsubscribe_token (subs d))" and "distinct (map tok_token (toks d))"
    and "distinct (map tok_id (toks d))"
  using assms by (simp_all add: schema_defs)

lemma status_abs:
  "schema_ok d \<Longrightarrow> status (abs_registry d) k = Some c \<longleftrightarrow>
     (\<exists>s \<in> set (subs d). account_of s = k \<and> sub_confirmed s = c)"
  by (auto simp: abs_registry_def find_key_eq [OF schema_distinct(1)])

lemma unsub_links_abs:
  "schema_ok d \<Longrightarrow> unsub_links (abs_registry d) v = Some k \<longleftrightarrow>
     (\<exists>s \<in> set (subs d). sub_unsubscribe_token s = v \<and> account_of s = k)"
  by (auto simp: abs_registry_def find_key_eq [OF schema_distinct(3)])

lemma confirm_links_abs:
  "schema_ok d \<Longrightarrow> confirm_links (abs_registry d) v = Some k \<longleftrightarrow>
     (\<exists>t \<in> set (toks d). \<exists>s \<in> set (subs d). tok_token t = v \<and>
        sub_id s = tok_subscription_id t \<and> account_of s = k)"
  by (auto simp: abs_registry_def bind_eq_Some_conv find_key_eq [OF schema_distinct(2)]
      find_key_eq [OF schema_distinct(4)])

text \<open>The keys that have no entry, whatever the constraints.\<close>

lemma status_abs_None: "status (abs_registry d) k = None \<longleftrightarrow> k \<notin> account_of ` set (subs d)"
  by (auto simp: abs_registry_def find_None_iff)

lemma unsub_links_abs_None:
  "unsub_links (abs_registry d) v = None \<longleftrightarrow> v \<notin> sub_unsubscribe_token ` set (subs d)"
  by (auto simp: abs_registry_def find_None_iff)

lemma confirm_links_abs_None:
  "v \<notin> tok_token ` set (toks d) \<Longrightarrow> confirm_links (abs_registry d) v = None"
  by (auto simp: abs_registry_def bind_eq_None_conv find_None_iff)

lemmas abs_links = status_abs unsub_links_abs confirm_links_abs

text \<open>Two registries are equal when their maps have the same entries.\<close>

lemma map_eqI: "(\<And>k v. m k = Some v \<longleftrightarrow> n k = Some v) \<Longrightarrow> m = n"
  by (rule ext) (metis option.exhaust)

lemma registry_eqI:
  assumes "\<And>k c. status g k = Some c \<longleftrightarrow> status h k = Some c"
    and "\<And>v k. confirm_links g v = Some k \<longleftrightarrow> confirm_links h v = Some k"
    and "\<And>v k. unsub_links g v = Some k \<longleftrightarrow> unsub_links h v = Some k"
  shows "g = (h :: registry)"
  using map_eqI [of "status g" "status h"] map_eqI [of "confirm_links g" "confirm_links h"]
    map_eqI [of "unsub_links g" "unsub_links h"] assms
  by (cases g; cases h) simp


section \<open>The writes refine the registry\<close>


lemma confirms_schema: "confirms i d d' \<Longrightarrow> schema_ok d \<Longrightarrow> schema_ok d'"
  unfolding confirms_def by (erule updates_subs_schema) auto

lemma adds_pending_schema: "adds_pending s t d d' \<Longrightarrow> schema_ok d \<Longrightarrow> schema_ok d'"
  unfolding adds_pending_def using inserts_sub_schema inserts_tok_schema by blast

text \<open>The rows after a new pending subscription.\<close>

lemma adds_pending_rows:
  assumes "adds_pending (pending_sub req ut) (pending_tok ct) d d'"
  obtains s t where "subs d' = subs d @ [s]" and "toks d' = toks d @ [t]" and "watched d' = watched d"
    and "account_of s = (req_email req, req_repo req)" and "\<not> sub_confirmed s"
    and "sub_unsubscribe_token s = ut" and "sub_id s \<notin> sub_id ` set (subs d)"
    and "tok_token t = ct" and "tok_subscription_id t = sub_id s" and "ct \<notin> tok_token ` set (toks d)"
    and "(req_email req, req_repo req) \<notin> account_of ` set (subs d)"
    and "ut \<notin> sub_unsubscribe_token ` set (subs d)"
    and "sub_seq d \<le> sub_id s" and "sub_seq d' = Suc (sub_id s)"
    and "tok_seq d \<le> tok_id t" and "tok_seq d' = Suc (tok_id t)"
  using assms
  by (auto simp: adds_pending_def inserts_sub_def inserts_tok_def pending_sub_def pending_tok_def
      zero_subscription_def zero_token_def)

lemma abs_join:
  assumes ok: "schema_ok d" and add: "adds_pending (pending_sub req ut) (pending_tok ct) d d'"
  shows "abs_registry d' = reg_join (req_email req, req_repo req) ut ct (abs_registry d)"
proof -
  have ok': "schema_ok d'" using adds_pending_schema [OF add ok] .
  from add obtain s t where d': "subs d' = subs d @ [s]" "toks d' = toks d @ [t]"
    and s: "account_of s = (req_email req, req_repo req)" "\<not> sub_confirmed s" "sub_unsubscribe_token s = ut"
      "sub_id s \<notin> sub_id ` set (subs d)" 
    and t: "tok_token t = ct" "tok_subscription_id t = sub_id s" "ct \<notin> tok_token ` set (toks d)"
    and n0: "(req_email req, req_repo req) \<notin> account_of ` set (subs d)" and n: "ut \<notin> sub_unsubscribe_token ` set (subs d)"
    by (rule adds_pending_rows)
  from n0 have k: "x \<in> set (subs d) \<Longrightarrow> account_of x \<noteq> (req_email req, req_repo req)" for x
    by force
  have i: "x \<in> set (subs d) \<Longrightarrow> sub_id x \<noteq> sub_id s" for x using s(4) by (metis imageI)
  have tk: "x \<in> set (toks d) \<Longrightarrow> tok_token x \<noteq> ct" for x using t(3) by (metis imageI)
  have un: "x \<in> set (subs d) \<Longrightarrow> sub_unsubscribe_token x \<noteq> ut" for x using n by (metis imageI)
  have fk: "x \<in> set (toks d) \<Longrightarrow> sub_id s \<noteq> tok_subscription_id x" for x
    using ok s(4) by (metis schema_ok_def tokens_keys_def)
  show ?thesis
  proof (rule registry_eqI)
    show "status (abs_registry d') k = Some c \<longleftrightarrow>
        status (reg_join (req_email req, req_repo req) ut ct (abs_registry d)) k = Some c" for k c
      unfolding status_abs [OF ok'] using s(1-3) k by (auto simp: d' reg_join_def status_abs [OF ok])
    show "confirm_links (abs_registry d') v = Some k \<longleftrightarrow>
        confirm_links (reg_join (req_email req, req_repo req) ut ct (abs_registry d)) v = Some k" for v k
    proof (cases "v = ct")
      case True
      with s(1) t(1,2) i tk show ?thesis
        unfolding confirm_links_abs [OF ok'] by (auto simp: d' reg_join_def)
    next
      case False
      with t(1) have "tok_token t \<noteq> v" by simp
      with False fk show ?thesis
        unfolding confirm_links_abs [OF ok'] by (auto simp: d' reg_join_def confirm_links_abs [OF ok])
    qed
    show "unsub_links (abs_registry d') v = Some k \<longleftrightarrow>
        unsub_links (reg_join (req_email req, req_repo req) ut ct (abs_registry d)) v = Some k" for v k
      unfolding unsub_links_abs [OF ok'] using s(1,3) un
      by (auto simp: d' reg_join_def unsub_links_abs [OF ok])
  qed
qed

text \<open>The rows after a confirmation: one of them replaced by a confirmed copy.\<close>

lemma confirms_rows:
  assumes ok: "schema_ok d" and c: "confirms (sub_id s) d d'" and s: "s \<in> set (subs d)"
  obtains s2 where "account_of s2 = account_of s" and "sub_id s2 = sub_id s" and "sub_confirmed s2"
    and "sub_unsubscribe_token s2 = sub_unsubscribe_token s"
    and "set (subs d') = insert s2 (set (subs d) - {s})" and "toks d' = toks d" and "watched d' = watched d"
proof -
  from c obtain now where d': "d' = d\<lparr>subs := map (\<lambda>x. if sub_id x = sub_id s
      then x\<lparr>sub_confirmed := True, sub_updated_at := now\<rparr> else x) (subs d)\<rparr>"
    by (auto simp: confirms_def updates_subs_def)
  have u: "x \<in> set (subs d) \<Longrightarrow> sub_id x = sub_id s \<longleftrightarrow> x = s" for x
    using distinct_map_eqD [OF schema_distinct(2) [OF ok], of x s] s by blast
  have "set (subs d') = (\<lambda>x. if sub_id x = sub_id s
      then x\<lparr>sub_confirmed := True, sub_updated_at := now\<rparr> else x) ` set (subs d)"
    by (simp add: d')
  also have "\<dots> = insert (s\<lparr>sub_confirmed := True, sub_updated_at := now\<rparr>) (set (subs d) - {s})"
    by (rule image_update_one [where P = "\<lambda>x. sub_id x = sub_id s", OF s u])
  finally show thesis
    by (intro that [of "s\<lparr>sub_confirmed := True, sub_updated_at := now\<rparr>"]) (simp_all add: d')
qed

lemma abs_confirm:
  assumes ok: "schema_ok d" and c: "confirms (sub_id s) d d'" and s: "s \<in> set (subs d)"
  shows "abs_registry d' = reg_confirm (account_of s) (abs_registry d)"
proof -
  have ok': "schema_ok d'" using confirms_schema [OF c ok] .
  obtain s2 where s2: "account_of s2 = account_of s" "sub_id s2 = sub_id s" "sub_confirmed s2"
      "sub_unsubscribe_token s2 = sub_unsubscribe_token s"
    and rows: "set (subs d') = insert s2 (set (subs d) - {s})" and toks: "toks d' = toks d"
    by (rule confirms_rows [OF ok c s])
  have u: "x \<in> set (subs d) \<Longrightarrow> account_of x = account_of s \<Longrightarrow> x = s" for x
    using distinct_map_eqD [OF schema_distinct(1) [OF ok], of x s] s by blast
  show ?thesis
  proof (rule registry_eqI)
    show "status (abs_registry d') k = Some c \<longleftrightarrow>
        status (reg_confirm (account_of s) (abs_registry d)) k = Some c" for k c
      unfolding status_abs [OF ok'] rows
    proof (cases "k = account_of s")
      case True
      have "\<not> (\<exists>x \<in> set (subs d) - {s}. sub_email x = sub_email s \<and> sub_repo x = sub_repo s \<and> sub_confirmed x = c)"
        using u by auto
      with True s2(1,3) show "(\<exists>x \<in> insert s2 (set (subs d) - {s}). account_of x = k \<and> sub_confirmed x = c) =
          (status (reg_confirm (account_of s) (abs_registry d)) k = Some c)"
        by (auto simp: reg_confirm_def)
    next
      case False
      with s2(1) show "(\<exists>x \<in> insert s2 (set (subs d) - {s}). account_of x = k \<and> sub_confirmed x = c) =
          (status (reg_confirm (account_of s) (abs_registry d)) k = Some c)"
        by (simp add: reg_confirm_def status_abs [OF ok] bex_pick [OF s])
    qed
    show "confirm_links (abs_registry d') v = Some k \<longleftrightarrow>
        confirm_links (reg_confirm (account_of s) (abs_registry d)) v = Some k" for v k
      unfolding confirm_links_abs [OF ok'] rows toks
      using s2(1,2) by (simp add: reg_confirm_def confirm_links_abs [OF ok] bex_pick [OF s])
    show "unsub_links (abs_registry d') v = Some k \<longleftrightarrow>
        unsub_links (reg_confirm (account_of s) (abs_registry d)) v = Some k" for v k
      unfolding unsub_links_abs [OF ok'] rows
      using s2(1,4) by (simp add: reg_confirm_def unsub_links_abs [OF ok] bex_pick [OF s])
  qed
qed

lemma abs_spend:
  assumes ok: "schema_ok d" and t: "t \<in> set (toks d)"
  shows "abs_registry (delete_toks (\<lambda>x. tok_id x = tok_id t) d) = reg_spend (tok_token t) (abs_registry d)"
proof -
  let ?d' = "delete_toks (\<lambda>x. tok_id x = tok_id t) d"
  have ok': "schema_ok ?d'" using delete_toks_schema [OF ok] .
  have u: "x \<in> set (toks d) \<Longrightarrow> tok_id x = tok_id t \<longleftrightarrow> tok_token x = tok_token t" for x
    using distinct_map_eqD [OF schema_distinct(4) [OF ok], of x t] distinct_map_eqD [OF schema_distinct(5) [OF ok], of x t] t by auto
  show ?thesis
  proof (rule registry_eqI)
    show "status (abs_registry ?d') k = Some c \<longleftrightarrow>
        status (reg_spend (tok_token t) (abs_registry d)) k = Some c" for k c
      unfolding status_abs [OF ok'] by (auto simp: delete_toks_def reg_spend_def status_abs [OF ok])
    show "confirm_links (abs_registry ?d') v = Some k \<longleftrightarrow>
        confirm_links (reg_spend (tok_token t) (abs_registry d)) v = Some k" for v k
      unfolding confirm_links_abs [OF ok'] using u
      by (auto simp: delete_toks_def reg_spend_def confirm_links_abs [OF ok])
    show "unsub_links (abs_registry ?d') v = Some k \<longleftrightarrow>
        unsub_links (reg_spend (tok_token t) (abs_registry d)) v = Some k" for v k
      unfolding unsub_links_abs [OF ok'] by (auto simp: delete_toks_def reg_spend_def unsub_links_abs [OF ok])
  qed
qed

lemma abs_leave:
  assumes ok: "schema_ok d" and s: "s \<in> set (subs d)"
  shows "abs_registry (delete_subs (\<lambda>x. sub_id x = sub_id s) d) = reg_leave (account_of s) (abs_registry d)"
proof -
  let ?d' = "delete_subs (\<lambda>x. sub_id x = sub_id s) d"
  have ok': "schema_ok ?d'" using delete_subs_schema [OF ok] .
  have u: "x \<in> set (subs d) \<Longrightarrow> sub_id x = sub_id s \<longleftrightarrow> account_of x = account_of s" for x
    using distinct_map_eqD [OF schema_distinct(2) [OF ok], of x s] distinct_map_eqD [OF schema_distinct(1) [OF ok], of x s] s by auto
  have subs': "x \<in> set (subs ?d') \<longleftrightarrow> x \<in> set (subs d) \<and> account_of x \<noteq> account_of s" for x
    using u by (auto simp: delete_subs_def)
  have toks': "x \<in> set (toks ?d') \<longleftrightarrow> x \<in> set (toks d) \<and> tok_subscription_id x \<noteq> sub_id s" for x
    using s by (auto simp: delete_subs_def)
  have ut: "x \<in> set (toks d) \<Longrightarrow> y \<in> set (toks d) \<Longrightarrow> tok_token x = tok_token y \<Longrightarrow> x = y" for x y
    using distinct_map_eqD [OF schema_distinct(4) [OF ok]] by auto
  have us: "x \<in> set (subs d) \<Longrightarrow> y \<in> set (subs d) \<Longrightarrow> sub_unsubscribe_token x = sub_unsubscribe_token y \<Longrightarrow> x = y" for x y
    using distinct_map_eqD [OF schema_distinct(3) [OF ok]] by auto
  have c: "confirm_links (reg_leave (account_of s) g) v = Some k \<longleftrightarrow>
      confirm_links g v = Some k \<and> k \<noteq> account_of s" 
    "unsub_links (reg_leave (account_of s) g) v = Some k \<longleftrightarrow>
      unsub_links g v = Some k \<and> k \<noteq> account_of s" for g v k
    by (auto simp: reg_leave_def)
  show ?thesis
  proof (rule registry_eqI)
    show "status (abs_registry ?d') k = Some c \<longleftrightarrow>
        status (reg_leave (account_of s) (abs_registry d)) k = Some c" for k c
      unfolding status_abs [OF ok'] by (auto simp: Bex_def subs' reg_leave_def status_abs [OF ok])
    show "confirm_links (abs_registry ?d') v = Some k \<longleftrightarrow>
        confirm_links (reg_leave (account_of s) (abs_registry d)) v = Some k" for v k
      unfolding confirm_links_abs [OF ok'] c confirm_links_abs [OF ok] Bex_def subs' toks'
      using u by fastforce
    show "unsub_links (abs_registry ?d') v = Some k \<longleftrightarrow>
        unsub_links (reg_leave (account_of s) (abs_registry d)) v = Some k" for v k
      unfolding unsub_links_abs [OF ok'] c unsub_links_abs [OF ok] Bex_def subs' by auto
  qed
qed

section \<open>The operations refine the registry\<close>

text \<open>
  What a run of each operation may do to the registry, given the outcome it reports.
\<close>

definition joins :: "account \<Rightarrow> registry \<Rightarrow> registry \<Rightarrow> bool" where
  "joins k g g' \<longleftrightarrow> status g k = None \<and>
     (\<exists>ut ct. ut \<notin> dom (unsub_links g) \<and> ct \<notin> dom (confirm_links g) \<and> g' = reg_join k ut ct g)"

definition confirms_link :: "string \<Rightarrow> registry \<Rightarrow> registry \<Rightarrow> bool" where
  "confirms_link v g g' \<longleftrightarrow>
     (\<exists>k. confirm_links g v = Some k \<and> (g' = reg_confirm k g \<or> g' = reg_spend v (reg_confirm k g)))"

definition leaves_by_link :: "string \<Rightarrow> registry \<Rightarrow> registry \<Rightarrow> bool" where
  "leaves_by_link v g g' \<longleftrightarrow> (\<exists>k. unsub_links g v = Some k \<and> g' = reg_leave k g)"

lemma added_pending_refines:
  assumes ok: "schema_ok d" and add: "added_pending req d d'"
  shows "joins (req_email req, req_repo req) (abs_registry d) (abs_registry d')"
proof -
  from add obtain ut ct where a: "adds_pending (pending_sub req ut) (pending_tok ct) d d'"
    by (auto simp: added_pending_def)
  from a have n: "ct \<notin> tok_token ` set (toks d)" "ut \<notin> sub_unsubscribe_token ` set (subs d)"
      "(req_email req, req_repo req) \<notin> account_of ` set (subs d)"
    by (blast elim: adds_pending_rows)+
  have "status (abs_registry d) (req_email req, req_repo req) = None"
    using n(3) by (simp only: status_abs_None not_False_eq_True)
  moreover have "ut \<notin> dom (unsub_links (abs_registry d))"
    using n(2) by (simp only: domIff unsub_links_abs_None not_not not_False_eq_True)
  moreover have "ct \<notin> dom (confirm_links (abs_registry d))"
    using confirm_links_abs_None [OF n(1)] by (simp only: domIff not_not)
  ultimately show ?thesis
    using abs_join [OF ok a] by (auto simp: joins_def)
qed

lemma token_owner:
  assumes "schema_ok d" and "t \<in> set (toks d)"
  obtains s where "s \<in> set (subs d)" and "sub_id s = tok_subscription_id t"
    and "confirm_links (abs_registry d) (tok_token t) = Some (account_of s)"
proof -
  from assms obtain s where s: "s \<in> set (subs d)" "sub_id s = tok_subscription_id t"
    by (auto simp: schema_defs image_iff Ball_def)
  with assms have "confirm_links (abs_registry d) (tok_token t) = Some (account_of s)"
    by (auto simp: confirm_links_abs)
  with s show thesis by (rule that)
qed

lemma confirmed_by_refines:
  assumes ok: "schema_ok d" and c: "confirmed_by v d d'"
  shows "confirms_link v (abs_registry d) (abs_registry d')"
proof -
  from c obtain t where t: "t \<in> set (toks d)" "tok_token t = v" "confirms (tok_subscription_id t) d d'"
    by (auto simp: confirmed_by_def)
  obtain s where s: "s \<in> set (subs d)" "sub_id s = tok_subscription_id t"
    and l: "confirm_links (abs_registry d) (tok_token t) = Some (account_of s)"
    by (rule token_owner [OF ok t(1)])
  from t(3) s(2) have "confirms (sub_id s) d d'" by simp
  from abs_confirm [OF ok this s(1)] l t(2) show ?thesis
    by (simp add: confirms_link_def)
qed

lemma confirmed_and_spent_refines:
  assumes ok: "schema_ok d" and c: "confirmed_and_spent v d d'"
  shows "confirms_link v (abs_registry d) (abs_registry d')"
proof -
  from c obtain t d1 where t: "t \<in> set (toks d)" "tok_token t = v" "confirms (tok_subscription_id t) d d1"
    and d': "d' = delete_toks (\<lambda>x. tok_id x = tok_id t) d1"
    by (auto simp: confirmed_and_spent_def)
  obtain s where s: "s \<in> set (subs d)" "sub_id s = tok_subscription_id t"
    and l: "confirm_links (abs_registry d) (tok_token t) = Some (account_of s)"
    by (rule token_owner [OF ok t(1)])
  from t(3) s(2) have c1: "confirms (sub_id s) d d1" by simp
  from t(1,3) have "t \<in> set (toks d1)" by (auto simp: confirms_def updates_subs_def)
  from abs_spend [OF confirms_schema [OF c1 ok] this] abs_confirm [OF ok c1 s(1)] l t(2) d' show ?thesis
    by (simp add: confirms_link_def)
qed

lemma unsubscribed_by_refines:
  assumes ok: "schema_ok d" and u: "unsubscribed_by v d d'"
  shows "leaves_by_link v (abs_registry d) (abs_registry d')"
proof -
  from u obtain s where s: "s \<in> set (subs d)" "sub_unsubscribe_token s = v"
    and d': "d' = delete_subs (\<lambda>x. sub_id x = sub_id s) d"
    by (auto simp: unsubscribed_by_def)
  from s have "unsub_links (abs_registry d) v = Some (account_of s)"
    using unsub_links_abs [OF ok] by blast
  with abs_leave [OF ok s(1)] d' show ?thesis
    by (simp add: leaves_by_link_def)
qed

text \<open>The specifications: an outcome, and the registry before and after it.\<close>

definition registry_subscribe :: "subscribe_request \<Rightarrow> (registry, error option) contract" where
  "registry_subscribe req g r g' \<longleftrightarrow>
     (let k = (req_email req, req_repo req) in
      case r of
        Return None \<Rightarrow> repo_format_matches (req_repo req) \<and> joins k g g'
      | Return (Some e) \<Rightarrow>
          (g' = g \<or> foreign e \<and> joins k g g') \<and>
          (\<not> repo_format_matches (req_repo req) \<longrightarrow> e = Sentinel ErrInvalidRepoFormat) \<and>
          (repo_format_matches (req_repo req) \<and> status g k \<noteq> None \<longrightarrow>
             e = Sentinel ErrAlreadySubscribed \<or> foreign e) \<and>
          (errors_is e ErrAlreadySubscribed \<longrightarrow> status g k \<noteq> None)
      | Panic p \<Rightarrow> g' = g \<or> joins k g g')"

definition registry_confirm :: "string \<Rightarrow> (registry, error option) contract" where
  "registry_confirm v g r g' \<longleftrightarrow>
     (case r of
        Return None \<Rightarrow> confirms_link v g g'
      | Return (Some e) \<Rightarrow>
          (g' = g \<or> foreign e \<and> confirms_link v g g') \<and>
          (errors_is e ErrTokenNotFound \<longrightarrow> v = [] \<or> confirm_links g v = None)
      | Panic p \<Rightarrow> g' = g \<or> confirms_link v g g')"

definition registry_unsubscribe :: "string \<Rightarrow> (registry, error option) contract" where
  "registry_unsubscribe v g r g' \<longleftrightarrow>
     (case r of
        Return None \<Rightarrow> leaves_by_link v g g'
      | Return (Some e) \<Rightarrow>
          (g' = g \<or> foreign e \<and> leaves_by_link v g g') \<and>
          (errors_is e ErrTokenNotFound \<longrightarrow> v = [] \<or> unsub_links g v = None)
      | Panic p \<Rightarrow> g' = g \<or> leaves_by_link v g g')"

lemma subscribed_abs: "subscribed email repo d \<longleftrightarrow> status (abs_registry d) (email, repo) \<noteq> None"
  unfolding status_abs_None by (auto simp: subscribed_def image_iff)

lemma subscribe_refines:
  assumes ok: "schema_ok d" and c: "subscribe_contract req d r d'"
  shows "registry_subscribe req (abs_registry d) r (abs_registry d')"
proof -
  let ?k = "(req_email req, req_repo req)"
  have add: "added_pending req d d' \<Longrightarrow> joins ?k (abs_registry d) (abs_registry d')"
    by (rule added_pending_refines [OF ok])
  show ?thesis
  proof (cases r)
    case (Return x)
    with c add show ?thesis
      unfolding subscribe_contract_def registry_subscribe_def Let_def subscribed_abs
      by (cases x; simp only: option.case outcome.case; blast)
  next
    case (Panic p)
    with c add show ?thesis
      unfolding subscribe_contract_def registry_subscribe_def Let_def by auto
  qed
qed

lemma confirm_refines:
  assumes "schema_ok d" and "confirm_contract v d r d'"
  shows "registry_confirm v (abs_registry d) r (abs_registry d')"
  using assms
  by (cases r)
     (auto simp: confirm_contract_def registry_confirm_def confirmed_by_refines
       confirmed_and_spent_refines confirm_links_abs_None split: option.splits)

lemma unsubscribe_refines:
  assumes "schema_ok d" and "unsubscribe_contract v d r d'"
  shows "registry_unsubscribe v (abs_registry d) r (abs_registry d')"
  using assms
  by (cases r)
     (auto simp: unsubscribe_contract_def registry_unsubscribe_def unsubscribed_by_refines
       unsub_links_abs_None split: option.splits)

text \<open>And they keep the constraints of the schema.\<close>

lemma added_pending_schema: "added_pending req d d' \<Longrightarrow> schema_ok d \<Longrightarrow> schema_ok d'"
  by (auto simp: added_pending_def intro: adds_pending_schema)

lemma confirmed_by_schema: "confirmed_by v d d' \<Longrightarrow> schema_ok d \<Longrightarrow> schema_ok d'"
  by (auto simp: confirmed_by_def intro: confirms_schema)

lemma confirmed_and_spent_schema: "confirmed_and_spent v d d' \<Longrightarrow> schema_ok d \<Longrightarrow> schema_ok d'"
  by (auto simp: confirmed_and_spent_def intro: confirms_schema delete_toks_schema)

lemma unsubscribed_by_schema: "unsubscribed_by v d d' \<Longrightarrow> schema_ok d \<Longrightarrow> schema_ok d'"
  by (auto simp: unsubscribed_by_def intro: delete_subs_schema)

lemma subscribe_schema:
  assumes "subscribe_contract req d r d'" and "schema_ok d"
  shows "schema_ok d'"
proof -
  from assms(1) have "d' = d \<or> added_pending req d d'"
    unfolding subscribe_contract_def
    by (cases r rule: outcome.exhaust; cases "case r of Return x \<Rightarrow> x | Panic p \<Rightarrow> None";
        simp only: option.case outcome.case; blast)
  with assms(2) show ?thesis by (blast intro: added_pending_schema)
qed

lemma confirm_schema: "confirm_contract v d r d' \<Longrightarrow> schema_ok d \<Longrightarrow> schema_ok d'"
  unfolding confirm_contract_def
  by (cases r) (auto intro: confirmed_by_schema confirmed_and_spent_schema split: option.splits)

lemma unsubscribe_schema: "unsubscribe_contract v d r d' \<Longrightarrow> schema_ok d \<Longrightarrow> schema_ok d'"
  unfolding unsubscribe_contract_def
  by (cases r) (auto intro: unsubscribed_by_schema split: option.splits)

end
