(* ===== verification/Json.thy ===== *)
theory Json imports GoErrors GoStrings begin

text \<open>
  Go's \<open>encoding/json\<close> as far as the program uses it: a string value as \<open>json.Marshal\<close>
  writes it, the reader behind \<open>json.Unmarshal\<close> and \<open>Decoder.Decode\<close>, and the filling of
  a struct whose fields are strings. Strings are bytes; the package treats them as UTF-8.
\<close>

section \<open>UTF-8\<close>

definition continuation :: "char \<Rightarrow> bool" where
  "continuation c \<longleftrightarrow> 0x80 \<le> char_code c \<and> char_code c \<le> 0xBF"

text \<open>How long a character with this first byte is, and which second bytes may follow it.\<close>

definition lead_len :: "char \<Rightarrow> nat" where
  "lead_len c =
     (let a = char_code c in
      if a < 0x80 then 1
      else if 0xC2 \<le> a \<and> a \<le> 0xDF then 2
      else if 0xE0 \<le> a \<and> a \<le> 0xEF then 3
      else if 0xF0 \<le> a \<and> a \<le> 0xF4 then 4
      else 0)"

definition second_ok :: "char \<Rightarrow> char \<Rightarrow> bool" where
  "second_ok c d \<longleftrightarrow>
     (let a = char_code c; b = char_code d in
      (a = 0xE0 \<longrightarrow> 0xA0 \<le> b) \<and> (a = 0xED \<longrightarrow> b \<le> 0x9F) \<and>
      (a = 0xF0 \<longrightarrow> 0x90 \<le> b) \<and> (a = 0xF4 \<longrightarrow> b \<le> 0x8F))"

text \<open>
  The length in bytes of the character at the start of \<open>s\<close> (\<open>utf8.DecodeRune\<close>), or 0 when
  the bytes there are not the beginning of a well-formed character.
\<close>

definition rune_len :: "string \<Rightarrow> nat" where
  "rune_len s =
     (case s of
        [] \<Rightarrow> 0
      | c # t \<Rightarrow>
          (let n = lead_len c in
           if n - 1 \<le> length t \<and> list_all continuation (take (n - 1) t) \<and> (n > 1 \<longrightarrow> second_ok c (hd t))
           then n else 0))"

lemma rune_len_le: "rune_len s \<le> length s"
  by (auto simp: rune_len_def lead_len_def Let_def split: list.splits)

lemma rune_len_append:
  assumes "rune_len s = n" and "n \<noteq> 0"
  shows "rune_len (take n s @ r) = n"
proof (cases s)
  case (Cons c t)
  with assms have n: "lead_len c = n" "n - 1 \<le> length t" "list_all continuation (take (n - 1) t)"
      "n > 1 \<longrightarrow> second_ok c (hd t)"
    by (auto simp: rune_len_def Let_def split: if_splits)
  then have "n > 1 \<Longrightarrow> hd (take (n - 1) t @ r) = hd t"
    by (cases t) (auto simp: take_Cons')
  with n assms(2) Cons show ?thesis
    by (auto simp: rune_len_def take_Cons' Let_def)
qed (use assms in \<open>simp add: rune_len_def\<close>)

lemma rune_len_ascii: "char_code c < 128 \<Longrightarrow> rune_len (c # s) = Suc 0"
  by (simp add: rune_len_def lead_len_def)

lemma rune_len_1: "rune_len (c # s) = Suc 0 \<longleftrightarrow> char_code c < 128"
  by (auto simp: rune_len_def lead_len_def Let_def split: if_splits)

text \<open>The bytes of the code point \<open>n\<close> (\<open>utf8.AppendRune\<close>).\<close>

definition utf8 :: "nat \<Rightarrow> string" where
  "utf8 n =
     (if n < 0x80 then [char_of n]
      else if n < 0x800 then [char_of (0xC0 + n div 64), char_of (0x80 + n mod 64)]
      else if n < 0x10000 then
        [char_of (0xE0 + n div 4096), char_of (0x80 + n div 64 mod 64), char_of (0x80 + n mod 64)]
      else [char_of (0xF0 + n div 262144), char_of (0x80 + n div 4096 mod 64),
        char_of (0x80 + n div 64 mod 64), char_of (0x80 + n mod 64)])"

definition replacement :: string where
  "replacement = utf8 0xFFFD"

text \<open>Each byte that is not part of a character becomes U+FFFD.\<close>

function to_valid_utf8 :: "string \<Rightarrow> string" where
  "to_valid_utf8 [] = []"
| "to_valid_utf8 (a # s) =
     (let n = rune_len (a # s) in
      if n = 0 then replacement @ to_valid_utf8 s
      else take n (a # s) @ to_valid_utf8 (drop n (a # s)))"
  by pat_completeness auto
termination by (relation "measure length") auto

definition valid_utf8 :: "string \<Rightarrow> bool" where
  "valid_utf8 s \<longleftrightarrow> to_valid_utf8 s = s"

section \<open>Strings\<close>

definition dquote :: char where "dquote = CHR 0x22"
definition backslash :: char where "backslash = CHR 0x5C"

text \<open>A byte below 0x80 as \<open>Marshal\<close> writes it; HTML characters are escaped.\<close>

definition quote_ascii :: "char \<Rightarrow> string" where
  "quote_ascii c =
     (let a = char_code c in
      if a = 0x5C \<or> a = 0x22 then [backslash, c]
      else if a = 8 then [backslash, CHR ''b'']
      else if a = 12 then [backslash, CHR ''f'']
      else if a = 10 then [backslash, CHR ''n'']
      else if a = 13 then [backslash, CHR ''r'']
      else if a = 9 then [backslash, CHR ''t'']
      else if a < 0x20 \<or> a = 0x3C \<or> a = 0x3E \<or> a = 0x26
      then [backslash] @ ''u00'' @ [hex_digit (a div 16), hex_digit (a mod 16)]
      else [c])"

function quote_body :: "string \<Rightarrow> string" where
  "quote_body [] = []"
| "quote_body (a # s) =
     (let n = rune_len (a # s) in
      if n = 0 then [backslash] @ ''ufffd'' @ quote_body s
      else if n = 1 then quote_ascii a @ quote_body s
      else if take n (a # s) = utf8 0x2028 then [backslash] @ ''u2028'' @ quote_body (drop n (a # s))
      else if take n (a # s) = utf8 0x2029 then [backslash] @ ''u2029'' @ quote_body (drop n (a # s))
      else take n (a # s) @ quote_body (drop n (a # s)))"
  by pat_completeness auto
termination by (relation "measure length") auto

definition json_string :: "string \<Rightarrow> string" where
  "json_string s = dquote # quote_body s @ [dquote]"

text \<open>Four hexadecimal digits.\<close>

definition hex_value :: "char \<Rightarrow> nat option" where
  "hex_value c =
     (let a = char_code c in
      if 48 \<le> a \<and> a \<le> 57 then Some (a - 48)
      else if 97 \<le> a \<and> a \<le> 102 then Some (a - 87)
      else if 65 \<le> a \<and> a \<le> 70 then Some (a - 55)
      else None)"

fun hex4 :: "string \<Rightarrow> nat option" where
  "hex4 (a # b # c # d # s) =
     (case (hex_value a, hex_value b, hex_value c, hex_value d) of
        (Some w, Some x, Some y, Some z) \<Rightarrow> Some (4096 * w + 256 * x + 16 * y + z)
      | _ \<Rightarrow> None)"
| "hex4 s = None"

definition escape_char :: "char \<Rightarrow> char option" where
  "escape_char c =
     (if c = dquote \<or> c = backslash \<or> c = CHR ''/'' then Some c
      else if c = CHR ''b'' then Some (CHR 8)
      else if c = CHR ''f'' then Some (CHR 12)
      else if c = CHR ''n'' then Some (CHR 10)
      else if c = CHR ''r'' then Some (CHR 13)
      else if c = CHR ''t'' then Some (CHR 9)
      else None)"

text \<open>
  A \<open>\u\<close> escape: its code point and what follows the four digits. A surrogate pair is one
  code point; a lone surrogate is U+FFFD.
\<close>

definition unicode_escape :: "string \<Rightarrow> (nat \<times> string) option" where
  "unicode_escape s =
     (case hex4 s of
        None \<Rightarrow> None
      | Some n \<Rightarrow>
          (let s' = drop 4 s in
           if 0xD800 \<le> n \<and> n < 0xE000 then
             (case (if take 2 s' = [backslash, CHR ''u''] then hex4 (drop 2 s') else None) of
                Some m \<Rightarrow>
                  if n < 0xDC00 \<and> 0xDC00 \<le> m \<and> m < 0xE000
                  then Some (0x10000 + (n - 0xD800) * 1024 + (m - 0xDC00), drop 6 s')
                  else Some (0xFFFD, s')
              | None \<Rightarrow> Some (0xFFFD, s'))
           else Some (n, s')))"

lemma unicode_escape_shorter: "unicode_escape s = Some (n, r) \<Longrightarrow> length r < length s"
  by (cases s rule: hex4.cases) (auto simp: unicode_escape_def Let_def split: option.splits if_splits)

text \<open>A string value, from after its opening quote: its bytes and what follows it.\<close>

function unquote :: "string \<Rightarrow> (string \<times> string) option" where
  "unquote [] = None"
| "unquote (a # s) =
     (if a = dquote then Some ([], s)
      else if a = backslash then
        (case s of
           [] \<Rightarrow> None
         | c # t \<Rightarrow>
             if c = CHR ''u'' then
               (case unicode_escape t of
                  None \<Rightarrow> None
                | Some (n, r) \<Rightarrow> map_option (apfst ((@) (utf8 n))) (unquote r))
             else
               (case escape_char c of
                  None \<Rightarrow> None
                | Some e \<Rightarrow> map_option (apfst (Cons e)) (unquote t)))
      else if char_code a < 0x20 then None
      else
        (let n = rune_len (a # s) in
         if n = 0 then map_option (apfst ((@) replacement)) (unquote s)
         else map_option (apfst ((@) (take n (a # s)))) (unquote (drop n (a # s)))))"
  by pat_completeness auto
termination by (relation "measure length") (auto dest: unicode_escape_shorter)


section \<open>A string is read back\<close>


lemma char_of_char_code [simp]: "char_of (char_code c) = c"
  by (simp add: char_code_def)

lemma char_code_eqD: "char_code c = n \<Longrightarrow> char_code d = n \<Longrightarrow> c = d"
  by (metis char_of_char_code)

lemma unquote_plain:
  assumes "c \<noteq> dquote" "c \<noteq> backslash" "\<not> char_code c < 0x20" and "rune_len (c # s) = n" "n \<noteq> 0"
  shows "unquote (take n (c # s) @ r) = map_option (apfst ((@) (take n (c # s)))) (unquote r)"
proof -
  obtain t where t: "take n (c # s) = c # t" using assms(5) by (cases n) auto
  have "rune_len (c # t @ r) = n" using rune_len_append [OF assms(4,5), of r] t by simp
  moreover have "length (c # t) = n" using rune_len_le [of "c # s"] assms(4) t
    by (metis length_take min.absorb2)
  ultimately have "take n (c # t @ r) = c # t" "drop n (c # t @ r) = r"
    by (metis append_Cons append_eq_conv_conj)+
  with assms \<open>rune_len (c # t @ r) = n\<close> show ?thesis by (simp add: t Let_def)
qed

lemma hex_value_digit: "n < 16 \<Longrightarrow> hex_value (hex_digit n) = Some n"
  by (auto simp: hex_value_def hex_digit_def char_code_def Let_def)

lemma hex_value_0: "hex_value (CHR ''0'') = Some 0"
  by (simp add: hex_value_def char_code_def)

lemma append_singleton: "(@) [c] = Cons c"
  by (rule ext) simp

lemma unicode_escape_00: "a < 128 \<Longrightarrow> unicode_escape (''00'' @ [hex_digit (a div 16), hex_digit (a mod 16)] @ r) = Some (a, r)"
  by (simp add: unicode_escape_def hex_value_digit hex_value_0)

lemma unquote_quote_ascii:
  assumes c: "char_code c < 128"
  shows "unquote (quote_ascii c @ r) = map_option (apfst (Cons c)) (unquote r)"
proof -
  let ?a = "char_code c"
  have d: "char_code dquote = 0x22" "char_code backslash = 0x5C" by (simp_all add: dquote_def backslash_def char_code_def)
  consider (q) "?a = 0x5C \<or> ?a = 0x22" | (n) "?a \<in> {8, 9, 10, 12, 13}"
    | (u) "?a \<noteq> 0x5C" "?a \<noteq> 0x22" "?a \<notin> {8, 9, 10, 12, 13}" "?a < 0x20 \<or> ?a = 0x3C \<or> ?a = 0x3E \<or> ?a = 0x26"
    | (p) "?a \<noteq> 0x5C" "?a \<noteq> 0x22" "\<not> ?a < 0x20" "?a \<noteq> 0x3C" "?a \<noteq> 0x3E" "?a \<noteq> 0x26" by linarith
  then show ?thesis
  proof cases
    case q
    then have "c = dquote \<or> c = backslash"
      using d by (metis char_code_eqD)
    then show ?thesis using q
      by (auto simp: quote_ascii_def d escape_char_def dquote_def backslash_def)
  next
    case n
    then have "c \<in> {CHR 8, CHR 9, CHR 10, CHR 12, CHR 13}"
      by (auto simp: char_code_def intro: char_code_eqD [unfolded char_code_def])
    then show ?thesis
      by (auto simp: quote_ascii_def char_code_def escape_char_def dquote_def backslash_def)
  next
    case u
    then have "quote_ascii c = backslash # CHR ''u'' # ''00'' @ [hex_digit (?a div 16), hex_digit (?a mod 16)]"
      by (auto simp: quote_ascii_def Let_def)
    moreover have "utf8 ?a = [c]" using c by (simp add: utf8_def)
    ultimately show ?thesis using unicode_escape_00 [OF c, of r]
      by (simp add: dquote_def backslash_def append_singleton)
  next
    case p
    then have "quote_ascii c = [c]" by (auto simp: quote_ascii_def Let_def)
    moreover have "c \<noteq> dquote" "c \<noteq> backslash" using p d by auto
    ultimately show ?thesis
      using unquote_plain [of c "[]" "Suc 0" r] p c by (simp add: rune_len_ascii append_singleton)
  qed
qed

text \<open>What \<open>Marshal\<close> writes for a string is read back, with malformed bytes replaced.\<close>

lemma unicode_escape_fffd: "unicode_escape (''fffd'' @ r) = Some (0xFFFD, r)"
  and unicode_escape_2028: "unicode_escape (''2028'' @ r) = Some (0x2028, r)"
  and unicode_escape_2029: "unicode_escape (''2029'' @ r) = Some (0x2029, r)"
  by (simp_all add: unicode_escape_def hex_value_def char_code_def)

lemma unquote_u: "unquote (backslash # CHR ''u'' # t) =
    (case unicode_escape t of None \<Rightarrow> None | Some (n, r) \<Rightarrow> map_option (apfst ((@) (utf8 n))) (unquote r))"
  by (simp add: dquote_def backslash_def)

lemma not_ascii_plain: "\<not> char_code c < 128 \<Longrightarrow> c \<noteq> dquote \<and> c \<noteq> backslash \<and> \<not> char_code c < 0x20"
  by (auto simp: dquote_def backslash_def char_code_def)

lemma map_apfst_append: "map_option (apfst ((@) x)) (Some (y, r)) = Some (x @ y, r)"
  by simp

lemma unquote_quote_body: "unquote (quote_body s @ dquote # r) = Some (to_valid_utf8 s, r)"
proof (induction s rule: quote_body.induct)
  case (2 a s)
  let ?n = "rune_len (a # s)"
  consider (bad) "?n = 0" | (ascii) "?n = 1" | (multi) "?n \<noteq> 0" "?n \<noteq> 1" by blast
  then show ?case
  proof cases
    case bad
    with 2(1) [OF refl bad] show ?thesis
      using unquote_u [of "''fffd'' @ quote_body s @ dquote # r"]
        unicode_escape_fffd [of "quote_body s @ dquote # r"]
      by (simp add: replacement_def)
  next
    case ascii
    then have "char_code a < 128" by (simp add: rune_len_1)
    with 2(2) [OF refl _ ascii] ascii show ?thesis
      by (simp add: unquote_quote_ascii)
  next
    case multi
    then have "\<not> char_code a < 128" using rune_len_ascii [of a s] by auto
    note unquote_plain [of a s ?n, OF _ _ _ refl multi(1)]
    with not_ascii_plain [OF \<open>\<not> char_code a < 128\<close>]
    have plain: "unquote (take ?n (a # s) @ t) = map_option (apfst ((@) (take ?n (a # s)))) (unquote t)" for t
      by blast
    note ih = 2(3-5) [OF refl multi]
    have v: "to_valid_utf8 (a # s) = take ?n (a # s) @ to_valid_utf8 (drop ?n (a # s))"
      using multi by (simp add: Let_def)
    consider (l) "take ?n (a # s) = utf8 0x2028"
      | (p) "take ?n (a # s) = utf8 0x2029" "take ?n (a # s) \<noteq> utf8 0x2028"
      | (o) "take ?n (a # s) \<noteq> utf8 0x2028" "take ?n (a # s) \<noteq> utf8 0x2029" by blast
    then show ?thesis
    proof cases
      case l
      then have "quote_body (a # s) = backslash # CHR ''u'' # ''2028'' @ quote_body (drop ?n (a # s))"
        using multi by (simp add: Let_def)
      then show ?thesis
        using unquote_u [of "''2028'' @ quote_body (drop ?n (a # s)) @ dquote # r"]
          unicode_escape_2028 [of "quote_body (drop ?n (a # s)) @ dquote # r"] ih(1) [OF l]
        unfolding v l by (simp del: drop.simps unquote.simps(2))
    next
      case p
      then have "quote_body (a # s) = backslash # CHR ''u'' # ''2029'' @ quote_body (drop ?n (a # s))"
        using multi by (simp add: Let_def)
      then show ?thesis
        using unquote_u [of "''2029'' @ quote_body (drop ?n (a # s)) @ dquote # r"]
          unicode_escape_2029 [of "quote_body (drop ?n (a # s)) @ dquote # r"] ih(2) [OF p(2,1)]
        unfolding v p(1) by (simp del: unquote.simps(2))
    next
      case o
      then have "quote_body (a # s) = take ?n (a # s) @ quote_body (drop ?n (a # s))"
        using multi by (simp add: Let_def)
      then show ?thesis
        using plain [of "quote_body (drop ?n (a # s)) @ dquote # r"] ih(3) [OF o]
        unfolding v by (simp del: unquote.simps(2) to_valid_utf8.simps)
    qed
  qed
qed simp

section \<open>Values\<close>

datatype json =
    JNull
  | JBool bool
  | JNumber string
  | JString string
  | JArray "json list"
  | JObject "(string \<times> json) list"

definition json_space :: "char \<Rightarrow> bool" where
  "json_space c \<longleftrightarrow> char_code c \<in> {0x20, 0x09, 0x0A, 0x0D}"

definition skip_space :: "string \<Rightarrow> string" where
  "skip_space s = dropWhile json_space s"

definition expect :: "char \<Rightarrow> string \<Rightarrow> string option" where
  "expect c s = (case skip_space s of [] \<Rightarrow> None | x # r \<Rightarrow> if x = c then Some r else None)"

definition strip_prefix :: "string \<Rightarrow> string \<Rightarrow> string option" where
  "strip_prefix p s = (if prefix p s then Some (drop (length p) s) else None)"

text \<open>One or more digits.\<close>

definition digits1 :: "string \<Rightarrow> (string \<times> string) option" where
  "digits1 s = (if takeWhile is_digit s = [] then None else Some (takeWhile is_digit s, dropWhile is_digit s))"

text \<open>A number, as its text: sign, integer part without leading zeros, fraction, exponent.\<close>

definition scan_number :: "string \<Rightarrow> (string \<times> string) option" where
  "scan_number s =
     (let (sign, s1) = (if take 1 s = ''-'' then (''-'', tl s) else ([], s)) in
      case (if take 1 s1 = ''0'' then Some (''0'', tl s1) else digits1 s1) of
        None \<Rightarrow> None
      | Some (ip, s2) \<Rightarrow>
      (case (if take 1 s2 = ''.'' then map_option (apfst (Cons (CHR ''.''))) (digits1 (tl s2))
             else Some ([], s2)) of
        None \<Rightarrow> None
      | Some (frac, s3) \<Rightarrow>
      (case (if s3 \<noteq> [] \<and> (hd s3 = CHR ''e'' \<or> hd s3 = CHR ''E'') then
               (let n = (if take 1 (tl s3) = ''-'' \<or> take 1 (tl s3) = ''+'' then 2 else 1) in
                map_option (apfst ((@) (take n s3))) (digits1 (drop n s3)))
             else Some ([], s3)) of
        None \<Rightarrow> None
      | Some (ex, s4) \<Rightarrow> Some (sign @ ip @ frac @ ex, s4))))"

text \<open>
  The value at the start of \<open>s\<close> (after white space) and what follows it. The first argument
  is fuel: every call reads at least one byte, so one more than the number of bytes is
  enough. The second is how much deeper arrays and objects may nest (10000 in Go).
\<close>

fun parse_value :: "nat \<Rightarrow> nat \<Rightarrow> string \<Rightarrow> (json \<times> string) option"
  and parse_elements :: "nat \<Rightarrow> nat \<Rightarrow> string \<Rightarrow> (json list \<times> string) option"
  and parse_members :: "nat \<Rightarrow> nat \<Rightarrow> string \<Rightarrow> ((string \<times> json) list \<times> string) option"
where
  "parse_value 0 depth s = None"
| "parse_value (Suc fuel) depth s =
     (case skip_space s of
        [] \<Rightarrow> None
      | c # r \<Rightarrow>
          if c = dquote then map_option (apfst JString) (unquote r)
          else if c = CHR ''{'' then
            (if depth = 0 then None else
             case expect (CHR ''}'') r of
               Some r' \<Rightarrow> Some (JObject [], r')
             | None \<Rightarrow> map_option (apfst JObject) (parse_members fuel (depth - 1) r))
          else if c = CHR ''['' then
            (if depth = 0 then None else
             case expect (CHR '']'') r of
               Some r' \<Rightarrow> Some (JArray [], r')
             | None \<Rightarrow> map_option (apfst JArray) (parse_elements fuel (depth - 1) r))
          else if c = CHR ''t'' then map_option (Pair (JBool True)) (strip_prefix ''rue'' r)
          else if c = CHR ''f'' then map_option (Pair (JBool False)) (strip_prefix ''alse'' r)
          else if c = CHR ''n'' then map_option (Pair JNull) (strip_prefix ''ull'' r)
          else map_option (apfst JNumber) (scan_number (c # r)))"
| "parse_elements 0 depth s = None"
| "parse_elements (Suc fuel) depth s =
     (case parse_value fuel depth s of
        None \<Rightarrow> None
      | Some (v, s1) \<Rightarrow>
          (case expect (CHR '','') s1 of
             Some s2 \<Rightarrow> map_option (apfst (Cons v)) (parse_elements fuel depth s2)
           | None \<Rightarrow> map_option (Pair [v]) (expect (CHR '']'') s1)))"
| "parse_members 0 depth s = None"
| "parse_members (Suc fuel) depth s =
     (case expect dquote s of
        None \<Rightarrow> None
      | Some s1 \<Rightarrow>
      (case unquote s1 of
        None \<Rightarrow> None
      | Some (key, s2) \<Rightarrow>
      (case expect (CHR '':'') s2 of
        None \<Rightarrow> None
      | Some s3 \<Rightarrow>
      (case parse_value fuel depth s3 of
        None \<Rightarrow> None
      | Some (v, s4) \<Rightarrow>
          (case expect (CHR '','') s4 of
             Some s5 \<Rightarrow> map_option (apfst (Cons (key, v))) (parse_members fuel depth s5)
           | None \<Rightarrow> map_option (Pair [(key, v)]) (expect (CHR ''}'') s4))))))"

definition max_nesting :: nat where "max_nesting = 10000"

text \<open>\<open>Decoder.Decode\<close> reads the first value of a stream, \<open>Unmarshal\<close> wants nothing after it.\<close>

definition first_value :: "string \<Rightarrow> json option" where
  "first_value s = map_option fst (parse_value (Suc (length s)) max_nesting s)"

definition whole_value :: "string \<Rightarrow> json option" where
  "whole_value s =
     (case parse_value (Suc (length s)) max_nesting s of
        Some (v, r) \<Rightarrow> if skip_space r = [] then Some v else None
      | None \<Rightarrow> None)"

section \<open>Structs with string fields\<close>

text \<open>
  Keys match field names up to case; besides ASCII letters, U+017F folds to s and U+212A to k.
\<close>

fun fold_name :: "string \<Rightarrow> string" where
  "fold_name [] = []"
| "fold_name (c # s) =
     (if prefix (utf8 0x17F) (c # s) then CHR ''s'' # fold_name (tl s)
      else if prefix (utf8 0x212A) (c # s) then CHR ''k'' # fold_name (tl (tl s))
      else ascii_lower c # fold_name s)"

definition field_of :: "string list \<Rightarrow> string \<Rightarrow> string option" where
  "field_of names key =
     (if key \<in> set names then Some key
      else List.find (\<lambda>n. fold_name n = fold_name key) names)"

definition type_error :: error where
  "type_error = Extern ''json: cannot unmarshal value into Go struct field of type string''"

text \<open>
  The members are stored in order, so a later one wins; null leaves a field alone; a value of
  another type is reported at the end, after the rest has been stored.
\<close>

fun store_members ::
  "string list \<Rightarrow> (string \<times> json) list \<Rightarrow> (string \<Rightarrow> string) \<times> error option \<Rightarrow>
   (string \<Rightarrow> string) \<times> error option" where
  "store_members names [] (f, err) = (f, err)"
| "store_members names ((key, v) # ms) (f, err) =
     (case field_of names key of
        None \<Rightarrow> store_members names ms (f, err)
      | Some n \<Rightarrow>
          (case v of
             JString x \<Rightarrow> store_members names ms (f(n := x), err)
           | JNull \<Rightarrow> store_members names ms (f, err)
           | _ \<Rightarrow> store_members names ms (f, Some (case err of None \<Rightarrow> type_error | Some e \<Rightarrow> e))))"

definition fill_struct :: "string list \<Rightarrow> json \<Rightarrow> error + (string \<Rightarrow> string)" where
  "fill_struct names v =
     (case v of
        JObject ms \<Rightarrow>
          (case store_members names ms (\<lambda>_. [], None) of
             (f, None) \<Rightarrow> Inr f
           | (f, Some e) \<Rightarrow> Inl e)
      | JNull \<Rightarrow> Inr (\<lambda>_. [])
      | _ \<Rightarrow> Inl type_error)"

definition syntax_error :: error where
  "syntax_error = Extern ''json: invalid input''"

definition decode_struct :: "string list \<Rightarrow> string \<Rightarrow> error + (string \<Rightarrow> string)" where
  "decode_struct names s =
     (case first_value s of None \<Rightarrow> Inl syntax_error | Some v \<Rightarrow> fill_struct names v)"

definition unmarshal_struct :: "string list \<Rightarrow> string \<Rightarrow> error + (string \<Rightarrow> string)" where
  "unmarshal_struct names s =
     (case whole_value s of None \<Rightarrow> Inl syntax_error | Some v \<Rightarrow> fill_struct names v)"

text \<open>An object whose members are all strings, as \<open>Marshal\<close> writes a struct.\<close>

fun json_members :: "(string \<times> string) list \<Rightarrow> string" where
  "json_members [] = []"
| "json_members [(k, x)] = json_string k @ '':'' @ json_string x"
| "json_members ((k, x) # ms) = json_string k @ '':'' @ json_string x @ '','' @ json_members ms"

definition marshal_struct :: "(string \<times> string) list \<Rightarrow> string" where
  "marshal_struct ms = ''{'' @ json_members ms @ ''}''"


section \<open>A struct is read back\<close>

lemma skip_space_Cons: "\<not> json_space c \<Longrightarrow> skip_space (c # s) = c # s"
  by (simp add: skip_space_def)

lemma not_space [simp]: "\<not> json_space dquote" "\<not> json_space (CHR ''{'')" "\<not> json_space (CHR ''}'')"
    "\<not> json_space (CHR '','')" "\<not> json_space (CHR '':'')"
  by (simp_all add: json_space_def dquote_def char_code_def)

lemma expect_Cons: "\<not> json_space c \<Longrightarrow> expect d (c # s) = (if c = d then Some s else None)"
  by (simp add: expect_def skip_space_Cons)

lemma dquote_not [simp]: "dquote \<noteq> CHR ''}''" "CHR ''{'' \<noteq> dquote" "dquote \<noteq> CHR ''{''"
  by (simp_all add: dquote_def)

lemma parse_json_string:
  "parse_value (Suc fuel) depth (json_string x @ r) = Some (JString (to_valid_utf8 x), r)"
  by (simp add: json_string_def skip_space_Cons unquote_quote_body)

definition read_members :: "(string \<times> string) list \<Rightarrow> (string \<times> json) list" where
  "read_members ms = map (\<lambda>(k, x). (to_valid_utf8 k, JString (to_valid_utf8 x))) ms"

lemma parse_json_members:
  "ms \<noteq> [] \<Longrightarrow> length ms < fuel \<Longrightarrow>
   parse_members fuel depth (json_members ms @ CHR ''}'' # r) = Some (read_members ms, r)"
proof (induction ms arbitrary: fuel rule: json_members.induct)
  case (2 k x)
  then obtain f where f: "fuel = Suc (Suc f)" by (auto dest!: less_imp_Suc_add)
  show ?case
    unfolding f by (simp add: json_string_def [of k] expect_Cons unquote_quote_body
        parse_json_string [unfolded append_Cons] read_members_def del: parse_value.simps)
next
  case (3 k x m ms)
  then obtain f where f: "fuel = Suc (Suc f)" "length (m # ms) < Suc f"
    by (auto dest!: less_imp_Suc_add)
  show ?case
    unfolding f(1) using 3(1) [OF _ f(2)]
    by (simp add: json_string_def [of k] expect_Cons unquote_quote_body
        parse_json_string read_members_def del: parse_value.simps)
qed simp

lemma json_members_length: "length ms \<le> length (json_members ms)"
  by (induction ms rule: json_members.induct) (auto simp: json_string_def)

lemma whole_marshal_struct:
  assumes "ms \<noteq> []"
  shows "whole_value (marshal_struct ms) = Some (JObject (read_members ms))"
proof -
  obtain k x ms' where "ms = (k, x) # ms'" using assms by (cases ms) auto
  then have "\<exists>t. json_members ms = dquote # t" by (cases ms') (auto simp: json_string_def)
  then have e: "expect (CHR ''}'') (json_members ms @ t) = None" for t
    by (auto simp: expect_Cons)
  have "parse_members (Suc (Suc (length (json_members ms)))) d (json_members ms @ CHR ''}'' # []) =
      Some (read_members ms, [])" for d
    using json_members_length [of ms] by (intro parse_json_members [OF assms]) simp
  then show ?thesis
    by (simp add: whole_value_def marshal_struct_def skip_space_Cons e max_nesting_def
        del: parse_members.simps) (simp add: skip_space_def)
qed

lemma store_read_members:
  assumes "set (map fst ms) \<subseteq> set names" and "distinct (map fst ms)"
    and "\<forall>k \<in> set names. to_valid_utf8 k = k"
  shows "store_members names (read_members ms) (f, None) =
    (\<lambda>n. case map_of ms n of Some x \<Rightarrow> to_valid_utf8 x | None \<Rightarrow> f n, None)"
  using assms
proof (induction ms arbitrary: f)
  case (Cons m ms)
  obtain k x where m: "m = (k, x)" by fastforce
  from Cons(2-4) m have "field_of names (to_valid_utf8 k) = Some k" "map_of ms k = None"
    by (auto simp: field_of_def map_of_eq_None_iff)
  with Cons m show ?case
    by (auto simp: read_members_def fun_eq_iff split: option.splits)
qed (simp add: read_members_def)

lemma unmarshal_marshal:
  assumes "ms \<noteq> []" "map fst ms = names" "distinct names" "\<forall>k \<in> set names. to_valid_utf8 k = k"
  shows "unmarshal_struct names (marshal_struct ms) =
    Inr (\<lambda>n. case map_of ms n of Some x \<Rightarrow> to_valid_utf8 x | None \<Rightarrow> [])"
  using assms by (simp add: unmarshal_struct_def whole_marshal_struct fill_struct_def store_read_members)

end
