(* ===== verification/Github.thy ===== *)
theory Github imports Json begin

text \<open>
  \<open>internal/app/github/client.go\<close>: the GitHub API client. The HTTP transport (\<open>net/http\<close>,
  the network and GitHub behind it) is a parameter; requests, headers and the reading of
  responses are the program's.
\<close>

section \<open>HTTP\<close>

text \<open>\<open>textproto.CanonicalMIMEHeaderKey\<close> for keys made of letters, digits and hyphens.\<close>

definition ascii_upper :: "char \<Rightarrow> char" where
  "ascii_upper c = (if 97 \<le> char_code c \<and> char_code c \<le> 122 then char_of (char_code c - 32) else c)"

fun canonical_key :: "bool \<Rightarrow> string \<Rightarrow> string" where
  "canonical_key up [] = []"
| "canonical_key up (c # s) =
     (if up then ascii_upper c else ascii_lower c) # canonical_key (c = CHR ''-'') s"

type_synonym header = "string \<rightharpoonup> string"

definition header_set :: "string \<Rightarrow> string \<Rightarrow> header \<Rightarrow> header" where
  "header_set k v h = h(canonical_key True k \<mapsto> v)"

definition header_get :: "header \<Rightarrow> string \<Rightarrow> string" where
  "header_get h k = (case h (canonical_key True k) of None \<Rightarrow> [] | Some v \<Rightarrow> v)"

record http_request =
  rq_method :: string
  rq_url :: string
  rq_header :: header

text \<open>The body of a response is a stream: some bytes, and then its end or a read error.\<close>

record http_response =
  rs_status :: int
  rs_header :: header
  rs_body :: string
  rs_body_error :: "error option"

text \<open>
  \<open>tr_parse_url\<close> is whether \<open>http.NewRequestWithContext\<close> rejects a URL, \<open>tr_do\<close> a client's
  \<open>Do\<close> with the client's time limit as its first argument.
\<close>

record 'w transport =
  tr_parse_url :: "string \<Rightarrow> error option"
  tr_do :: "int \<Rightarrow> http_request \<Rightarrow> ('w, error + http_response) io"

definition new_request :: "'w transport \<Rightarrow> string \<Rightarrow> string \<Rightarrow> error + http_request" where
  "new_request tp method url =
     (case tr_parse_url tp url of
        Some err \<Rightarrow> Inl err
      | None \<Rightarrow> Inr \<lparr>rq_method = method, rq_url = url, rq_header = Map.empty\<rparr>)"

section \<open>The client\<close>

record github_config =
  gc_token :: string
  gc_request_timeout :: int

record client =
  cl_timeout :: int
  cl_token :: string
  cl_base_url :: string

definition default_base_url :: string where
  "default_base_url = ''https://api.github.com''"

type_synonym option_fn = "client \<Rightarrow> client"

definition with_base_url :: "string \<Rightarrow> option_fn" where
  "with_base_url url = (\<lambda>c. c\<lparr>cl_base_url := url\<rparr>)"

definition new_client :: "github_config \<Rightarrow> option_fn list \<Rightarrow> client" where
  "new_client cfg opts =
     fold (\<lambda>opt c. opt c) opts
       \<lparr>cl_timeout = gc_request_timeout cfg, cl_token = gc_token cfg, cl_base_url = default_base_url\<rparr>"

definition set_headers :: "client \<Rightarrow> http_request \<Rightarrow> http_request" where
  "set_headers g req =
     (let h = header_set ''Accept'' ''application/vnd.github.v3+json''
            (header_set ''User-Agent'' ''repo-release-notifier'' (rq_header req))
      in req\<lparr>rq_header :=
           (if cl_token g \<noteq> [] then header_set ''Authorization'' (''Bearer '' @ cl_token g) h else h)\<rparr>)"

definition is_rate_limited :: "http_response \<Rightarrow> bool" where
  "is_rate_limited resp \<longleftrightarrow>
     (if rs_status resp = 429 then True
      else if header_get (rs_header resp) ''X-RateLimit-Remaining'' = ''0'' then True
      else header_get (rs_header resp) ''Retry-After'' \<noteq> [])"

text \<open>
  The first JSON value of the body, into the struct. A stream that breaks off gives its own
  error; which error a body that is malformed before the break gives is not modelled further.
\<close>

definition decode_json :: "string list \<Rightarrow> http_response \<Rightarrow> error + (string \<Rightarrow> string)" where
  "decode_json names resp =
     (case (case first_value (rs_body resp) of
              Some v \<Rightarrow> fill_struct names v
            | None \<Rightarrow> Inl (case rs_body_error resp of None \<Rightarrow> syntax_error | Some e \<Rightarrow> e)) of
        Inl err \<Rightarrow> Inl (wrapf ''json decode'' err)
      | Inr f \<Rightarrow> Inr f)"

definition status_error :: "int \<Rightarrow> error" where
  "status_error st = Extern (''unexpected GitHub API status: '' @ decimal_int st)"

definition forbidden_error :: "int \<Rightarrow> error" where
  "forbidden_error st = Extern (''GitHub API forbidden (not rate-limit): '' @ decimal_int st)"

text \<open>The two switches on the status.\<close>

definition validate_response :: "http_response \<Rightarrow> error option" where
  "validate_response resp =
     (let st = rs_status resp in
      if st = 200 then None
      else if st = 404 then Some (Sentinel ErrRepoNotFound)
      else if st = 403 \<or> st = 429 then
        (if is_rate_limited resp then Some (Sentinel ErrRateLimited) else Some (forbidden_error st))
      else Some (status_error st))"

definition latest_response :: "http_response \<Rightarrow> error + string" where
  "latest_response resp =
     (let st = rs_status resp in
      if st = 200 then
        (case decode_json [''tag_name''] resp of
           Inl err \<Rightarrow> Inl (wrapf ''failed to decode release response'' err)
         | Inr release \<Rightarrow> Inr (release ''tag_name''))
      else if st = 404 then Inr []
      else if st = 403 \<or> st = 429 then
        (if is_rate_limited resp then Inl (Sentinel ErrRateLimited) else Inl (forbidden_error st))
      else Inl (status_error st))"

definition validate_url :: "client \<Rightarrow> string \<Rightarrow> string \<Rightarrow> string" where
  "validate_url g owner repo = cl_base_url g @ ''/repos/'' @ owner @ ''/'' @ repo"

definition latest_url :: "client \<Rightarrow> string \<Rightarrow> string \<Rightarrow> string" where
  "latest_url g owner repo = cl_base_url g @ ''/repos/'' @ owner @ ''/'' @ repo @ ''/releases/latest''"

definition client_validate_repo ::
  "'w transport \<Rightarrow> client \<Rightarrow> string \<Rightarrow> string \<Rightarrow> ('w, error option) io" where
  "client_validate_repo tp g owner repo =
     (case new_request tp ''GET'' (validate_url g owner repo) of
        Inl err \<Rightarrow> ret (Some (wrapf ''failed to create request'' err))
      | Inr req \<Rightarrow>
          call (tr_do tp (cl_timeout g) (set_headers g req)) (\<lambda>r. case r of
            Inl err \<Rightarrow> ret (Some (wrapf ''failed to reach GitHub API'' err))
          | Inr resp \<Rightarrow> ret (validate_response resp)))"

definition client_get_latest_release ::
  "'w transport \<Rightarrow> client \<Rightarrow> string \<Rightarrow> string \<Rightarrow> ('w, error + string) io" where
  "client_get_latest_release tp g owner repo =
     (case new_request tp ''GET'' (latest_url g owner repo) of
        Inl err \<Rightarrow> ret (Inl (wrapf ''failed to create request'' err))
      | Inr req \<Rightarrow>
          call (tr_do tp (cl_timeout g) (set_headers g req)) (\<lambda>r. case r of
            Inl err \<Rightarrow> ret (Inl (wrapf ''failed to reach GitHub API'' err))
          | Inr resp \<Rightarrow> ret (latest_response resp)))"


section \<open>How answers are classified\<close>

definition rate_limit_signal :: "http_response \<Rightarrow> bool" where
  "rate_limit_signal resp \<longleftrightarrow>
     rs_status resp = 429 \<or>
     rs_status resp = 403 \<and>
       (header_get (rs_header resp) ''X-RateLimit-Remaining'' = ''0'' \<or>
        header_get (rs_header resp) ''Retry-After'' \<noteq> [])"


lemma validate_response_errors:
  "validate_response resp = Some e \<Longrightarrow> e \<in> {Sentinel ErrRepoNotFound, Sentinel ErrRateLimited} \<or> foreign e"
  by (auto simp: validate_response_def Let_def status_error_def forbidden_error_def split: if_splits)

lemma fill_struct_foreign: "fill_struct names v = Inl e \<Longrightarrow> e = type_error"
proof -
  have "\<forall>e. snd (store_members names ms (f, err)) = Some e \<longrightarrow> e = type_error \<or> err = Some e" for ms f err
  proof (induction ms arbitrary: f err)
    case (Cons m ms)
    then show ?case by (cases m) (auto split: option.split json.split)
  qed simp
  from this [of _ "\<lambda>_. []" None] show "fill_struct names v = Inl e \<Longrightarrow> e = type_error"
    by (auto simp: fill_struct_def split: json.splits prod.splits option.splits) (metis snd_conv)
qed

lemma decode_json_foreign:
  "decode_json names resp = Inl e \<Longrightarrow> (\<And>x. rs_body_error resp = Some x \<Longrightarrow> foreign x) \<Longrightarrow> foreign e"
  by (auto simp: decode_json_def syntax_error_def type_error_def dest!: fill_struct_foreign
      split: option.splits sum.splits)

lemma latest_response_errors:
  assumes "latest_response resp = Inl e" and "\<And>x. rs_body_error resp = Some x \<Longrightarrow> foreign x"
  shows "e = Sentinel ErrRateLimited \<and> rate_limit_signal resp \<or> foreign e \<and> \<not> rate_limit_signal resp"
  using assms
  by (auto simp: latest_response_def Let_def status_error_def forbidden_error_def rate_limit_signal_def
      is_rate_limited_def dest: decode_json_foreign split: if_splits sum.splits)

section \<open>What the program relies on\<close>

text \<open>
  A view \<open>v\<close> of the world that requests leave alone, and an account \<open>answered\<close> of the
  exchanges so far. The transport's errors are not the program's sentinels.
\<close>

locale github_api =
  fixes tp :: "'w transport" and answered :: "'w \<Rightarrow> (http_request \<times> http_response) set"
  assumes do: "meets answered (tr_do tp t req)
      (\<lambda>d r d'. d \<subseteq> d' \<and>
        (\<forall>resp. r = Return (Inr resp) \<longrightarrow> d' = insert (req, resp) d \<and>
          (\<forall>e. rs_body_error resp = Some e \<longrightarrow> foreign e)) \<and>
        (\<forall>e. r = Return (Inl e) \<longrightarrow> foreign e))"
    and parse_url: "tr_parse_url tp url = Some e \<Longrightarrow> foreign e"

definition github_request :: "client \<Rightarrow> string \<Rightarrow> http_request" where
  "github_request g url = set_headers g \<lparr>rq_method = ''GET'', rq_url = url, rq_header = Map.empty\<rparr>"

context github_api
begin

lemma request:
  "new_request tp ''GET'' url = Inr req \<Longrightarrow> set_headers g req = github_request g url"
  "new_request tp ''GET'' url = Inl e \<Longrightarrow> foreign e"
  by (auto simp: new_request_def github_request_def dest: parse_url split: option.splits)

text \<open>A verdict is the classification of an answer GitHub gave to this very request.\<close>

lemma validate_meets: "meets answered (client_validate_repo tp g owner repo)
    (\<lambda>d r d'. d \<subseteq> d' \<and>
      (\<forall>x. r = Return x \<longrightarrow>
        (\<exists>resp. d' = insert (github_request g (validate_url g owner repo), resp) d \<and>
           x = validate_response resp) \<or>
        (\<exists>e. x = Some e \<and> foreign e)))"
proof (cases "new_request tp ''GET'' (validate_url g owner repo)")
  case (Inl e)
  with request(2) [OF Inl] show ?thesis
    by (simp add: client_validate_repo_def meets_def)
next
  case (Inr req)
  show ?thesis
    unfolding client_validate_repo_def Inr sum.case request(1) [OF Inr]
    by (rule meets_run_ok) (auto intro!: run_ok_call [OF do] split: sum.splits)
qed

lemma latest_meets: "meets answered (client_get_latest_release tp g owner repo)
    (\<lambda>d r d'. d \<subseteq> d' \<and>
      (\<forall>x. r = Return x \<longrightarrow>
        (\<exists>resp. d' = insert (github_request g (latest_url g owner repo), resp) d \<and>
           x = latest_response resp \<and> (\<forall>e. rs_body_error resp = Some e \<longrightarrow> foreign e)) \<or>
        (\<exists>e. x = Inl e \<and> foreign e)))"
proof (cases "new_request tp ''GET'' (latest_url g owner repo)")
  case (Inl e)
  with request(2) [OF Inl] show ?thesis
    by (simp add: client_get_latest_release_def meets_def)
next
  case (Inr req)
  show ?thesis
    unfolding client_get_latest_release_def Inr sum.case request(1) [OF Inr]
    by (rule meets_run_ok) (auto intro!: run_ok_call [OF do] split: sum.splits; blast)
qed

end

text \<open>What the requests keep, whatever they are answered.\<close>

lemma keeps_client_validate [frame_rules]:
  "(\<And>t req. keeps v (tr_do tp t req)) \<Longrightarrow> keeps v (client_validate_repo tp g owner repo)"
  by (auto simp: client_validate_repo_def intro!: frame_rules split: sum.splits)

lemma keeps_client_latest [frame_rules]:
  "(\<And>t req. keeps v (tr_do tp t req)) \<Longrightarrow> keeps v (client_get_latest_release tp g owner repo)"
  by (auto simp: client_get_latest_release_def intro!: frame_rules split: sum.splits)



end
