(* ===== verification/Cache.thy ===== *)
theory Cache imports Github begin

text \<open>
  \<open>internal/app/cache/redis.go\<close> (the store) and
  \<open>internal/app/github/cached_client.go\<close> (the GitHub client behind it). Redis itself is a
  parameter.
\<close>

section \<open>The Redis store\<close>

text \<open>The commands of the Redis driver that \<open>redis.go\<close> uses: \<open>GET\<close> and \<open>SET key value EX ttl\<close>.\<close>

record 'w redis =
  rd_get :: "string \<Rightarrow> ('w, error + string) io"
  rd_set :: "string \<Rightarrow> string \<Rightarrow> int \<Rightarrow> ('w, error option) io"

text \<open>The interface \<open>Store\<close> of the cached client, and \<open>cache.Redis\<close> as one.\<close>

record 'w cache_store =
  cs_get :: "string \<Rightarrow> ('w, error + string) io"
  cs_set_ex :: "string \<Rightarrow> string \<Rightarrow> int \<Rightarrow> ('w, error option) io"

definition redis_get :: "'w redis \<Rightarrow> string \<Rightarrow> ('w, error + string) io" where
  "redis_get r key =
     call (rd_get r key) (\<lambda>x. case x of
       Inl err \<Rightarrow> if errors_is err RedisNil then ret (Inl (Sentinel ErrMiss)) else ret (Inl err)
     | Inr v \<Rightarrow> ret (Inr v))"

definition redis_set_ex :: "'w redis \<Rightarrow> string \<Rightarrow> string \<Rightarrow> int \<Rightarrow> ('w, error option) io" where
  "redis_set_ex r key value ttl = rd_set r key value ttl"

definition redis_store :: "'w redis \<Rightarrow> 'w cache_store" where
  "redis_store r = \<lparr>cs_get = redis_get r, cs_set_ex = redis_set_ex r\<rparr>"

section \<open>The cached client\<close>

definition cache_ttl :: int where
  "cache_ttl = 10 * 60 * 1000000000"

definition cached_ok :: string where "cached_ok = ''ok''"
definition cached_not_found :: string where "cached_not_found = ''404''"
definition cached_empty_tag :: string where "cached_empty_tag = ''__none__''"

record 'w cached_client =
  cc_inner :: client
  cc_store :: "'w cache_store"

definition cached_set :: "'w cached_client \<Rightarrow> string \<Rightarrow> string \<Rightarrow> ('w, unit) io" where
  "cached_set c key value =
     call (cs_set_ex (cc_store c) key value cache_ttl) (\<lambda>_. \<comment> \<open>a failure is logged only\<close> ret ())"

definition validate_key :: "string \<Rightarrow> string \<Rightarrow> string" where
  "validate_key owner repo = ''gh:validate:'' @ owner @ ''/'' @ repo"

definition latest_key :: "string \<Rightarrow> string \<Rightarrow> string" where
  "latest_key owner repo = ''gh:latest:'' @ owner @ ''/'' @ repo"

text \<open>\<open>ValidateRepo\<close> after a lookup that gave no verdict.\<close>

definition validate_and_cache ::
  "'w transport \<Rightarrow> 'w cached_client \<Rightarrow> string \<Rightarrow> string \<Rightarrow> ('w, error option) io" where
  "validate_and_cache tp c owner repo =
     (let key = validate_key owner repo in
      call (client_validate_repo tp (cc_inner c) owner repo) (\<lambda>err.
        case err of
          None \<Rightarrow> call (cached_set c key cached_ok) (\<lambda>_. ret err)
        | Some e \<Rightarrow>
            if errors_is e ErrRepoNotFound then call (cached_set c key cached_not_found) (\<lambda>_. ret err)
            else ret err))"

definition cached_validate_repo ::
  "'w transport \<Rightarrow> 'w cached_client \<Rightarrow> string \<Rightarrow> string \<Rightarrow> ('w, error option) io" where
  "cached_validate_repo tp c owner repo =
     call (cs_get (cc_store c) (validate_key owner repo)) (\<lambda>r. case r of
       Inr v \<Rightarrow>
         if v = cached_ok then ret None
         else if v = cached_not_found then ret (Some (Sentinel ErrRepoNotFound))
         else validate_and_cache tp c owner repo
     | Inl err \<Rightarrow> \<comment> \<open>other errors than a miss are logged too\<close> validate_and_cache tp c owner repo)"

definition latest_and_cache ::
  "'w transport \<Rightarrow> 'w cached_client \<Rightarrow> string \<Rightarrow> string \<Rightarrow> ('w, error + string) io" where
  "latest_and_cache tp c owner repo =
     (let key = latest_key owner repo in
      call (client_get_latest_release tp (cc_inner c) owner repo) (\<lambda>r. case r of
        Inl err \<Rightarrow> ret (Inl err)
      | Inr tag \<Rightarrow>
          call (if tag = [] then cached_set c key cached_empty_tag else cached_set c key tag)
            (\<lambda>_. ret (Inr tag))))"

definition cached_get_latest_release ::
  "'w transport \<Rightarrow> 'w cached_client \<Rightarrow> string \<Rightarrow> string \<Rightarrow> ('w, error + string) io" where
  "cached_get_latest_release tp c owner repo =
     call (cs_get (cc_store c) (latest_key owner repo)) (\<lambda>r. case r of
       Inr v \<Rightarrow> if v = cached_empty_tag then ret (Inr []) else ret (Inr v)
     | Inl err \<Rightarrow> \<comment> \<open>other errors than a miss are logged too\<close> latest_and_cache tp c owner repo)"

section \<open>What the program relies on\<close>

text \<open>
  A view of a store: the entries that have not expired. A call may find that entries have
  expired or been evicted meanwhile (\<open>\<subseteq>\<^sub>m\<close>), never that one changed by itself. A failed
  \<open>SetEx\<close> may or may not have been applied.
\<close>

locale redis_server =
  fixes rd :: "'w redis" and entries :: "'w \<Rightarrow> (string \<rightharpoonup> string)"
  assumes get: "meets entries (rd_get rd key)
      (\<lambda>d r d'. d' \<subseteq>\<^sub>m d \<and> (\<forall>v. r = Return (Inr v) \<longrightarrow> d key = Some v))"
    and set: "meets entries (rd_set rd key value ttl) (\<lambda>d r d'. d' \<subseteq>\<^sub>m d(key \<mapsto> value) \<or> d' \<subseteq>\<^sub>m d)"

text \<open>What the cached client needs of a store.\<close>

locale entry_store =
  fixes cs :: "'w cache_store" and entries :: "'w \<Rightarrow> (string \<rightharpoonup> string)"
  assumes get: "meets entries (cs_get cs key)
      (\<lambda>d r d'. d' \<subseteq>\<^sub>m d \<and> (\<forall>v. r = Return (Inr v) \<longrightarrow> d key = Some v))"
    and set_ex: "meets entries (cs_set_ex cs key value ttl) (\<lambda>d r d'. d' \<subseteq>\<^sub>m d(key \<mapsto> value) \<or> d' \<subseteq>\<^sub>m d)"

text \<open>The program's store keeps what Redis promises.\<close>

context redis_server
begin

lemma redis_get_meets: "meets entries (cs_get (redis_store rd) key)
    (\<lambda>d r d'. d' \<subseteq>\<^sub>m d \<and> (\<forall>v. r = Return (Inr v) \<longrightarrow> d key = Some v))"
  unfolding redis_store_def redis_get_def cache_store.simps
  by (rule meets_run_ok) (auto intro!: run_ok_call [OF get] split: sum.splits)

lemma redis_set_meets: "meets entries (cs_set_ex (redis_store rd) key value ttl)
    (\<lambda>d r d'. d' \<subseteq>\<^sub>m d(key \<mapsto> value) \<or> d' \<subseteq>\<^sub>m d)"
  unfolding redis_store_def redis_set_ex_def cache_store.simps by (rule set)

end

sublocale redis_server \<subseteq> store: entry_store "redis_store rd" entries
  by unfold_locales (rule redis_get_meets, rule redis_set_meets)

section \<open>The cache tells what GitHub told\<close>

text \<open>
  A cached entry is sound when GitHub gave the answer it stands for, to the request the
  client makes on a miss.
\<close>

definition encode_tag :: "string \<Rightarrow> string" where
  "encode_tag tag = (if tag = [] then cached_empty_tag else tag)"

definition decode_tag :: "string \<Rightarrow> string" where
  "decode_tag v = (if v = cached_empty_tag then [] else v)"

lemma decode_encode_tag: "tag \<noteq> cached_empty_tag \<Longrightarrow> decode_tag (encode_tag tag) = tag"
  by (auto simp: decode_tag_def encode_tag_def)

definition latest_entry_sound ::
  "client \<Rightarrow> (http_request \<times> http_response) set \<Rightarrow> string \<Rightarrow> string \<Rightarrow> string \<Rightarrow> bool" where
  "latest_entry_sound g answers owner repo v \<longleftrightarrow>
     (\<exists>resp tag. (github_request g (latest_url g owner repo), resp) \<in> answers \<and>
        latest_response resp = Inr tag \<and> v = encode_tag tag)"

definition validate_entry_sound ::
  "client \<Rightarrow> (http_request \<times> http_response) set \<Rightarrow> string \<Rightarrow> string \<Rightarrow> string \<Rightarrow> bool" where
  "validate_entry_sound g answers owner repo v \<longleftrightarrow>
     (v = cached_ok \<longrightarrow> (\<exists>resp. (github_request g (validate_url g owner repo), resp) \<in> answers \<and>
        validate_response resp = None)) \<and>
     (v = cached_not_found \<longrightarrow> (\<exists>resp. (github_request g (validate_url g owner repo), resp) \<in> answers \<and>
        validate_response resp = Some (Sentinel ErrRepoNotFound)))"

type_synonym cache_view = "(string \<rightharpoonup> string) \<times> (http_request \<times> http_response) set"

definition cache_sound :: "client \<Rightarrow> cache_view \<Rightarrow> bool" where
  "cache_sound g ca \<longleftrightarrow>
     (\<forall>owner repo v. (fst ca (latest_key owner repo) = Some v \<longrightarrow> latest_entry_sound g (snd ca) owner repo v) \<and>
        (fst ca (validate_key owner repo) = Some v \<longrightarrow> validate_entry_sound g (snd ca) owner repo v))"

lemma keys_eq_iff [simp]:
  "latest_key a b = latest_key c d \<longleftrightarrow> a @ ''/'' @ b = c @ ''/'' @ d"
  "validate_key a b = validate_key c d \<longleftrightarrow> a @ ''/'' @ b = c @ ''/'' @ d"
  "latest_key a b \<noteq> validate_key c d" "validate_key a b \<noteq> latest_key c d"
  by (auto simp: latest_key_def validate_key_def)

text \<open>Owner and name enter the key and the request in the same way.\<close>

lemma url_cong:
  assumes "a @ CHR ''/'' # b = c @ CHR ''/'' # d"
  shows "latest_url g a b = latest_url g c d" and "validate_url g a b = validate_url g c d"
  using assms by (simp_all add: latest_url_def validate_url_def)

lemma entry_sound_cong:
  assumes "a @ CHR ''/'' # b = c @ CHR ''/'' # d"
  shows "latest_entry_sound g A a b v = latest_entry_sound g A c d v"
    and "validate_entry_sound g A a b v = validate_entry_sound g A c d v"
  by (simp_all only: latest_entry_sound_def validate_entry_sound_def url_cong [OF assms])

lemma entry_sound_mono:
  assumes "A \<subseteq> B"
  shows "latest_entry_sound g A a b v \<Longrightarrow> latest_entry_sound g B a b v"
    and "validate_entry_sound g A a b v \<Longrightarrow> validate_entry_sound g B a b v"
  using assms unfolding latest_entry_sound_def validate_entry_sound_def by blast+

lemma cache_soundI:
  assumes "\<And>owner repo v. fst ca (latest_key owner repo) = Some v \<Longrightarrow> latest_entry_sound g (snd ca) owner repo v"
    and "\<And>owner repo v. fst ca (validate_key owner repo) = Some v \<Longrightarrow> validate_entry_sound g (snd ca) owner repo v"
  shows "cache_sound g ca"
  using assms by (simp add: cache_sound_def)

lemma cache_soundD:
  assumes "cache_sound g ca"
  shows "fst ca (latest_key owner repo) = Some v \<Longrightarrow> latest_entry_sound g (snd ca) owner repo v"
    and "fst ca (validate_key owner repo) = Some v \<Longrightarrow> validate_entry_sound g (snd ca) owner repo v"
  using assms by (simp_all add: cache_sound_def)

lemma cache_sound_mono:
  assumes "cache_sound g d" and "fst d' \<subseteq>\<^sub>m fst d" and "snd d \<subseteq> snd d'"
  shows "cache_sound g d'"
  by (rule cache_soundI)
     (blast intro: entry_sound_mono [OF assms(3)] cache_soundD [OF assms(1)] map_leD [OF assms(2)])+

lemma cache_sound_latest:
  assumes s: "cache_sound g d" and v: "latest_entry_sound g (snd d) owner repo v"
    and d': "fst d' \<subseteq>\<^sub>m (fst d)(latest_key owner repo \<mapsto> v)" "snd d' = snd d"
  shows "cache_sound g d'"
proof (rule cache_sound_mono)
  show "cache_sound g ((fst d)(latest_key owner repo \<mapsto> v), snd d)"
  proof (rule cache_soundI)
    show "latest_entry_sound g (snd ((fst d)(latest_key owner repo \<mapsto> v), snd d)) a b x"
      if "fst ((fst d)(latest_key owner repo \<mapsto> v), snd d) (latest_key a b) = Some x" for a b x
      using that cache_soundD(1) [OF s] v
      by (auto split: if_splits dest: entry_sound_cong(1) [of a b owner repo g "snd d" x])
  qed (use cache_soundD(2) [OF s] in simp)
qed (use d' in simp_all)

lemma cache_sound_validate:
  assumes s: "cache_sound g d" and v: "validate_entry_sound g (snd d) owner repo v"
    and d': "fst d' \<subseteq>\<^sub>m (fst d)(validate_key owner repo \<mapsto> v)" "snd d' = snd d"
  shows "cache_sound g d'"
proof (rule cache_sound_mono)
  show "cache_sound g ((fst d)(validate_key owner repo \<mapsto> v), snd d)"
  proof (rule cache_soundI)
    show "validate_entry_sound g (snd ((fst d)(validate_key owner repo \<mapsto> v), snd d)) a b x"
      if "fst ((fst d)(validate_key owner repo \<mapsto> v), snd d) (validate_key a b) = Some x" for a b x
      using that cache_soundD(2) [OF s] v
      by (auto split: if_splits dest: entry_sound_cong(2) [of a b owner repo g "snd d" x])
  qed (use cache_soundD(1) [OF s] in simp)
qed (use d' in simp_all)

text \<open>
  The contracts of the two methods: GitHub is asked at most once; without asking, the answer
  is the cached one; an error leaves nothing new in the cache.
\<close>

definition asked_once :: "http_request \<Rightarrow> cache_view \<Rightarrow> cache_view \<Rightarrow> bool" where
  "asked_once req d d' \<longleftrightarrow> snd d \<subseteq> snd d' \<and> snd d' \<subseteq> snd d \<union> {x. \<exists>resp. x = (req, resp)}"

definition latest_contract :: "client \<Rightarrow> string \<Rightarrow> string \<Rightarrow> (cache_view, error + string) contract" where
  "latest_contract g owner repo d r d' \<longleftrightarrow> snd d \<subseteq> snd d' \<and> cache_sound g d' \<and>
     (case r of
        Return (Inr tag) \<Rightarrow>
          snd d' = snd d \<and> (\<exists>v. fst d (latest_key owner repo) = Some v \<and> tag = decode_tag v) \<or>
          (\<exists>resp. snd d' = insert (github_request g (latest_url g owner repo), resp) (snd d) \<and>
             latest_response resp = Inr tag)
      | Return (Inl e) \<Rightarrow> fst d' \<subseteq>\<^sub>m fst d \<and>
          ((\<exists>resp. snd d' = insert (github_request g (latest_url g owner repo), resp) (snd d) \<and>
              latest_response resp = Inl e) \<or> foreign e)
      | Panic p \<Rightarrow> True)"

definition validate_contract :: "client \<Rightarrow> string \<Rightarrow> string \<Rightarrow> (cache_view, error option) contract" where
  "validate_contract g owner repo d r d' \<longleftrightarrow> snd d \<subseteq> snd d' \<and> cache_sound g d' \<and>
     (case r of
        Return x \<Rightarrow>
          snd d' = snd d \<and>
            (x = None \<and> fst d (validate_key owner repo) = Some cached_ok \<or>
             x = Some (Sentinel ErrRepoNotFound) \<and> fst d (validate_key owner repo) = Some cached_not_found) \<or>
          (\<exists>resp. snd d' = insert (github_request g (validate_url g owner repo), resp) (snd d) \<and>
             x = validate_response resp \<and>
             (x \<noteq> None \<and> x \<noteq> Some (Sentinel ErrRepoNotFound) \<longrightarrow> fst d' \<subseteq>\<^sub>m fst d)) \<or>
          (\<exists>e. x = Some e \<and> foreign e \<and> fst d' \<subseteq>\<^sub>m fst d)
      | Panic p \<Rightarrow> True)"

locale cached_github = github_api tp answered + st: entry_store "cc_store c" entries
  for tp :: "'w transport" and answered :: "'w \<Rightarrow> (http_request \<times> http_response) set"
    and c :: "'w cached_client" and entries :: "'w \<Rightarrow> (string \<rightharpoonup> string)" +
  assumes do_entries: "keeps entries (tr_do tp t req)"
    and get_answered: "keeps answered (cs_get (cc_store c) key)"
    and set_answered: "keeps answered (cs_set_ex (cc_store c) key value ttl)"
begin

abbreviation view :: "'w \<Rightarrow> cache_view" where
  "view w \<equiv> (entries w, answered w)"

lemma set_contract:
  "meets view (cached_set c key value)
     (\<lambda>d r d'. snd d' = snd d \<and> (fst d' \<subseteq>\<^sub>m (fst d)(key \<mapsto> value) \<or> fst d' \<subseteq>\<^sub>m fst d))"
  unfolding cached_set_def
  by (rule meets_run_ok) (auto intro!: run_ok_call [OF meets_frame_right [OF st.set_ex set_answered]])

lemma inner_latest:
  "meets view (client_get_latest_release tp g owner repo)
    (\<lambda>d r d'. fst d' = fst d \<and> snd d \<subseteq> snd d' \<and>
      (\<forall>x. r = Return x \<longrightarrow>
        (\<exists>resp. snd d' = insert (github_request g (latest_url g owner repo), resp) (snd d) \<and>
           x = latest_response resp) \<or> (\<exists>e. x = Inl e \<and> foreign e)))"
  by (rule meets_weaken [OF meets_frame_left [OF latest_meets keeps_client_latest [OF do_entries]]]) blast

lemma inner_validate:
  "meets view (client_validate_repo tp g owner repo)
    (\<lambda>d r d'. fst d' = fst d \<and> snd d \<subseteq> snd d' \<and>
      (\<forall>x. r = Return x \<longrightarrow>
        (\<exists>resp. snd d' = insert (github_request g (validate_url g owner repo), resp) (snd d) \<and>
           x = validate_response resp) \<or> (\<exists>e. x = Some e \<and> foreign e)))"
  by (rule meets_weaken [OF meets_frame_left [OF validate_meets keeps_client_validate [OF do_entries]]]) blast

lemmas cache_calls =
  run_ok_call [OF set_contract] run_ok_call [OF inner_latest] run_ok_call [OF inner_validate]
  run_ok_call [OF meets_frame_right [OF st.get get_answered]]

lemma set_tag: "(if tag = [] then cached_set c key cached_empty_tag else cached_set c key tag) =
    cached_set c key (encode_tag tag)"
  by (simp add: encode_tag_def)

lemma sound_stored_latest:
  assumes "cache_sound g d" and "fst d1 = fst d"
    and d1: "snd d1 = insert (github_request g (latest_url g owner repo), resp) (snd d)"
    and "latest_response resp = Inr tag" and "snd d' = snd d1"
    and "fst d' \<subseteq>\<^sub>m (fst d1)(latest_key owner repo \<mapsto> encode_tag tag) \<or> fst d' \<subseteq>\<^sub>m fst d1"
  shows "cache_sound g d'"
proof -
  have s1: "cache_sound g d1" using assms by (auto intro: cache_sound_mono)
  have "latest_entry_sound g (snd d1) owner repo (encode_tag tag)"
    using assms(4) d1 by (auto simp: latest_entry_sound_def)
  with s1 assms(5,6) show ?thesis
    by (auto intro: cache_sound_latest cache_sound_mono)
qed

lemma latest_stored:
  assumes "cache_sound g d" and "fst d1 = fst d"
    and "snd d1 = insert (github_request g (latest_url g owner repo), resp) (snd d)"
    and "latest_response resp = Inr tag" and "snd d' = snd d1"
    and "fst d' \<subseteq>\<^sub>m (fst d1)(latest_key owner repo \<mapsto> encode_tag tag) \<or> fst d' \<subseteq>\<^sub>m fst d1"
    and "r = Return (Inr tag) \<or> r = Panic p"
  shows "latest_contract g owner repo d r d'"
  using sound_stored_latest [OF assms(1-6)] assms(3-5,7) unfolding latest_contract_def by auto

lemma latest_failed:
  assumes "cache_sound g d" and "fst d' = fst d" and "snd d \<subseteq> snd d'"
    and "(\<exists>resp. snd d' = insert (github_request g (latest_url g owner repo), resp) (snd d) \<and>
           latest_response resp = Inl e) \<or> foreign e"
  shows "latest_contract g owner repo d (Return (Inl e)) d'"
  using assms unfolding latest_contract_def by (auto intro: cache_sound_mono)

lemma latest_panicked:
  assumes "cache_sound g d" and "fst d' \<subseteq>\<^sub>m fst d" and "snd d \<subseteq> snd d'"
  shows "latest_contract g owner repo d (Panic p) d'"
  using assms unfolding latest_contract_def by (auto intro: cache_sound_mono)

definition stores_result :: "string \<Rightarrow> error + string \<Rightarrow> (cache_view, error + string) contract" where
  "stores_result key x d r d' \<longleftrightarrow> snd d' = snd d \<and> (r = Return x \<or> (\<exists>tag p. x = Inr tag \<and> r = Panic p)) \<and>
     (case x of Inl _ \<Rightarrow> fst d' = fst d
      | Inr tag \<Rightarrow> fst d' \<subseteq>\<^sub>m (fst d)(key \<mapsto> encode_tag tag) \<or> fst d' \<subseteq>\<^sub>m fst d)"

lemma stores_result_meets:
  "meets view (case x of Inl err \<Rightarrow> ret (Inl err)
     | Inr tag \<Rightarrow> call (cached_set c key (encode_tag tag)) (\<lambda>_. ret (Inr tag))) (stores_result key x)"
  by (rule meets_run_ok) (cases x; auto simp: stores_result_def intro!: run_ok_call [OF set_contract])

lemma latest_and_cache_meets:
  "meets view (latest_and_cache tp c owner repo)
     (\<lambda>d r d'. cache_sound (cc_inner c) d \<longrightarrow> latest_contract (cc_inner c) owner repo d r d')"
  unfolding latest_and_cache_def Let_def set_tag
proof (rule meets_call [OF inner_latest stores_result_meets])
  let ?g = "cc_inner c"
  fix d :: cache_view and x d1 r d'
  assume i: "fst d1 = fst d \<and> snd d \<subseteq> snd d1 \<and>
      (\<forall>y. Return x = Return y \<longrightarrow>
        (\<exists>resp. snd d1 = insert (github_request ?g (latest_url ?g owner repo), resp) (snd d) \<and>
           y = latest_response resp) \<or> (\<exists>e. y = Inl e \<and> foreign e))"
    and t: "stores_result (latest_key owner repo) x d1 r d'"
  show "cache_sound ?g d \<longrightarrow> latest_contract ?g owner repo d r d'"
  proof (cases x)
    case (Inl e)
    with i t show ?thesis by (auto simp: stores_result_def intro!: latest_failed)
  next
    case (Inr tag)
    with i obtain resp where i: "fst d1 = fst d" "latest_response resp = Inr tag"
        "snd d1 = insert (github_request ?g (latest_url ?g owner repo), resp) (snd d)" by auto
    from t Inr obtain p where t: "snd d' = snd d1" "r = Return (Inr tag) \<or> r = Panic p"
        "fst d' \<subseteq>\<^sub>m (fst d1)(latest_key owner repo \<mapsto> encode_tag tag) \<or> fst d' \<subseteq>\<^sub>m fst d1"
      by (auto simp: stores_result_def)
    from latest_stored [OF _ i(1,3,2) t(1,3,2)] show ?thesis by blast
  qed
qed (auto intro: latest_panicked)

lemma latest_after_lookup:
  assumes "latest_contract g owner repo d1 r d'" and "fst d1 \<subseteq>\<^sub>m fst d" and "snd d1 = snd d"
  shows "latest_contract g owner repo d r d'"
proof (cases r)
  case (Return x)
  with assms show ?thesis
    unfolding latest_contract_def
    by (cases x) (simp_all, blast intro: map_le_trans, blast dest: map_leD)
qed (use assms in \<open>auto simp: latest_contract_def\<close>)

lemma cached_latest_meets:
  "meets view (cached_get_latest_release tp c owner repo)
     (\<lambda>d r d'. cache_sound (cc_inner c) d \<longrightarrow> latest_contract (cc_inner c) owner repo d r d')"
  unfolding cached_get_latest_release_def
proof (rule meets_call [OF meets_frame_right [OF st.get get_answered]])
  let ?g = "cc_inner c" and ?key = "latest_key owner repo"
  let ?after = "\<lambda>x d r d'. (\<exists>tag. x = Inr tag \<and> d' = d \<and> r = Return (Inr (decode_tag tag))) \<or>
      (\<exists>e. x = Inl e \<and> (cache_sound ?g d \<longrightarrow> latest_contract ?g owner repo d r d'))"
  show "meets view (case x of Inr v \<Rightarrow> if v = cached_empty_tag then ret (Inr []) else ret (Inr v)
      | Inl err \<Rightarrow> latest_and_cache tp c owner repo) (?after x)" for x
  proof (cases x)
    case (Inl e)
    then show ?thesis using meets_weaken [OF latest_and_cache_meets] by simp
  qed (simp add: meets_def decode_tag_def)
  fix d :: cache_view and x d1 r d'
  assume g: "(fst d1 \<subseteq>\<^sub>m fst d \<and> (\<forall>v. Return x = Return (Inr v) \<longrightarrow> fst d ?key = Some v)) \<and> snd d1 = snd d"
    and a: "?after x d1 r d'"
  have s: "cache_sound ?g d \<Longrightarrow> cache_sound ?g d1" using g by (elim cache_sound_mono) simp_all
  show "cache_sound ?g d \<longrightarrow> latest_contract ?g owner repo d r d'"
  proof (cases x)
    case (Inl e)
    with a s have "cache_sound ?g d \<Longrightarrow> latest_contract ?g owner repo d1 r d'" by blast
    with g show ?thesis by (blast intro: latest_after_lookup)
  next
    case (Inr v)
    with a g s show ?thesis unfolding latest_contract_def by auto
  qed
qed (auto intro: latest_panicked)

text \<open>The same for \<open>ValidateRepo\<close>.\<close>

definition verdict_value :: "error option \<Rightarrow> string option" where
  "verdict_value x =
     (case x of
        None \<Rightarrow> Some cached_ok
      | Some e \<Rightarrow> if errors_is e ErrRepoNotFound then Some cached_not_found else None)"

definition stores_verdict :: "string \<Rightarrow> error option \<Rightarrow> (cache_view, error option) contract" where
  "stores_verdict key x d r d' \<longleftrightarrow> snd d' = snd d \<and> (r = Return x \<or> (\<exists>v p. verdict_value x = Some v \<and> r = Panic p)) \<and>
     (case verdict_value x of
        None \<Rightarrow> fst d' = fst d
      | Some v \<Rightarrow> fst d' \<subseteq>\<^sub>m (fst d)(key \<mapsto> v) \<or> fst d' \<subseteq>\<^sub>m fst d)"

lemma stores_verdict_meets:
  "meets view (case err of
       None \<Rightarrow> call (cached_set c key cached_ok) (\<lambda>_. ret err)
     | Some e \<Rightarrow> if errors_is e ErrRepoNotFound then call (cached_set c key cached_not_found) (\<lambda>_. ret err)
         else ret err) (stores_verdict key err)"
  by (rule meets_run_ok)
     (auto simp: stores_verdict_def verdict_value_def intro!: run_ok_call [OF set_contract] split: option.split)

lemma verdict_value_answer:
  "verdict_value (validate_response resp) = Some v \<longleftrightarrow>
     validate_response resp = None \<and> v = cached_ok \<or>
     validate_response resp = Some (Sentinel ErrRepoNotFound) \<and> v = cached_not_found"
  using validate_response_errors [of resp]
  by (auto simp: verdict_value_def split: option.splits if_splits)

lemma validate_stored:
  assumes s: "cache_sound g d" and d1: "fst d1 = fst d"
      "snd d1 = insert (github_request g (validate_url g owner repo), resp) (snd d)"
    and t: "stores_verdict (validate_key owner repo) (validate_response resp) d1 r d'"
  shows "validate_contract g owner repo d r d'"
proof -
  let ?x = "validate_response resp"
  have s1: "cache_sound g d1" using s d1 by (auto elim: cache_sound_mono)
  have "cache_sound g d'"
  proof (cases "verdict_value ?x")
    case None
    with t s1 show ?thesis by (auto simp: stores_verdict_def elim: cache_sound_mono)
  next
    case (Some v)
    then have "validate_entry_sound g (snd d1) owner repo v"
      using d1(2) by (auto simp: verdict_value_answer validate_entry_sound_def cached_ok_def cached_not_found_def)
    with Some t s1 show ?thesis
      by (auto simp: stores_verdict_def elim: cache_sound_mono intro: cache_sound_validate)
  qed
  moreover have "fst d' = fst d1" if "?x \<noteq> None" "?x \<noteq> Some (Sentinel ErrRepoNotFound)"
  proof -
    from that have "verdict_value ?x = None" by (metis not_Some_eq verdict_value_answer)
    with t show ?thesis by (simp add: stores_verdict_def)
  qed
  ultimately show ?thesis
    using t d1 unfolding validate_contract_def stores_verdict_def by auto
qed

lemma validate_failed:
  assumes s: "cache_sound g d" and d1: "fst d1 = fst d" "snd d \<subseteq> snd d1" and f: "foreign e"
    and t: "stores_verdict key (Some e) d1 r d'"
  shows "validate_contract g owner repo d r d'"
proof -
  from f t have d': "d' = d1" "r = Return (Some e)"
    by (auto simp: stores_verdict_def verdict_value_def prod_eq_iff)
  moreover have "cache_sound g d1" using s d1 by (auto elim: cache_sound_mono)
  ultimately show ?thesis using f d1 unfolding validate_contract_def by auto
qed

lemma validate_and_cache_meets:
  "meets view (validate_and_cache tp c owner repo)
     (\<lambda>d r d'. cache_sound (cc_inner c) d \<longrightarrow> validate_contract (cc_inner c) owner repo d r d')"
  unfolding validate_and_cache_def Let_def
proof (rule meets_call [OF inner_validate stores_verdict_meets])
  let ?g = "cc_inner c"
  fix d :: cache_view and x d1 r d'
  assume i: "fst d1 = fst d \<and> snd d \<subseteq> snd d1 \<and>
      (\<forall>y. Return x = Return y \<longrightarrow>
        (\<exists>resp. snd d1 = insert (github_request ?g (validate_url ?g owner repo), resp) (snd d) \<and>
           y = validate_response resp) \<or> (\<exists>e. y = Some e \<and> foreign e))"
    and t: "stores_verdict (validate_key owner repo) x d1 r d'"
  then consider (answer) resp where "x = validate_response resp"
      "snd d1 = insert (github_request ?g (validate_url ?g owner repo), resp) (snd d)"
    | (failed) e where "x = Some e" "foreign e" by auto
  then show "cache_sound ?g d \<longrightarrow> validate_contract ?g owner repo d r d'"
  proof cases
    case answer
    with i t show ?thesis by (blast intro: validate_stored)
  next
    case failed
    with i t show ?thesis by (blast intro: validate_failed)
  qed
qed (auto simp: validate_contract_def intro: cache_sound_mono)

lemma validate_after_lookup:
  assumes "validate_contract g owner repo d1 r d'" and "fst d1 \<subseteq>\<^sub>m fst d" and "snd d1 = snd d"
  shows "validate_contract g owner repo d r d'"
proof (cases r)
  case (Return x)
  have "fst d1 k = Some v \<Longrightarrow> fst d k = Some v" for k v using assms(2) by (rule map_leD)
  with Return assms show ?thesis
    unfolding validate_contract_def by (auto intro: map_le_trans [OF _ assms(2)])
qed (use assms in \<open>auto simp: validate_contract_def\<close>)

lemma cached_validate_meets:
  "meets view (cached_validate_repo tp c owner repo)
     (\<lambda>d r d'. cache_sound (cc_inner c) d \<longrightarrow> validate_contract (cc_inner c) owner repo d r d')"
  unfolding cached_validate_repo_def
proof (rule meets_call [OF meets_frame_right [OF st.get get_answered]])
  let ?g = "cc_inner c" and ?key = "validate_key owner repo"
  let ?hit = "\<lambda>v x. v = cached_ok \<and> x = None \<or> v = cached_not_found \<and> x = Some (Sentinel ErrRepoNotFound)"
  let ?after = "\<lambda>x d r d'. (\<exists>v y. x = Inr v \<and> ?hit v y \<and> d' = d \<and> r = Return y) \<or>
      (cache_sound ?g d \<longrightarrow> validate_contract ?g owner repo d r d')"
  show "meets view (case x of Inr v \<Rightarrow> if v = cached_ok then ret None
        else if v = cached_not_found then ret (Some (Sentinel ErrRepoNotFound))
        else validate_and_cache tp c owner repo
      | Inl err \<Rightarrow> validate_and_cache tp c owner repo) (?after x)" for x
    using meets_weaken [OF validate_and_cache_meets, where T = "?after x"]
    by (cases x) (auto simp: meets_ret)
  fix d :: cache_view and x d1 r d'
  assume g: "(fst d1 \<subseteq>\<^sub>m fst d \<and> (\<forall>v. Return x = Return (Inr v) \<longrightarrow> fst d ?key = Some v)) \<and> snd d1 = snd d"
    and a: "?after x d1 r d'"
  have s: "cache_sound ?g d \<Longrightarrow> cache_sound ?g d1" using g by (elim cache_sound_mono) simp_all
  from a show "cache_sound ?g d \<longrightarrow> validate_contract ?g owner repo d r d'"
  proof
    assume "\<exists>v y. x = Inr v \<and> ?hit v y \<and> d' = d1 \<and> r = Return y"
    with g s show ?thesis unfolding validate_contract_def by auto
  next
    assume "cache_sound ?g d1 \<longrightarrow> validate_contract ?g owner repo d1 r d'"
    with g s show ?thesis by (blast intro: validate_after_lookup)
  qed
qed (auto simp: validate_contract_def elim: cache_sound_mono)

end

end
