(* ===== verification/GoInt.thy ===== *)
theory GoInt imports Prelude begin

text \<open>
  Go's 64-bit signed integers (\<open>int\<close>, \<open>int64\<close>, \<open>time.Duration\<close>) as integers in their
  range, with the wrap-around of their arithmetic written out.
\<close>

definition int64 :: "int \<Rightarrow> int" where
  "int64 x = (x + 2 ^ 63) mod 2 ^ 64 - 2 ^ 63"

definition max_int64 :: int where "max_int64 = 2 ^ 63 - 1"
definition min_int64 :: int where "min_int64 = - (2 ^ 63)"

definition in_int64 :: "int \<Rightarrow> bool" where
  "in_int64 x \<longleftrightarrow> min_int64 \<le> x \<and> x \<le> max_int64"

lemma int64_id [simp]: "in_int64 x \<Longrightarrow> int64 x = x"
  by (simp add: int64_def in_int64_def min_int64_def max_int64_def)

lemma in_int64_int64 [simp]: "in_int64 (int64 x)"
proof -
  have "0 \<le> (x + 2 ^ 63) mod 2 ^ 64" and "(x + 2 ^ 63) mod 2 ^ 64 < 2 ^ 64" by simp_all
  then show ?thesis by (simp add: int64_def in_int64_def min_int64_def max_int64_def)
qed

lemma int64_idem [simp]: "int64 (int64 x) = int64 x"
  by simp

text \<open>Integer division truncates towards zero.\<close>

definition quot64 :: "int \<Rightarrow> int \<Rightarrow> int" where
  "quot64 x y = int64 (if x * y < 0 then - (\<bar>x\<bar> div \<bar>y\<bar>) else \<bar>x\<bar> div \<bar>y\<bar>)"

definition nanosecond :: int where "nanosecond = 1"
definition second :: int where "second = 1000000000"
definition minute :: int where "minute = 60000000000"

lemmas duration_defs = nanosecond_def second_def minute_def

end
