(* ===== verification/Notify.thy ===== *)
theory Notify imports Json GoInt begin

text \<open>
  The notification commands and their way to the stream: \<open>internal/shared/notify/command.go\<close>,
  \<open>internal/app/service/composer.go\<close>, \<open>internal/app/service/email_notifier.go\<close> and
  \<open>internal/app/natspublisher/publisher.go\<close>. NATS JetStream and \<open>html/template\<close> are
  parameters.
\<close>

section \<open>Commands\<close>

definition stream_name :: string where "stream_name = ''NOTIFICATIONS''"
definition stream_subject :: string where "stream_subject = ''notify.>''"
definition subject_confirmation :: string where "subject_confirmation = ''notify.confirmation''"
definition subject_release :: string where "subject_release = ''notify.release''"
definition durable_consumer :: string where "durable_consumer = ''notifier''"
definition dlq_stream_name :: string where "dlq_stream_name = ''NOTIFY_DLQ''"
definition dlq_subject :: string where "dlq_subject = ''dlq.notify''"

definition dedup_window :: "int \<Rightarrow> int" where
  "dedup_window scan_interval = int64 (3 * scan_interval)"

record email_command =
  ec_event_id :: string
  ec_recipient :: string
  ec_subject :: string
  ec_html_body :: string

definition confirmation_dedup_id :: "string \<Rightarrow> string" where
  "confirmation_dedup_id token = ''confirmation:'' @ token"

definition release_dedup_id :: "string \<Rightarrow> string \<Rightarrow> string \<Rightarrow> string" where
  "release_dedup_id repo tag email = ''release:'' @ repo @ '':'' @ tag @ '':'' @ email"

text \<open>The JSON form of a command, by its struct tags.\<close>

definition command_fields :: "string list" where
  "command_fields = [''event_id'', ''recipient_email'', ''subject'', ''html_body'']"

definition marshal_command :: "email_command \<Rightarrow> string" where
  "marshal_command cmd =
     marshal_struct (zip command_fields
       [ec_event_id cmd, ec_recipient cmd, ec_subject cmd, ec_html_body cmd])"

definition unmarshal_command :: "string \<Rightarrow> error + email_command" where
  "unmarshal_command data =
     (case unmarshal_struct command_fields data of
        Inl err \<Rightarrow> Inl err
      | Inr f \<Rightarrow> Inr \<lparr>ec_event_id = f ''event_id'', ec_recipient = f ''recipient_email'',
          ec_subject = f ''subject'', ec_html_body = f ''html_body''\<rparr>)"

section \<open>Composing\<close>

definition zwsp :: string where "zwsp = utf8 0x200B"

definition break_auto_link :: "string \<Rightarrow> string" where
  "break_auto_link url = replace_first url ''://'' (zwsp @ ''://'')"

record composer = co_base_url :: string

record message =
  ms_to :: string
  ms_subject :: string
  ms_plain_body :: string
  ms_html_body :: string
  ms_headers :: "string \<rightharpoonup> string"

text \<open>
  \<open>templates.RenderEmail\<close>; \<open>tmpl\<close> is the execution of an embedded template by
  \<open>html/template\<close>.
\<close>

type_synonym template_engine = "string \<Rightarrow> (string \<rightharpoonup> string) \<Rightarrow> error + string"

definition render_email :: "template_engine \<Rightarrow> template_engine" where
  "render_email tmpl name data =
     (case tmpl name data of
        Inl err \<Rightarrow> Inl (wrapf (''render email '' @ name) err)
      | Inr html \<Rightarrow> Inr html)"

definition nl :: string where "nl = [CHR 10]"

definition unsubscribe_url :: "composer \<Rightarrow> string \<Rightarrow> string" where
  "unsubscribe_url c token = co_base_url c @ ''/api/unsubscribe/'' @ token"

definition unsubscribe_headers :: "string \<Rightarrow> string \<rightharpoonup> string" where
  "unsubscribe_headers url =
     [''List-Unsubscribe'' \<mapsto> ''<'' @ url @ ''>'', ''List-Unsubscribe-Post'' \<mapsto> ''List-Unsubscribe=One-Click'']"

definition compose_confirmation ::
  "template_engine \<Rightarrow> composer \<Rightarrow> string \<Rightarrow> string \<Rightarrow> string \<Rightarrow> string \<Rightarrow> error + message" where
  "compose_confirmation tmpl c email repo token unsubscribe_token =
     (let confirm_url = co_base_url c @ ''/api/confirm/'' @ token;
          unsub_url = unsubscribe_url c unsubscribe_token;
          plain = ''You have subscribed to release notifications for '' @ repo @ ''.'' @ nl @ nl @
            ''Please confirm your subscription by clicking the link below:'' @ nl @ confirm_url @ nl @ nl @
            ''If you did not request this, you can safely ignore this email, '' @
            ''or unsubscribe here:'' @ nl @ unsub_url
      in case render_email tmpl ''confirmation.html''
           [''Repo'' \<mapsto> repo, ''ConfirmURL'' \<mapsto> confirm_url,
            ''ConfirmURLDisplay'' \<mapsto> break_auto_link confirm_url, ''UnsubscribeURL'' \<mapsto> unsub_url] of
           Inl err \<Rightarrow> Inl err
         | Inr html \<Rightarrow>
             Inr \<lparr>ms_to = email, ms_subject = ''Confirm your subscription to '' @ repo @ '' releases'',
               ms_plain_body = plain, ms_html_body = html, ms_headers = unsubscribe_headers unsub_url\<rparr>)"

definition compose_release ::
  "template_engine \<Rightarrow> composer \<Rightarrow> string \<Rightarrow> string \<Rightarrow> string \<Rightarrow> string \<Rightarrow> error + message" where
  "compose_release tmpl c email repo tag unsubscribe_token =
     (let release_url = ''https://github.com/'' @ repo @ ''/releases/tag/'' @ tag;
          unsub_url = unsubscribe_url c unsubscribe_token;
          plain = ''A new release has been published for '' @ repo @ ''!'' @ nl @ nl @
            ''Tag: '' @ tag @ nl @ ''View release: '' @ release_url @ nl @ nl @
            ''To unsubscribe from these notifications:'' @ nl @ unsub_url
      in case render_email tmpl ''release.html''
           [''Repo'' \<mapsto> repo, ''Tag'' \<mapsto> tag, ''ReleaseURL'' \<mapsto> release_url, ''UnsubscribeURL'' \<mapsto> unsub_url] of
           Inl err \<Rightarrow> Inl err
         | Inr html \<Rightarrow>
             Inr \<lparr>ms_to = email, ms_subject = ''New release '' @ tag @ '' for '' @ repo,
               ms_plain_body = plain, ms_html_body = html, ms_headers = unsubscribe_headers unsub_url\<rparr>)"

section \<open>Publishing\<close>

text \<open>
  The calls of the JetStream client: \<open>Publish\<close> with an optional message id, and the calls
  that manage streams.
\<close>

record stream_config =
  st_name :: string
  st_subjects :: "string list"
  st_duplicates :: int

record 'w jetstream =
  js_publish :: "string \<Rightarrow> string \<Rightarrow> string option \<Rightarrow> ('w, error option) io"
  js_create_stream :: "stream_config \<Rightarrow> ('w, error option) io"
  js_create_or_update_stream :: "stream_config \<Rightarrow> ('w, error option) io"

type_synonym 'w publisher = "string \<Rightarrow> string \<Rightarrow> email_command \<Rightarrow> ('w, error option) io"

text \<open>\<open>json.Marshal\<close> of a struct of strings cannot fail.\<close>

definition nats_publish :: "'w jetstream \<Rightarrow> 'w publisher" where
  "nats_publish js subject dedup_id cmd =
     call (js_publish js subject (marshal_command cmd) (Some dedup_id)) (\<lambda>r. case r of
       Some err \<Rightarrow> ret (Some (wrapf (''publish '' @ subject) err))
     | None \<Rightarrow> ret None)"

text \<open>\<open>EmailNotifier\<close>; \<open>uuid_string\<close> is \<open>uuid.NewString\<close>, which panics without randomness.\<close>

record 'w email_notifier =
  en_composer :: composer
  en_publisher :: "'w publisher"

definition new_email_notifier :: "string \<Rightarrow> 'w publisher \<Rightarrow> 'w email_notifier" where
  "new_email_notifier base_url pub = \<lparr>en_composer = \<lparr>co_base_url = base_url\<rparr>, en_publisher = pub\<rparr>"

definition command_of :: "string \<Rightarrow> message \<Rightarrow> email_command" where
  "command_of event_id msg =
     \<lparr>ec_event_id = event_id, ec_recipient = ms_to msg, ec_subject = ms_subject msg,
      ec_html_body = ms_html_body msg\<rparr>"

definition send_confirmation ::
  "template_engine \<Rightarrow> ('w, string) io \<Rightarrow> 'w email_notifier \<Rightarrow>
   string \<Rightarrow> string \<Rightarrow> string \<Rightarrow> string \<Rightarrow> ('w, error option) io" where
  "send_confirmation tmpl uuid_string n email repo token unsubscribe_token =
     (case compose_confirmation tmpl (en_composer n) email repo token unsubscribe_token of
        Inl err \<Rightarrow> ret (Some err)
      | Inr msg \<Rightarrow>
          call uuid_string (\<lambda>event_id.
          en_publisher n subject_confirmation (confirmation_dedup_id token) (command_of event_id msg)))"

definition send_release_notification ::
  "template_engine \<Rightarrow> ('w, string) io \<Rightarrow> 'w email_notifier \<Rightarrow>
   string \<Rightarrow> string \<Rightarrow> string \<Rightarrow> string \<Rightarrow> ('w, error option) io" where
  "send_release_notification tmpl uuid_string n email repo tag unsubscribe_token =
     (case compose_release tmpl (en_composer n) email repo tag unsubscribe_token of
        Inl err \<Rightarrow> ret (Some err)
      | Inr msg \<Rightarrow>
          call uuid_string (\<lambda>event_id.
          en_publisher n subject_release (release_dedup_id repo tag email) (command_of event_id msg)))"

section \<open>The wire format\<close>

definition valid_command :: "email_command \<Rightarrow> email_command" where
  "valid_command cmd =
     \<lparr>ec_event_id = to_valid_utf8 (ec_event_id cmd), ec_recipient = to_valid_utf8 (ec_recipient cmd),
      ec_subject = to_valid_utf8 (ec_subject cmd), ec_html_body = to_valid_utf8 (ec_html_body cmd)\<rparr>"

lemma command_fields_valid: "\<forall>k \<in> set command_fields. to_valid_utf8 k = k"
  by code_simp

lemma read_marshal_command: "unmarshal_command (marshal_command cmd) = Inr (valid_command cmd)"
proof -
  let ?ms = "zip command_fields [ec_event_id cmd, ec_recipient cmd, ec_subject cmd, ec_html_body cmd]"
  have "?ms \<noteq> []" "map fst ?ms = command_fields" "distinct command_fields"
    by (simp_all add: command_fields_def)
  from unmarshal_marshal [OF this command_fields_valid] show ?thesis
    by (simp add: unmarshal_command_def marshal_command_def valid_command_def) (simp add: command_fields_def)
qed

text \<open>
  C29. What the notifier decodes of what the application published: every field, with bytes that
  are not UTF-8 replaced by U+FFFD; so the command itself exactly when its fields are UTF-8.
\<close>

theorem command_round_trip:
  "unmarshal_command (marshal_command cmd) = Inr (valid_command cmd) \<and>
   (unmarshal_command (marshal_command cmd) = Inr cmd \<longleftrightarrow>
      list_all valid_utf8 [ec_event_id cmd, ec_recipient cmd, ec_subject cmd, ec_html_body cmd])"
  by (cases cmd) (simp add: read_marshal_command valid_command_def valid_utf8_def)

end
