(* ===== verification/Bus.thy ===== *)
theory Bus imports Notify Service begin

text \<open>
  What the program may rely on of the message bus: the stream \<open>NOTIFICATIONS\<close> as a list of
  stored messages with their times, deduplicated by message id over a window
  (\<open>Duplicates\<close> in the stream's configuration), and what \<open>EmailNotifier\<close> and
  \<open>natspublisher\<close> make of it.
\<close>

section \<open>The stream\<close>

record stored =
  sm_subject :: string
  sm_data :: string
  sm_id :: string
  sm_time :: int

record bus =
  bus_msgs :: "stored list"
  bus_window :: int
  bus_now :: int

definition is_duplicate :: "string \<Rightarrow> int \<Rightarrow> bus \<Rightarrow> bool" where
  "is_duplicate i t b \<longleftrightarrow> (\<exists>m \<in> set (bus_msgs b). sm_id m = i \<and> t - sm_time m < bus_window b)"

text \<open>The server handles a publish at some time during the call.\<close>

definition accepts :: "string \<Rightarrow> string \<Rightarrow> string \<Rightarrow> bus \<Rightarrow> bus \<Rightarrow> bool" where
  "accepts subj data i b b' \<longleftrightarrow> bus_window b' = bus_window b \<and>
     (\<exists>t. bus_now b \<le> t \<and> t \<le> bus_now b' \<and>
        bus_msgs b' =
          (if is_duplicate i t b then bus_msgs b
           else bus_msgs b @ [\<lparr>sm_subject = subj, sm_data = data, sm_id = i, sm_time = t\<rparr>]))"

definition idles :: "bus \<Rightarrow> bus \<Rightarrow> bool" where
  "idles b b' \<longleftrightarrow> bus_window b' = bus_window b \<and> bus_now b \<le> bus_now b' \<and> bus_msgs b' = bus_msgs b"

text \<open>
  \<open>Publish\<close>: an acknowledgement says that the server accepted the message (or recognised it
  as a duplicate); an error or a panic leaves open whether it did.
\<close>

definition publish_contract :: "string \<Rightarrow> string \<Rightarrow> string \<Rightarrow> (bus, error option) contract" where
  "publish_contract subj data i b r b' \<longleftrightarrow>
     (case r of
        Return None \<Rightarrow> accepts subj data i b b'
      | Return (Some e) \<Rightarrow> foreign e \<and> (idles b b' \<or> accepts subj data i b b')
      | Panic p \<Rightarrow> idles b b' \<or> accepts subj data i b b')"

locale jetstream_bus =
  fixes js :: "'w jetstream" and bus :: "'w \<Rightarrow> bus"
  assumes publish: "meets bus (js_publish js subj data (Some i)) (publish_contract subj data i)"

text \<open>
  The promise of the window: two stored messages with one id are at least a window apart.
\<close>

definition bus_ok :: "bus \<Rightarrow> bool" where
  "bus_ok b \<longleftrightarrow>
     sorted_wrt (\<lambda>m n. sm_time m \<le> sm_time n \<and>
       (sm_id m = sm_id n \<longrightarrow> bus_window b \<le> sm_time n - sm_time m)) (bus_msgs b) \<and>
     (\<forall>m \<in> set (bus_msgs b). sm_time m \<le> bus_now b)"

lemma accepts_bus_ok: "accepts subj data i b b' \<Longrightarrow> bus_ok b \<Longrightarrow> bus_ok b'"
  by (auto simp: accepts_def bus_ok_def is_duplicate_def sorted_wrt_append split: if_splits; fastforce)

lemma idles_bus_ok: "idles b b' \<Longrightarrow> bus_ok b \<Longrightarrow> bus_ok b'"
  by (auto simp: idles_def bus_ok_def; fastforce)

lemma publish_bus_ok: "publish_contract subj data i b r b' \<Longrightarrow> bus_ok b \<Longrightarrow> bus_ok b'"
  by (auto simp: publish_contract_def intro: accepts_bus_ok idles_bus_ok
      split: outcome.splits option.splits)

text \<open>After an acknowledgement the stream holds a message with this id, not older than a window.\<close>

definition holds_recent :: "string \<Rightarrow> int \<Rightarrow> bus \<Rightarrow> bool" where
  "holds_recent i since b \<longleftrightarrow> (\<exists>m \<in> set (bus_msgs b). sm_id m = i \<and> since - bus_window b < sm_time m)"

lemma accepts_holds:
  "accepts subj data i b b' \<Longrightarrow> 0 < bus_window b \<Longrightarrow> holds_recent i (bus_now b) b'"
  by (auto simp: accepts_def holds_recent_def is_duplicate_def split: if_splits; force)

text \<open>Messages are only ever added.\<close>

lemma accepts_extends: "accepts subj data i b b' \<Longrightarrow> \<exists>ms. bus_msgs b' = bus_msgs b @ ms"
  by (auto simp: accepts_def)

section \<open>The publisher\<close>

definition send_contract :: "string \<Rightarrow> string \<Rightarrow> (email_command \<Rightarrow> bool) \<Rightarrow> (bus, error option) contract" where
  "send_contract subj i P b r b' \<longleftrightarrow>
     (case r of
        Return None \<Rightarrow> \<exists>cmd. P cmd \<and> accepts subj (marshal_command cmd) i b b'
      | Return (Some e) \<Rightarrow> foreign e \<and> (idles b b' \<or> (\<exists>cmd. P cmd \<and> accepts subj (marshal_command cmd) i b b'))
      | Panic p \<Rightarrow> idles b b' \<or> (\<exists>cmd. P cmd \<and> accepts subj (marshal_command cmd) i b b'))"

lemma send_outcomes:
  "send_contract subj i P b r b' \<Longrightarrow> idles b b' \<or> (\<exists>cmd. P cmd \<and> accepts subj (marshal_command cmd) i b b')"
  by (auto simp: send_contract_def split: outcome.splits option.splits)

lemma send_bus_ok: "send_contract subj i P b r b' \<Longrightarrow> bus_ok b \<Longrightarrow> bus_ok b'"
  by (auto simp: send_contract_def intro: accepts_bus_ok idles_bus_ok
      split: outcome.splits option.splits)

context jetstream_bus
begin

lemma nats_publish_meets: "meets bus (nats_publish js subj i cmd) (send_contract subj i (\<lambda>x. x = cmd))"
  unfolding nats_publish_def
  by (rule meets_run_ok)
     (auto simp: publish_contract_def send_contract_def intro!: run_ok_call [OF publish] split: option.splits)

end

text \<open>
  The environment of \<open>EmailNotifier\<close>: a publisher to the bus, a template engine whose errors
  are its own, identifiers that cost no time on the bus.
\<close>

locale mail_env =
  fixes tmpl :: template_engine and uuid_string :: "('w, string) io"
    and n :: "'w email_notifier" and bus :: "'w \<Rightarrow> bus"
  assumes publisher: "meets bus (en_publisher n subj i cmd) (send_contract subj i (\<lambda>x. x = cmd))"
    and tmpl_foreign: "tmpl name data = Inl e \<Longrightarrow> foreign e"
    and uuid: "meets bus uuid_string (\<lambda>b r b'. idles b b')"

text \<open>The mails that the notifier sends.\<close>

definition confirmation_mail ::
  "template_engine \<Rightarrow> composer \<Rightarrow> string \<Rightarrow> string \<Rightarrow> string \<Rightarrow> string \<Rightarrow> email_command \<Rightarrow> bool" where
  "confirmation_mail tmpl c email repo token ut cmd \<longleftrightarrow>
     (\<exists>msg. compose_confirmation tmpl c email repo token ut = Inr msg \<and> cmd = command_of (ec_event_id cmd) msg)"

definition release_mail ::
  "template_engine \<Rightarrow> composer \<Rightarrow> string \<Rightarrow> string \<Rightarrow> string \<Rightarrow> string \<Rightarrow> email_command \<Rightarrow> bool" where
  "release_mail tmpl c email repo tag ut cmd \<longleftrightarrow>
     (\<exists>msg. compose_release tmpl c email repo tag ut = Inr msg \<and> cmd = command_of (ec_event_id cmd) msg)"

lemma idles_accepts:
  assumes "idles b b1" and "accepts subj data i b1 b'"
  shows "accepts subj data i b b'"
proof -
  have "is_duplicate i t b1 = is_duplicate i t b" for t
    using assms(1) by (simp add: idles_def is_duplicate_def)
  moreover obtain t where "bus_now b1 \<le> t" "t \<le> bus_now b'" "bus_window b' = bus_window b1"
      "bus_msgs b' = (if is_duplicate i t b1 then bus_msgs b1
         else bus_msgs b1 @ [\<lparr>sm_subject = subj, sm_data = data, sm_id = i, sm_time = t\<rparr>])"
    using assms(2) by (auto simp: accepts_def)
  ultimately show ?thesis
    using assms(1) unfolding accepts_def idles_def by (intro conjI exI [of _ t]) simp_all
qed

lemma idles_idles: "idles b b1 \<Longrightarrow> idles b1 b' \<Longrightarrow> idles b b'"
  by (auto simp: idles_def)

lemma idles_send:
  assumes "idles b b1" and "send_contract subj i P b1 r b'" and "\<And>c. P c \<Longrightarrow> Q c"
  shows "send_contract subj i Q b r b'"
  using assms
  by (auto simp: send_contract_def split: outcome.splits option.splits
      intro: idles_accepts idles_idles)

context mail_env
begin

lemma send_confirmation_meets:
  "meets bus (send_confirmation tmpl uuid_string n email repo token ut)
     (send_contract subject_confirmation (confirmation_dedup_id token)
        (confirmation_mail tmpl (en_composer n) email repo token ut))"
proof (cases "compose_confirmation tmpl (en_composer n) email repo token ut")
  case (Inl e)
  then have "foreign e"
    by (auto simp: compose_confirmation_def render_email_def Let_def dest: tmpl_foreign split: sum.splits)
  with Inl show ?thesis
    by (simp add: send_confirmation_def meets_def send_contract_def idles_def)
next
  case (Inr msg)
  then have mail: "confirmation_mail tmpl (en_composer n) email repo token ut (command_of a msg)" for a
    by (simp add: confirmation_mail_def command_of_def)
  show ?thesis
    unfolding send_confirmation_def Inr sum.case
    by (rule meets_call [OF uuid publisher])
       (simp_all add: send_contract_def [of _ _ _ _ "Panic _"] idles_send mail)
qed

lemma send_release_meets:
  "meets bus (send_release_notification tmpl uuid_string n email repo tag ut)
     (send_contract subject_release (release_dedup_id repo tag email)
        (release_mail tmpl (en_composer n) email repo tag ut))"
proof (cases "compose_release tmpl (en_composer n) email repo tag ut")
  case (Inl e)
  then have "foreign e"
    by (auto simp: compose_release_def render_email_def Let_def dest: tmpl_foreign split: sum.splits)
  with Inl show ?thesis
    by (simp add: send_release_notification_def meets_def send_contract_def idles_def)
next
  case (Inr msg)
  then have mail: "release_mail tmpl (en_composer n) email repo tag ut (command_of a msg)" for a
    by (simp add: release_mail_def command_of_def)
  show ?thesis
    unfolding send_release_notification_def Inr sum.case
    by (rule meets_call [OF uuid publisher])
       (simp_all add: send_contract_def [of _ _ _ _ "Panic _"] idles_send mail)
qed

end

end
