(* ===== verification/Scanner.thy ===== *)
theory Scanner imports Bus begin

text \<open>
  \<open>internal/app/scanner/scanner.go\<close> and \<open>config.go\<close>: one scan of one repository, the
  recovery around it, and the loop over all repositories. Its collaborators are the Go
  interfaces declared next to it.
\<close>

section \<open>Configuration\<close>

record scanner_config =
  sf_interval :: int
  sf_concurrency :: int

definition with_defaults :: "scanner_config \<Rightarrow> scanner_config" where
  "with_defaults c =
     (let c1 = (if sf_interval c \<le> 0 then c\<lparr>sf_interval := 5 * minute\<rparr> else c)
      in if sf_concurrency c1 \<le> 0 then c1\<lparr>sf_concurrency := 8\<rparr> else c1)"

section \<open>The scanner\<close>

record 'w scanner_repo =
  rp_distinct_confirmed_repos :: "('w, error + string list) io"
  rp_confirmed_by_repo :: "string \<Rightarrow> ('w, error + subscription list) io"
  rp_get_watched :: "string \<Rightarrow> ('w, error + watched_repo option) io"
  rp_save_tag :: "string \<Rightarrow> string \<Rightarrow> ('w, error option) io"

type_synonym 'w release_fetcher = "string \<Rightarrow> string \<Rightarrow> ('w, error + string) io"
type_synonym 'w release_sender = "string \<Rightarrow> string \<Rightarrow> string \<Rightarrow> string \<Rightarrow> ('w, error option) io"

record 'w scanner =
  sc_repo :: "'w scanner_repo"
  sc_github :: "'w release_fetcher"
  sc_notifier :: "'w release_sender"
  sc_pool_size :: int
  sc_cfg :: scanner_config

definition new_pool_size :: "int \<Rightarrow> int" where
  "new_pool_size n = (if n < 1 then 1 else n)"

definition new_scanner ::
  "'w scanner_repo \<Rightarrow> 'w release_fetcher \<Rightarrow> 'w release_sender \<Rightarrow> scanner_config \<Rightarrow> 'w scanner" where
  "new_scanner repo github notifier cfg =
     (let cfg' = with_defaults cfg in
      \<lparr>sc_repo = repo, sc_github = github, sc_notifier = notifier,
       sc_pool_size = new_pool_size (sf_concurrency cfg'), sc_cfg = cfg'\<rparr>)"

text \<open>The loop over the subscribers: every one is tried, and the result says whether all went well.\<close>

definition send_all :: "'w scanner \<Rightarrow> string \<Rightarrow> subscription list \<Rightarrow> ('w, bool) io" where
  "send_all s tag rows =
     for_each rows (\<lambda>sub all_sent.
       call (sc_notifier s (sub_email sub) (sub_repo sub) tag (sub_unsubscribe_token sub)) (\<lambda>r.
         case r of None \<Rightarrow> ret all_sent | Some err \<Rightarrow> ret False)) True"

definition check_repo :: "'w scanner \<Rightarrow> string \<Rightarrow> ('w, error option) io" where
  "check_repo s repo =
     (case split_n 2 ''/'' repo of
        [owner, name] \<Rightarrow>
        call (sc_github s owner name) (\<lambda>r. case r of
          Inl err \<Rightarrow> ret (Some err)
        | Inr tag \<Rightarrow>
        if tag = [] then ret None else
        call (rp_get_watched (sc_repo s) repo) (\<lambda>r. case r of
          Inl err \<Rightarrow> ret (Some err)
        | Inr seen \<Rightarrow>
        if (case seen of None \<Rightarrow> True | Some w \<Rightarrow> \<not> is_new_release w tag)
        then rp_save_tag (sc_repo s) repo tag
        else
        call (rp_confirmed_by_repo (sc_repo s) repo) (\<lambda>r. case r of
          Inl err \<Rightarrow> ret (Some err)
        | Inr rows \<Rightarrow>
        call (send_all s tag rows) (\<lambda>all_sent.
        if \<not> all_sent then ret None else
        call (rp_save_tag (sc_repo s) repo tag) (\<lambda>r.
          \<comment> \<open>a failed save is logged only\<close>
          ret None)))))
      | _ \<Rightarrow> ret (Some (Sentinel ErrInvalidRepoFormat)))"

definition safe_check_repo :: "'w scanner \<Rightarrow> string \<Rightarrow> ('w, error option) io" where
  "safe_check_repo s repo = with_recover (check_repo s repo) (\<lambda>p. ret None)"

text \<open>
  The handler a worker runs for one repository: the flag says that the rate limit was hit
  earlier in this cycle. \<open>run_once\<close> is the cycle with one worker; \<open>WorkerPool\<close> has the
  interleavings of more.
\<close>

definition scan_job :: "'w scanner \<Rightarrow> string \<Rightarrow> bool \<Rightarrow> ('w, bool) io" where
  "scan_job s repo rate_limit_hit =
     (if rate_limit_hit then ret rate_limit_hit else
      call (safe_check_repo s repo) (\<lambda>r. case r of
        Some err \<Rightarrow> if errors_is err ErrRateLimited then ret True else ret rate_limit_hit
      | None \<Rightarrow> ret rate_limit_hit))"

definition run_once :: "'w scanner \<Rightarrow> ('w, unit) io" where
  "run_once s =
     call (rp_distinct_confirmed_repos (sc_repo s)) (\<lambda>r. case r of
       Inl err \<Rightarrow> ret ()
     | Inr repos \<Rightarrow> call (for_each repos (scan_job s) False) (\<lambda>_. ret ()))"

section \<open>What a scan may do\<close>

type_synonym system = "db \<times> bus"

type_synonym mail_pred = "string \<Rightarrow> string \<Rightarrow> string \<Rightarrow> string \<Rightarrow> email_command \<Rightarrow> bool"

text \<open>A stored message that announces \<open>tag\<close> of \<open>repo\<close> to the subscription \<open>s\<close>.\<close>

definition announcement :: "mail_pred \<Rightarrow> string \<Rightarrow> string \<Rightarrow> subscription \<Rightarrow> stored \<Rightarrow> bool" where
  "announcement mail repo tag s m \<longleftrightarrow>
     sm_subject m = subject_release \<and> sm_id m = release_dedup_id repo tag (sub_email s) \<and>
     (\<exists>cmd. mail (sub_email s) repo tag (sub_unsubscribe_token s) cmd \<and> sm_data m = marshal_command cmd)"

definition announces :: "mail_pred \<Rightarrow> string \<Rightarrow> string \<Rightarrow> subscription set \<Rightarrow> bus \<Rightarrow> bus \<Rightarrow> bool" where
  "announces mail repo tag A b b' \<longleftrightarrow>
     bus_window b' = bus_window b \<and> bus_now b \<le> bus_now b' \<and>
     (\<exists>ms. bus_msgs b' = bus_msgs b @ ms \<and> (\<forall>m \<in> set ms. \<exists>s \<in> A. announcement mail repo tag s m))"

definition last_tag :: "db \<Rightarrow> string \<Rightarrow> string option" where
  "last_tag d repo = map_option last_seen_tag (List.find (\<lambda>w. watched_name w = repo) (watched d))"

definition followers :: "db \<Rightarrow> string \<Rightarrow> subscription set" where
  "followers d repo = {s \<in> set (subs d). sub_repo s = repo \<and> sub_confirmed s}"

text \<open>
  The three things a check may do: nothing; record a tag that is not new (or the first one);
  announce a new tag to followers and, if every follower was served, record it.
\<close>

definition records_known :: "string \<Rightarrow> string \<Rightarrow> system \<Rightarrow> system \<Rightarrow> bool" where
  "records_known repo tag x x' \<longleftrightarrow>
     tag \<noteq> [] \<and> last_tag (fst x) repo \<in> {None, Some tag} \<and> saves_tag repo tag (fst x) (fst x') \<and>
     idles (snd x) (snd x')"

definition announces_new :: "mail_pred \<Rightarrow> string \<Rightarrow> string \<Rightarrow> system \<Rightarrow> system \<Rightarrow> bool" where
  "announces_new mail repo tag x x' \<longleftrightarrow>
     tag \<noteq> [] \<and> last_tag (fst x) repo \<notin> {None, Some tag} \<and>
     announces mail repo tag (followers (fst x) repo) (snd x) (snd x') \<and>
     (fst x' = fst x \<or>
      saves_tag repo tag (fst x) (fst x') \<and>
      (\<forall>s \<in> followers (fst x) repo.
         holds_recent (release_dedup_id repo tag (sub_email s)) (bus_now (snd x)) (snd x')))"

definition checked :: "mail_pred \<Rightarrow> string \<Rightarrow> system \<Rightarrow> system \<Rightarrow> bool" where
  "checked mail repo x x' \<longleftrightarrow>
     fst x' = fst x \<and> idles (snd x) (snd x') \<or>
     (\<exists>tag. records_known repo tag x x' \<or> announces_new mail repo tag x x')"

definition check_contract :: "mail_pred \<Rightarrow> string \<Rightarrow> (system, error option) contract" where
  "check_contract mail repo x r x' \<longleftrightarrow>
     checked mail repo x x' \<and>
     (\<forall>e. r = Return (Some e) \<longrightarrow> errors_is e ErrRateLimited \<longrightarrow> fst x' = fst x \<and> idles (snd x) (snd x'))"


lemma check_silent: "fst x' = fst x \<Longrightarrow> idles (snd x) (snd x') \<Longrightarrow> check_contract mail repo x r x'"
  by (simp add: check_contract_def checked_def)

section \<open>What the scanner relies on\<close>

locale scanner_env =
  fixes s :: "'w scanner" and tables :: "'w \<Rightarrow> db" and bus :: "'w \<Rightarrow> bus" and mail :: mail_pred
  assumes distinct_repos: "meets tables (rp_distinct_confirmed_repos (sc_repo s))
      (query (\<lambda>d cs. distinct cs \<and> set cs = sub_repo ` {s \<in> set (subs d). sub_confirmed s}) (\<lambda>_. False))"
    and idle_distinct_repos: "meets bus (rp_distinct_confirmed_repos (sc_repo s)) (\<lambda>b r b'. idles b b')"
    and confirmed_by_repo: "meets tables (rp_confirmed_by_repo (sc_repo s) repo)
      (query (\<lambda>d rows. mset rows = mset (filter (\<lambda>s. sub_repo s = repo \<and> sub_confirmed s) (subs d)))
        (\<lambda>_. False))"
    and get_watched: "meets tables (rp_get_watched (sc_repo s) repo)
      (query (\<lambda>d. finds (\<lambda>w. watched_name w = repo) (watched d)) (\<lambda>_. False))"
    and save_tag: "meets tables (rp_save_tag (sc_repo s) repo tag) (perform (saves_tag repo tag))"
    and fetch: "keeps tables (sc_github s owner name)"
    and send: "keeps tables (sc_notifier s email repo tag ut)"
    and idle_confirmed_by_repo: "meets bus (rp_confirmed_by_repo (sc_repo s) repo) (\<lambda>b r b'. idles b b')"
    and idle_get_watched: "meets bus (rp_get_watched (sc_repo s) repo) (\<lambda>b r b'. idles b b')"
    and idle_save_tag: "meets bus (rp_save_tag (sc_repo s) repo tag) (\<lambda>b r b'. idles b b')"
    and idle_fetch: "meets bus (sc_github s owner name) (\<lambda>b r b'. idles b b')"
    and notifies: "meets bus (sc_notifier s email repo tag ut)
      (send_contract subject_release (release_dedup_id repo tag email) (mail email repo tag ut))"

lemma idles_refl [simp]: "idles b b"
  by (simp add: idles_def)

lemma announces_refl [simp]: "announces mail repo tag A b b"
  by (simp add: announces_def)

lemma idles_announces: "idles b b' \<Longrightarrow> announces mail repo tag A b b'"
  by (auto simp: idles_def announces_def)

lemma announces_trans:
  "announces mail repo tag A b b1 \<Longrightarrow> announces mail repo tag A b1 b' \<Longrightarrow> announces mail repo tag A b b'"
  by (fastforce simp: announces_def)

lemma accepts_announces:
  "accepts subject_release (marshal_command cmd) (release_dedup_id repo tag (sub_email s)) b b' \<Longrightarrow>
   mail (sub_email s) repo tag (sub_unsubscribe_token s) cmd \<Longrightarrow> s \<in> A \<Longrightarrow> announces mail repo tag A b b'"
proof -
  assume a: "accepts subject_release (marshal_command cmd) (release_dedup_id repo tag (sub_email s)) b b'"
    and "mail (sub_email s) repo tag (sub_unsubscribe_token s) cmd" "s \<in> A"
  from a obtain t where "bus_window b' = bus_window b" "bus_now b \<le> t" "t \<le> bus_now b'"
    and "bus_msgs b' = bus_msgs b \<or> bus_msgs b' = bus_msgs b @ [\<lparr>sm_subject = subject_release,
      sm_data = marshal_command cmd, sm_id = release_dedup_id repo tag (sub_email s), sm_time = t\<rparr>]"
    by (auto simp: accepts_def split: if_splits)
  moreover have "announcement mail repo tag s \<lparr>sm_subject = subject_release,
      sm_data = marshal_command cmd, sm_id = release_dedup_id repo tag (sub_email s), sm_time = t\<rparr>"
    using \<open>mail _ _ _ _ cmd\<close> by (auto simp: announcement_def)
  ultimately show ?thesis using \<open>s \<in> A\<close> unfolding announces_def by auto
qed

lemma holds_recent_mono:
  "holds_recent i t b \<Longrightarrow> announces mail repo tag A b b' \<Longrightarrow> holds_recent i t b'"
  by (auto simp: holds_recent_def announces_def)

lemma holds_recent_earlier: "holds_recent i t b \<Longrightarrow> t' \<le> t \<Longrightarrow> holds_recent i t' b"
  by (fastforce simp: holds_recent_def)

text \<open>One send, as an announcement.\<close>

lemma send_announces:
  assumes "send_contract subject_release (release_dedup_id repo tag (sub_email s))
      (mail (sub_email s) repo tag (sub_unsubscribe_token s)) b r b'" and "s \<in> A"
  shows "announces mail repo tag A b b'"
  using assms
  by (auto simp: send_contract_def intro: idles_announces accepts_announces
      split: outcome.splits option.splits)

lemma send_holds:
  assumes "send_contract subj i P b (Return None) b'" and "0 < bus_window b"
  shows "holds_recent i (bus_now b) b'"
  using assms by (auto simp: send_contract_def intro: accepts_holds)

text \<open>The send loop announces to every row, and says truly whether all were served.\<close>

definition sent_to ::
  "mail_pred \<Rightarrow> string \<Rightarrow> string \<Rightarrow> subscription set \<Rightarrow> subscription set \<Rightarrow> bool \<Rightarrow> system \<Rightarrow> system \<Rightarrow> bool" where
  "sent_to mail repo tag A S ok x x' \<longleftrightarrow> fst x' = fst x \<and> announces mail repo tag A (snd x) (snd x') \<and>
     (ok \<longrightarrow> 0 < bus_window (snd x) \<longrightarrow>
       (\<forall>s \<in> S. holds_recent (release_dedup_id repo tag (sub_email s)) (bus_now (snd x)) (snd x')))"

lemma sent_to_none: "sent_to mail repo tag A {} ok x x"
  by (simp add: sent_to_def)

lemma sent_to_step:
  assumes i: "sent_to mail repo tag A S ok x x1" and "fst x2 = fst x1" and s: "s \<in> A"
    and c: "send_contract subject_release (release_dedup_id repo tag (sub_email s))
      (mail (sub_email s) repo tag (sub_unsubscribe_token s)) (snd x1) r (snd x2)"
  shows "sent_to mail repo tag A (insert s S) (ok \<and> r = Return None) x x2"
proof -
  have a: "announces mail repo tag A (snd x1) (snd x2)" using c s by (rule send_announces)
  from i have a1: "announces mail repo tag A (snd x) (snd x1)" by (simp add: sent_to_def)
  then have w: "bus_window (snd x1) = bus_window (snd x)" "bus_now (snd x) \<le> bus_now (snd x1)"
    by (simp_all add: announces_def)
  have "holds_recent (release_dedup_id repo tag (sub_email s)) (bus_now (snd x)) (snd x2)"
    if "r = Return None" "0 < bus_window (snd x)"
    using send_holds [OF c [unfolded that(1)]] w that(2) by (auto intro: holds_recent_earlier)
  with i a assms(2) announces_trans [OF a1 a] show ?thesis
    by (auto simp: sent_to_def intro: holds_recent_mono)
qed

lemma sent_to_less: "sent_to mail repo tag A S ok x x' \<Longrightarrow> (ok' \<Longrightarrow> ok) \<Longrightarrow> S' \<subseteq> S \<Longrightarrow> sent_to mail repo tag A S' ok' x x'"
  by (auto simp: sent_to_def)

definition mailed :: "mail_pred \<Rightarrow> string \<Rightarrow> string \<Rightarrow> subscription set \<Rightarrow> (system, error option) contract" where
  "mailed mail repo tag A x r x' \<longleftrightarrow> (\<forall>e. r \<noteq> Return (Some e)) \<and> announces mail repo tag A (snd x) (snd x') \<and>
     (fst x' = fst x \<or> saves_tag repo tag (fst x) (fst x') \<and>
        (0 < bus_window (snd x) \<longrightarrow>
          (\<forall>s \<in> A. holds_recent (release_dedup_id repo tag (sub_email s)) (bus_now (snd x)) (snd x'))))"

lemma mailed_unsaved:
  "sent_to mail repo tag A S ok x x' \<Longrightarrow> \<forall>e. r \<noteq> Return (Some e) \<Longrightarrow> mailed mail repo tag A x r x'"
  by (simp add: sent_to_def mailed_def)

lemma mailed_saved:
  assumes "sent_to mail repo tag A A True x x1"
    and "fst x2 = fst x1 \<or> saves_tag repo tag (fst x1) (fst x2)" and "idles (snd x1) (snd x2)"
    and "\<forall>e. r \<noteq> Return (Some e)"
  shows "mailed mail repo tag A x r x2"
proof -
  have a: "announces mail repo tag A (snd x1) (snd x2)" using assms(3) by (rule idles_announces)
  from assms(1,2,4) announces_trans [OF _ a] show ?thesis
    unfolding sent_to_def mailed_def by (auto intro: holds_recent_mono [OF _ a])
qed

lemma check_known:
  assumes "fst x1 = fst x" "idles (snd x) (snd x1)" and "tag \<noteq> []" "last_tag (fst x) repo \<in> {None, Some tag}"
    and "perform (saves_tag repo tag) (fst x1) r (fst x')" and "idles (snd x1) (snd x')"
  shows "check_contract mail repo x r x'"
proof -
  have i: "idles (snd x) (snd x')" using assms(2,6) by (rule idles_idles)
  have "fst x' = fst x \<or> records_known repo tag x x'"
    using assms i by (auto simp: perform_def records_known_def split: outcome.splits option.splits)
  moreover have "\<forall>e. r = Return (Some e) \<longrightarrow> \<not> errors_is e ErrRateLimited"
    using assms(5) by (auto simp: perform_def)
  ultimately show ?thesis using i unfolding check_contract_def checked_def by blast
qed

lemma check_mailed:
  assumes "fst x1 = fst x" "idles (snd x) (snd x1)" and "tag \<noteq> []" "last_tag (fst x) repo \<notin> {None, Some tag}"
    and "mailed mail repo tag (followers (fst x) repo) x1 r x'" and "0 < bus_window (snd x)"
  shows "check_contract mail repo x r x'"
proof -
  have "announces mail repo tag (followers (fst x) repo) (snd x) (snd x')"
    using announces_trans [OF idles_announces [OF assms(2)]] assms(5) by (simp add: mailed_def)
  moreover have "bus_window (snd x1) = bus_window (snd x)" "bus_now (snd x) \<le> bus_now (snd x1)"
    using assms(2) by (simp_all add: idles_def)
  ultimately have "announces_new mail repo tag x x'"
    using assms unfolding announces_new_def mailed_def by (auto intro: holds_recent_earlier)
  with assms(5) show ?thesis unfolding check_contract_def checked_def mailed_def by blast
qed

context scanner_env
begin

abbreviation sys :: "'w \<Rightarrow> system" where
  "sys w \<equiv> (tables w, bus w)"

lemmas scan_calls =
  run_ok_call [OF meets_both [OF confirmed_by_repo idle_confirmed_by_repo]]
  run_ok_call [OF meets_both [OF get_watched idle_get_watched]]
  run_ok_call [OF meets_both [OF save_tag idle_save_tag]]
  run_ok_call [OF meets_both [OF meets_keeps [OF fetch] idle_fetch]]

lemma send_all_meets:
  assumes rows: "\<forall>s \<in> set rows. sub_repo s = repo"
  shows "meets sys (send_all s tag rows)
    (\<lambda>x r x'. sent_to mail repo tag (set rows) (set rows) (r = Return True) x x')"
proof (rule meets_run_ok)
  fix w
  let ?I = "\<lambda>ys ok w'. sent_to mail repo tag (set rows) (set ys) ok (sys w) (sys w')"
  show "run_ok (send_all s tag rows)
      (\<lambda>r w'. sent_to mail repo tag (set rows) (set rows) (r = Return True) (sys w) (sys w')) w"
    unfolding send_all_def
  proof (rule run_ok_for_each [where I = ?I])
    fix ys x zs ok w1
    assume split: "rows = ys @ x # zs" and I: "?I ys ok w1"
    from split rows have x: "x \<in> set rows" "sub_repo x = repo" by auto
    have step: "sent_to mail repo tag (set rows) (set (ys @ [x])) (ok \<and> r = Return None) (sys w) (sys w2)"
      if "fst (sys w2) = fst (sys w1)" and "send_contract subject_release (release_dedup_id repo tag (sub_email x))
        (mail (sub_email x) repo tag (sub_unsubscribe_token x)) (snd (sys w1)) r (snd (sys w2))" for r w2
      using sent_to_step [OF I that(1) x(1) that(2)] by simp
    show "run_ok (call (sc_notifier s (sub_email x) (sub_repo x) tag (sub_unsubscribe_token x))
        (\<lambda>r. case r of None \<Rightarrow> ret ok | Some err \<Rightarrow> ret False))
      (\<lambda>r w'. case r of Return ok' \<Rightarrow> ?I (ys @ [x]) ok' w'
         | Panic p \<Rightarrow> sent_to mail repo tag (set rows) (set rows) (Panic p = Return True) (sys w) (sys w')) w1"
      unfolding x(2)
    proof (rule run_ok_call [OF meets_both [OF meets_keeps [OF send] notifies]], goal_cases)
      case (1 p w2)
      with step [of w2 "Panic p"] show ?case by (auto simp: sent_to_def)
    next
      case (2 a w2)
      with step [of w2 "Return a"] show ?case by (cases a) auto
    qed
  qed (auto simp: sent_to_none)
qed

text \<open>A whole check, call by call.\<close>

lemma last_tag_finds:
  "watched_keys d \<Longrightarrow> finds (\<lambda>w. watched_name w = repo) (watched d) seen \<Longrightarrow>
   last_tag d repo = map_option last_seen_tag seen"
  by (cases seen) (auto simp: last_tag_def watched_keys_def find_key_eq find_None_iff)

lemma rows_followers:
  assumes "mset rows = mset (filter (\<lambda>s. sub_repo s = repo \<and> sub_confirmed s) (subs d))"
  shows "set rows = followers d repo"
  using arg_cong [OF assms, of set_mset] by (auto simp: followers_def)

lemma mailed_meets:
  assumes "\<forall>s \<in> set rows. sub_repo s = repo"
  shows "meets sys (call (send_all s tag rows) (\<lambda>all_sent. if \<not> all_sent then ret None
       else call (rp_save_tag (sc_repo s) repo tag) (\<lambda>r. ret None))) (mailed mail repo tag (set rows))"
proof (rule meets_run_ok, rule run_ok_call [OF send_all_meets [OF assms]])
  fix w ok w1
  assume sent: "sent_to mail repo tag (set rows) (set rows) (Return ok = Return True) (sys w) (sys w1)"
  show "run_ok (if \<not> ok then ret None else call (rp_save_tag (sc_repo s) repo tag) (\<lambda>r. ret None))
      (\<lambda>r w'. mailed mail repo tag (set rows) (sys w) r (sys w')) w1"
  proof (cases ok)
    case True
    with sent have s: "sent_to mail repo tag (set rows) (set rows) True (sys w) (sys w1)" by simp
    show ?thesis
      using True mailed_saved [OF s]
      by (auto intro!: scan_calls simp: perform_def split: option.splits)
  qed (use sent in \<open>auto intro: mailed_unsaved\<close>)
qed (auto intro: mailed_unsaved)

text \<open>Nothing has changed so far; what is left to show of a run.\<close>

abbreviation unchanged :: "'w \<Rightarrow> 'w \<Rightarrow> bool" where
  "unchanged w w1 \<equiv> tables w1 = tables w \<and> idles (bus w) (bus w1)"

abbreviation scan_ok :: "string \<Rightarrow> 'w \<Rightarrow> error option outcome \<Rightarrow> 'w \<Rightarrow> bool" where
  "scan_ok repo w r w' \<equiv> watched_keys (tables w) \<longrightarrow> 0 < bus_window (bus w) \<longrightarrow>
     check_contract mail repo (sys w) r (sys w')"

lemma silent_ok: "unchanged w w1 \<Longrightarrow> scan_ok repo w r w1"
  by (simp add: check_silent)

lemma known_ok:
  assumes "unchanged w w1" and "tag \<noteq> []"
    and "watched_keys (tables w) \<longrightarrow> last_tag (tables w) repo \<in> {None, Some tag}"
  shows "run_ok (rp_save_tag (sc_repo s) repo tag) (scan_ok repo w) w1"
  by (rule run_ok_meets [OF meets_both [OF save_tag idle_save_tag]])
     (use assms in \<open>auto intro!: check_known [of "sys w1" "sys w"]\<close>)

lemma fresh_ok:
  assumes w1: "unchanged w w1" and tag: "tag \<noteq> []"
    and new: "watched_keys (tables w) \<longrightarrow> last_tag (tables w) repo \<notin> {None, Some tag}"
  shows "run_ok (call (rp_confirmed_by_repo (sc_repo s) repo) (\<lambda>r. case r of Inl err \<Rightarrow> ret (Some err)
      | Inr rows \<Rightarrow> call (send_all s tag rows) (\<lambda>all_sent. if \<not> all_sent then ret None
          else call (rp_save_tag (sc_repo s) repo tag) (\<lambda>r. ret None)))) (scan_ok repo w) w1"
proof (rule run_ok_call [OF meets_both [OF confirmed_by_repo idle_confirmed_by_repo]], goal_cases)
  case (1 p w2)
  with w1 show ?case by (intro silent_ok) (auto simp: query_def intro: idles_idles)
next
  case (2 a w2)
  then have w2: "unchanged w w2" using w1 by (auto simp: query_def intro: idles_idles)
  show ?case
  proof (cases a)
    case (Inl e)
    then show ?thesis using silent_ok [OF w2] by simp
  next
    case (Inr rows)
    with 2 w1 have rows: "set rows = followers (tables w) repo"
      by (auto simp: query_def intro!: rows_followers)
    then have "\<forall>s \<in> set rows. sub_repo s = repo" by (auto simp: followers_def)
    from mailed_meets [OF this] show ?thesis
      unfolding Inr sum.case
    proof (rule run_ok_meets)
      show "scan_ok repo w r w3" if "mailed mail repo tag (set rows) (sys w2) r (sys w3)" for r w3
        using that tag new w2 rows by (auto intro!: check_mailed [of "sys w2" "sys w"])
    qed
  qed
qed

lemma decide_ok:
  assumes w1: "unchanged w w1" and tag: "tag \<noteq> []"
  shows "run_ok (call (rp_get_watched (sc_repo s) repo) (\<lambda>r. case r of Inl err \<Rightarrow> ret (Some err)
      | Inr seen \<Rightarrow>
          if (case seen of None \<Rightarrow> True | Some x \<Rightarrow> \<not> is_new_release x tag)
          then rp_save_tag (sc_repo s) repo tag
          else call (rp_confirmed_by_repo (sc_repo s) repo) (\<lambda>r. case r of Inl err \<Rightarrow> ret (Some err)
            | Inr rows \<Rightarrow> call (send_all s tag rows) (\<lambda>all_sent. if \<not> all_sent then ret None
                else call (rp_save_tag (sc_repo s) repo tag) (\<lambda>r. ret None))))) (scan_ok repo w) w1"
proof (rule run_ok_call [OF meets_both [OF get_watched idle_get_watched]], goal_cases)
  case (1 p w2)
  with w1 show ?case by (intro silent_ok) (auto simp: query_def intro: idles_idles)
next
  case (2 x w2)
  then have w2: "unchanged w w2" using w1 by (auto simp: query_def intro: idles_idles)
  show ?case
  proof (cases x)
    case (Inl e)
    then show ?thesis using silent_ok [OF w2] by simp
  next
    case (Inr seen)
    with 2 w1 have "finds (\<lambda>w. watched_name w = repo) (watched (tables w)) seen"
      by (auto simp: query_def)
    then have "watched_keys (tables w) \<longrightarrow> last_tag (tables w) repo = map_option last_seen_tag seen"
      using last_tag_finds by blast
    with Inr tag known_ok [OF w2 tag] fresh_ok [OF w2 tag] show ?thesis
      by (cases seen) (auto simp: is_new_release_def)
  qed
qed

lemma check_repo_ok: "run_ok (check_repo s repo) (scan_ok repo w) w"
proof (cases "length (split_n 2 ''/'' repo) = 2")
  case False
  then have "check_repo s repo = ret (Some (Sentinel ErrInvalidRepoFormat))"
    by (auto simp: check_repo_def split: list.split)
  with silent_ok [of w w] show ?thesis by simp
next
  case True
  then obtain owner name where two: "split_n 2 ''/'' repo = [owner, name]"
    by (auto simp: length_Suc_conv numeral_2_eq_2)
  show ?thesis
    unfolding check_repo_def two list.case
  proof (rule run_ok_call [OF meets_both [OF meets_keeps [OF fetch] idle_fetch]], goal_cases)
    case (1 p w1)
    then show ?case by (intro silent_ok) auto
  next
    case (2 a w1)
    then have w1: "unchanged w w1" by auto
    show ?case
    proof (cases a)
      case (Inl e)
      then show ?thesis using silent_ok [OF w1] by simp
    next
      case (Inr tag)
      then show ?thesis using silent_ok [OF w1] decide_ok [OF w1] by (cases "tag = []") simp_all
    qed
  qed
qed

lemma check_repo_meets:
  "meets sys (check_repo s repo)
     (\<lambda>x r x'. watched_keys (fst x) \<longrightarrow> 0 < bus_window (snd x) \<longrightarrow> check_contract mail repo x r x')"
  by (rule meets_run_ok) (use check_repo_ok in simp)

text \<open>With the recovery, a check never panics, and what it may do is the same.\<close>

lemma safe_check_repo_meets:
  "meets sys (safe_check_repo s repo)
     (\<lambda>x r x'. (\<exists>e. r = Return e) \<and>
        (watched_keys (fst x) \<longrightarrow> 0 < bus_window (snd x) \<longrightarrow> check_contract mail repo x r x'))"
proof (rule meetsI)
  fix w r w'
  assume run: "safe_check_repo s repo w = (r, w')"
  obtain r1 w1 where body: "check_repo s repo w = (r1, w1)" by fastforce
  from meetsD [OF check_repo_meets body]
  have c: "watched_keys (tables w) \<longrightarrow> 0 < bus_window (bus w) \<longrightarrow> check_contract mail repo (sys w) r1 (sys w1)"
    by simp
  from run body have "r = (case r1 of Return e \<Rightarrow> Return e | Panic p \<Rightarrow> Return None)" "w' = w1"
    by (auto simp: safe_check_repo_def with_recover_def split: outcome.splits)
  with c show "(\<exists>e. r = Return e) \<and> (watched_keys (fst (sys w)) \<longrightarrow> 0 < bus_window (snd (sys w)) \<longrightarrow>
      check_contract mail repo (sys w) r (sys w'))"
    by (cases r1) (auto simp: check_contract_def)
qed

end

section \<open>Consequences\<close>

text \<open>The tables a check may leave: only the scanned repository's cursor moves, to the tag found.\<close>

lemma saves_tag_frame:
  "saves_tag repo tag d d' \<Longrightarrow> subs d' = subs d \<and> toks d' = toks d"
  by (auto simp: saves_tag_def upserts_watched_def upsert_watched_def split: if_splits)

lemma saves_tag_schema: "saves_tag repo tag d d' \<Longrightarrow> schema_ok d \<Longrightarrow> schema_ok d'"
  unfolding saves_tag_def by (erule upserts_watched_schema) simp_all

lemma find_map_keep:
  assumes "\<And>x. f (u x) = f x"
  shows "List.find (\<lambda>x. f x = k) (map u xs) = map_option u (List.find (\<lambda>x. f x = k) xs)"
  by (induction xs) (simp_all add: assms)

lemma find_append:
  "List.find P (xs @ ys) = (case List.find P xs of None \<Rightarrow> List.find P ys | Some x \<Rightarrow> Some x)"
  by (induction xs) auto

lemma saves_tag_last_tag:
  assumes "saves_tag repo tag d d'"
  shows "last_tag d' other = (if other = repo then Some tag else last_tag d other)"
proof -
  obtain now where d': "d' = upsert_watched (zero_watched\<lparr>watched_name := repo, last_seen_tag := tag\<rparr>)
      (\<lambda>now w. w\<lparr>last_seen_tag := tag, last_polled_at := now\<rparr>) now d"
    using assms by (auto simp: saves_tag_def upserts_watched_def)
  show ?thesis
  proof (cases "repo \<in> watched_name ` set (watched d)")
    case True
    then obtain x where x: "List.find (\<lambda>w. watched_name w = repo) (watched d) = Some x"
      by (cases "List.find (\<lambda>w. watched_name w = repo) (watched d)") (auto simp: find_None_iff)
    have f: "List.find (\<lambda>w. watched_name w = other) (watched d') =
        map_option (\<lambda>r. if watched_name r = repo then r\<lparr>last_seen_tag := tag, last_polled_at := now\<rparr> else r)
          (List.find (\<lambda>w. watched_name w = other) (watched d))"
      using True by (simp add: d' upsert_watched_def find_map_keep)
    have n: "List.find (\<lambda>w. watched_name w = other) (watched d) = Some y \<Longrightarrow> watched_name y = other" for y
      by (auto simp: find_Some_iff)
    show ?thesis
    proof (cases "List.find (\<lambda>w. watched_name w = other) (watched d)")
      case None
      with f x show ?thesis by (auto simp: last_tag_def)
    next
      case (Some y)
      with n [OF Some] f show ?thesis by (simp add: last_tag_def)
    qed
  next
    case False
    then have "List.find (\<lambda>w. watched_name w = repo) (watched d) = None"
      by (auto simp: find_None_iff)
    with False show ?thesis by (auto simp: last_tag_def d' upsert_watched_def find_append split: option.split)
  qed
qed

lemma checked_frame:
  "checked mail repo x x' \<Longrightarrow> subs (fst x') = subs (fst x) \<and> toks (fst x') = toks (fst x)"
  by (auto simp: checked_def records_known_def announces_new_def dest: saves_tag_frame)

lemma checked_schema: "checked mail repo x x' \<Longrightarrow> schema_ok (fst x) \<Longrightarrow> schema_ok (fst x')"
  by (auto simp: checked_def records_known_def announces_new_def intro: saves_tag_schema)

lemma checked_others:
  "checked mail repo x x' \<Longrightarrow> other \<noteq> repo \<Longrightarrow> last_tag (fst x') other = last_tag (fst x) other"
  by (auto simp: checked_def records_known_def announces_new_def saves_tag_last_tag)

lemma checked_bus:
  "checked mail repo x x' \<Longrightarrow> \<exists>tag. announces mail repo tag (followers (fst x) repo) (snd x) (snd x')"
  by (auto simp: checked_def records_known_def announces_new_def intro: idles_announces)

text \<open>The first sighting of a repository is silent, and so is a tag that is not new.\<close>

lemma checked_first_sighting:
  "checked mail repo x x' \<Longrightarrow> last_tag (fst x) repo = None \<Longrightarrow> bus_msgs (snd x') = bus_msgs (snd x)"
  by (auto simp: checked_def records_known_def announces_new_def idles_def)

text \<open>The cursor of a known repository moves only when every follower was served.\<close>

lemma checked_cursor:
  assumes "checked mail repo x x'" and "last_tag (fst x) repo = Some old"
    and "last_tag (fst x') repo \<noteq> Some old"
  shows "\<exists>tag. last_tag (fst x') repo = Some tag \<and>
    (\<forall>s \<in> followers (fst x) repo.
       holds_recent (release_dedup_id repo tag (sub_email s)) (bus_now (snd x)) (snd x'))"
  using assms by (auto simp: checked_def records_known_def announces_new_def saves_tag_last_tag)

section \<open>A whole cycle\<close>

text \<open>Any number of checks, of any repositories.\<close>

definition scans :: "mail_pred \<Rightarrow> system \<Rightarrow> system \<Rightarrow> bool" where
  "scans mail = (\<lambda>x x'. (\<exists>repo. checked mail repo x x'))\<^sup>*\<^sup>*"

lemma scans_refl [simp]: "scans mail x x"
  by (simp add: scans_def)

lemma scans_step: "scans mail x x1 \<Longrightarrow> checked mail repo x1 x' \<Longrightarrow> scans mail x x'"
  unfolding scans_def by (rule rtranclp.rtrancl_into_rtrancl) auto

lemma checked_window: "checked mail repo x x' \<Longrightarrow> bus_window (snd x') = bus_window (snd x)"
  using checked_bus [of mail repo x x'] by (auto simp: announces_def)

lemma scans_keep:
  assumes "scans mail x x'"
  shows "subs (fst x') = subs (fst x)" and "toks (fst x') = toks (fst x)"
    and "schema_ok (fst x) \<Longrightarrow> schema_ok (fst x')" and "bus_window (snd x') = bus_window (snd x)"
  using assms unfolding scans_def
  by (induction rule: rtranclp_induct) (auto dest: checked_frame checked_schema checked_window)

text \<open>Every message a cycle adds announces a release to someone who follows the repository.\<close>

lemma scans_messages:
  assumes "scans mail x x'"
  shows "\<exists>ms. bus_msgs (snd x') = bus_msgs (snd x) @ ms \<and>
    (\<forall>m \<in> set ms. \<exists>repo tag. \<exists>s \<in> followers (fst x) repo. announcement mail repo tag s m)"
  using assms unfolding scans_def
proof (induction rule: rtranclp_induct)
  case (step y z)
  from step(1) have "followers (fst y) repo = followers (fst x) repo" for repo
    using scans_keep(1) [unfolded scans_def] by (simp add: followers_def)
  moreover from step(2) obtain repo tag where "announces mail repo tag (followers (fst y) repo) (snd y) (snd z)"
    using checked_bus by blast
  ultimately show ?case using step(3) unfolding announces_def by fastforce
qed simp

context scanner_env
begin

lemma scan_job_meets:
  "meets sys (scan_job s repo hit)
     (\<lambda>x r x'. (\<exists>b. r = Return b) \<and>
        (watched_keys (fst x) \<longrightarrow> 0 < bus_window (snd x) \<longrightarrow> checked mail repo x x'))"
  unfolding scan_job_def
  by (rule meets_run_ok)
     (auto intro!: run_ok_call [OF safe_check_repo_meets] simp: check_contract_def checked_def [of _ _ "(a, b)" "(a, b)" for a b]
        split: option.split)

lemma scan_loop_ok:
  assumes "schema_ok (tables w)" and "0 < bus_window (bus w)" and w1: "scans mail (sys w) (sys w1)"
  shows "run_ok (for_each repos (scan_job s) False) (\<lambda>r w'. (\<exists>b. r = Return b) \<and> scans mail (sys w) (sys w')) w1"
proof (rule run_ok_for_each [where I = "\<lambda>ys hit w'. scans mail (sys w) (sys w')"])
  fix ys x zs hit w2
  assume w2: "scans mail (sys w) (sys w2)"
  with assms(1,2) have "watched_keys (tables w2)" "0 < bus_window (bus w2)"
    using scans_keep [OF w2] by (simp_all add: schema_ok_def)
  then show "run_ok (scan_job s x hit) (\<lambda>r w'. case r of Return hit' \<Rightarrow> scans mail (sys w) (sys w')
      | Panic p \<Rightarrow> (\<exists>b. Panic p = Return b) \<and> scans mail (sys w) (sys w')) w2"
    by (intro run_ok_meets [OF scan_job_meets]) (auto intro: scans_step [OF w2])
qed (use w1 in auto)

lemma idle_scans: "unchanged w w1 \<Longrightarrow> scans mail (sys w) (sys w1)"
  by (rule scans_step [OF scans_refl]) (simp add: checked_def)

lemma run_once_meets:
  "meets sys (run_once s)
     (\<lambda>x r x'. schema_ok (fst x) \<longrightarrow> 0 < bus_window (snd x) \<longrightarrow> scans mail x x')"
  unfolding run_once_def
proof (rule meets_run_ok, rule run_ok_call [OF meets_both [OF distinct_repos idle_distinct_repos]], goal_cases)
  case (1 w p w1)
  then have "unchanged w w1" by (simp add: query_def)
  then show ?case using idle_scans by blast
next
  case (2 w a w1)
  then have w1: "scans mail (sys w) (sys w1)" by (intro idle_scans) (simp add: query_def)
  show ?case
  proof (cases a)
    case (Inl e)
    with w1 show ?thesis by simp
  next
    case (Inr repos)
    show ?thesis
      using scan_loop_ok [OF _ _ w1, of repos]
      unfolding Inr sum.case run_ok_def call_def
      by (auto split: prod.splits outcome.splits)
  qed
qed

text \<open>The deduplication of the stream is kept by a cycle, whatever fails in it.\<close>

lemma bus_ok_calls [keep_rules]:
  "maintains (\<lambda>w. bus_ok (bus w)) (rp_distinct_confirmed_repos (sc_repo s))"
  "maintains (\<lambda>w. bus_ok (bus w)) (rp_confirmed_by_repo (sc_repo s) repo)"
  "maintains (\<lambda>w. bus_ok (bus w)) (rp_get_watched (sc_repo s) repo)"
  "maintains (\<lambda>w. bus_ok (bus w)) (rp_save_tag (sc_repo s) repo tag)"
  "maintains (\<lambda>w. bus_ok (bus w)) (sc_github s owner name)"
  "maintains (\<lambda>w. bus_ok (bus w)) (sc_notifier s email repo tag ut)"
  by (rule meets_maintains, rule idle_distinct_repos idle_confirmed_by_repo idle_get_watched
      idle_save_tag idle_fetch notifies, blast intro: idles_bus_ok send_bus_ok)+

lemma check_repo_bus_ok: "maintains (\<lambda>w. bus_ok (bus w)) (check_repo s repo)"
  by (auto simp: check_repo_def send_all_def intro!: keep_rules split: sum.split option.split list.split)

lemma run_once_bus_ok: "maintains (\<lambda>w. bus_ok (bus w)) (run_once s)"
  by (auto simp: run_once_def scan_job_def safe_check_repo_def
      intro!: keep_rules check_repo_bus_ok split: sum.split option.split)

end

end
