(* ===== verification/WorkerPool.thy ===== *)
theory WorkerPool imports Scanner begin

text \<open>
  \<open>internal/app/scanner/workerpool.go\<close> with the handler of \<open>runOnce\<close> in it: one dispatcher,
  up to \<open>size\<close> workers and the cancellation of the context, as a step relation. Every step is
  one action of one goroutine; any interleaving is a run.
\<close>

section \<open>States\<close>

text \<open>
  Where the dispatcher is: before the check of \<open>ctx.Err()\<close>, in the \<open>select\<close>, in
  \<open>wg.Wait()\<close>, back at the caller. \<open>Run\<close> returns at once when there are no jobs.
\<close>

datatype dispatcher = At_check | At_select | Waiting | Returned

text \<open>
  Where a worker is: about to read the rate-limit flag, in \<open>safeCheckRepo\<close>, out of the
  handler but holding its slot of \<open>sem\<close>, or with the slot given back and \<open>wg.Done\<close> to come.
\<close>

datatype worker = Starting | Checking | Leaving | Released

record pool =
  jobs_left :: "string list"
  dispatcher :: dispatcher
  workers :: "(string \<times> worker) multiset"
  finished :: "string list"
  cancelled :: bool
  rate_limit_hit :: bool
  checks_made :: "string list"

definition pool_start :: "string list \<Rightarrow> bool \<Rightarrow> pool" where
  "pool_start jobs c =
     \<lparr>jobs_left = jobs, dispatcher = (if jobs = [] then Returned else At_check), workers = {#},
      finished = [], cancelled = c, rate_limit_hit = False, checks_made = []\<rparr>"

text \<open>The slots of \<open>sem\<close> in use.\<close>

definition slots_used :: "pool \<Rightarrow> nat" where
  "slots_used p = size (filter_mset (\<lambda>w. snd w \<noteq> Released) (workers p))"

section \<open>Steps\<close>

inductive dispatch_step :: "nat \<Rightarrow> pool \<Rightarrow> pool \<Rightarrow> bool" for n where
  check_ok: "dispatcher p = At_check \<Longrightarrow> jobs_left p \<noteq> [] \<Longrightarrow> \<not> cancelled p \<Longrightarrow>
     dispatch_step n p (p\<lparr>dispatcher := At_select\<rparr>)"
| check_cancelled: "dispatcher p = At_check \<Longrightarrow> jobs_left p \<noteq> [] \<Longrightarrow> cancelled p \<Longrightarrow>
     dispatch_step n p (p\<lparr>dispatcher := Waiting\<rparr>)"
| no_more: "dispatcher p = At_check \<Longrightarrow> jobs_left p = [] \<Longrightarrow> dispatch_step n p (p\<lparr>dispatcher := Waiting\<rparr>)"
| select_slot: "dispatcher p = At_select \<Longrightarrow> jobs_left p = job # rest \<Longrightarrow> slots_used p < n \<Longrightarrow>
     dispatch_step n p (p\<lparr>jobs_left := rest, workers := add_mset (job, Starting) (workers p), dispatcher := At_check\<rparr>)"
| select_done: "dispatcher p = At_select \<Longrightarrow> cancelled p \<Longrightarrow> dispatch_step n p (p\<lparr>dispatcher := Waiting\<rparr>)"
| wait_over: "dispatcher p = Waiting \<Longrightarrow> workers p = {#} \<Longrightarrow> dispatch_step n p (p\<lparr>dispatcher := Returned\<rparr>)"

text \<open>
  The result of a check is one of three: fine (or an error that is logged), the rate limit.
  \<open>CompareAndSwap\<close> only decides who logs, so it is a plain set here.
\<close>

inductive worker_step :: "pool \<Rightarrow> pool \<Rightarrow> bool" where
  flag_seen: "workers p = add_mset (job, Starting) ws \<Longrightarrow> rate_limit_hit p \<Longrightarrow>
     worker_step p (p\<lparr>workers := add_mset (job, Leaving) ws\<rparr>)"
| begin_check: "workers p = add_mset (job, Starting) ws \<Longrightarrow> \<not> rate_limit_hit p \<Longrightarrow>
     worker_step p (p\<lparr>workers := add_mset (job, Checking) ws, checks_made := checks_made p @ [job]\<rparr>)"
| end_check: "workers p = add_mset (job, Checking) ws \<Longrightarrow>
     worker_step p (p\<lparr>workers := add_mset (job, Leaving) ws\<rparr>)"
| end_check_limited: "workers p = add_mset (job, Checking) ws \<Longrightarrow>
     worker_step p (p\<lparr>workers := add_mset (job, Leaving) ws, rate_limit_hit := True\<rparr>)"
| release: "workers p = add_mset (job, Leaving) ws \<Longrightarrow>
     worker_step p (p\<lparr>workers := add_mset (job, Released) ws\<rparr>)"
| wg_done: "workers p = add_mset (job, Released) ws \<Longrightarrow>
     worker_step p (p\<lparr>workers := ws, finished := finished p @ [job]\<rparr>)"

inductive cancel_step :: "pool \<Rightarrow> pool \<Rightarrow> bool" where
  cancel: "\<not> cancelled p \<Longrightarrow> cancel_step p (p\<lparr>cancelled := True\<rparr>)"

definition pool_step :: "nat \<Rightarrow> pool \<Rightarrow> pool \<Rightarrow> bool" where
  "pool_step n p p' \<longleftrightarrow> dispatch_step n p p' \<or> worker_step p p' \<or> cancel_step p p'"

definition pool_reaches :: "nat \<Rightarrow> pool \<Rightarrow> pool \<Rightarrow> bool" where
  "pool_reaches n = (pool_step n)\<^sup>*\<^sup>*"

inductive_cases dispatch_stepE: "dispatch_step n p p'"
inductive_cases worker_stepE: "worker_step p p'"
inductive_cases cancel_stepE: "cancel_step p p'"

lemma pool_reaches_refl [simp, intro]: "pool_reaches n p p"
  by (simp add: pool_reaches_def)

lemma pool_reaches_step: "pool_reaches n p q \<Longrightarrow> pool_step n q r \<Longrightarrow> pool_reaches n p r"
  unfolding pool_reaches_def by (rule rtranclp.rtrancl_into_rtrancl)

lemma pool_reaches_induct [consumes 1, case_names start step]:
  assumes "pool_reaches n p q" and "P p"
    and "\<And>q r. pool_reaches n p q \<Longrightarrow> pool_step n q r \<Longrightarrow> P q \<Longrightarrow> P r"
  shows "P q"
  using assms unfolding pool_reaches_def by (induction rule: rtranclp_induct) blast+

section \<open>The invariant\<close>

text \<open>
  Never more than \<open>n\<close> slots in use; no job lost or run twice; after the return nothing runs;
  a dispatcher that stopped early was cancelled; no repository is checked twice.
\<close>

definition pool_inv :: "nat \<Rightarrow> string list \<Rightarrow> pool \<Rightarrow> bool" where
  "pool_inv n jobs p \<longleftrightarrow>
     slots_used p \<le> n \<and>
     mset (jobs_left p) + image_mset fst (workers p) + mset (finished p) = mset jobs \<and>
     (dispatcher p = Returned \<longrightarrow> workers p = {#}) \<and>
     (dispatcher p = At_select \<longrightarrow> jobs_left p \<noteq> []) \<and>
     (dispatcher p \<in> {Waiting, Returned} \<longrightarrow> jobs_left p = [] \<or> cancelled p) \<and>
     mset (checks_made p) + image_mset fst (filter_mset (\<lambda>w. snd w = Starting) (workers p)) +
       mset (jobs_left p) \<subseteq># mset jobs"

lemma pool_inv_start: "pool_inv n jobs (pool_start jobs c)"
  by (simp add: pool_inv_def pool_start_def slots_used_def)

lemma pool_inv_dispatch: "dispatch_step n p p' \<Longrightarrow> pool_inv n jobs p \<Longrightarrow> pool_inv n jobs p'"
  by (induction rule: dispatch_step.induct) (auto simp: pool_inv_def slots_used_def)

lemma subseteq_mset_dropD: "add_mset x A \<subseteq># B \<Longrightarrow> A \<subseteq># B"
  by (drule mset_subset_eq_insertD, drule conjunct2, rule subset_mset.less_imp_le)

lemma pool_inv_worker: "worker_step p p' \<Longrightarrow> pool_inv n jobs p \<Longrightarrow> pool_inv n jobs p'"
  by (induction rule: worker_step.induct)
     (auto simp: pool_inv_def slots_used_def ac_simps dest: subseteq_mset_dropD)

lemma pool_inv_cancel: "cancel_step p p' \<Longrightarrow> pool_inv n jobs p \<Longrightarrow> pool_inv n jobs p'"
  by (induction rule: cancel_step.induct) (simp add: pool_inv_def slots_used_def)

lemma pool_inv_step: "pool_step n p p' \<Longrightarrow> pool_inv n jobs p \<Longrightarrow> pool_inv n jobs p'"
  unfolding pool_step_def by (blast intro: pool_inv_dispatch pool_inv_worker pool_inv_cancel)

lemma pool_inv_reaches: "pool_reaches n p q \<Longrightarrow> pool_inv n jobs p \<Longrightarrow> pool_inv n jobs q"
  by (induction rule: pool_reaches_induct) (auto intro: pool_inv_step)

section \<open>It returns\<close>

fun worker_weight :: "worker \<Rightarrow> nat" where
  "worker_weight Starting = 4"
| "worker_weight Checking = 3"
| "worker_weight Leaving = 2"
| "worker_weight Released = 1"

fun dispatcher_weight :: "dispatcher \<Rightarrow> nat" where
  "dispatcher_weight At_check = 3"
| "dispatcher_weight At_select = 2"
| "dispatcher_weight Waiting = 1"
| "dispatcher_weight Returned = 0"

text \<open>Every step brings this number down, so a run has no more steps than it says.\<close>

definition pool_measure :: "pool \<Rightarrow> nat" where
  "pool_measure p =
     6 * length (jobs_left p) + sum_mset (image_mset (worker_weight \<circ> snd) (workers p)) +
     dispatcher_weight (dispatcher p) + (if cancelled p then 0 else 1)"

lemma pool_step_measure: "pool_step n p p' \<Longrightarrow> pool_measure p' < pool_measure p"
  unfolding pool_step_def
  by (elim disjE dispatch_stepE worker_stepE cancel_stepE) (auto simp: pool_measure_def)

text \<open>Until it has returned, somebody can move.\<close>

lemma worker_can_step: "workers p \<noteq> {#} \<Longrightarrow> \<exists>p'. worker_step p p'"
proof -
  assume "workers p \<noteq> {#}"
  then obtain job k ws where "workers p = add_mset (job, k) ws"
    by (metis multiset_cases surj_pair)
  then show ?thesis
    by (cases k; cases "rate_limit_hit p") (blast intro: worker_step.intros)+
qed

lemma pool_progress:
  assumes "0 < n" and "dispatcher p \<noteq> Returned" and "dispatcher p = At_select \<longrightarrow> jobs_left p \<noteq> []"
  shows "\<exists>p'. pool_step n p p'"
proof (cases "workers p = {#}")
  case False
  then show ?thesis using worker_can_step by (auto simp: pool_step_def)
next
  case True
  then have "slots_used p < n" using assms(1) by (simp add: slots_used_def)
  with True assms(2,3) have "\<exists>p'. dispatch_step n p p'"
    by (cases "dispatcher p"; cases "jobs_left p"; cases "cancelled p") (blast intro: dispatch_step.intros)+
  then show ?thesis by (auto simp: pool_step_def)
qed

lemma pool_returns:
  assumes "0 < n" and "pool_inv n jobs p"
  shows "\<exists>q. pool_reaches n p q \<and> dispatcher q = Returned"
  using assms(2)
proof (induction "pool_measure p" arbitrary: p rule: less_induct)
  case less
  show ?case
  proof (cases "dispatcher p = Returned")
    case False
    with less.prems assms(1) obtain p' where p': "pool_step n p p'"
      using pool_progress by (auto simp: pool_inv_def)
    from less(1) [OF pool_step_measure [OF p'] pool_inv_step [OF p' less(2)]] p' show ?thesis
      unfolding pool_reaches_def by (meson converse_rtranclp_into_rtranclp)
  qed blast
qed

section \<open>Cancellation\<close>

text \<open>
  After the cancellation at most one more job starts: the one of a dispatcher that had passed
  the check before. \<open>select\<close> may choose the free slot although the context is done.
\<close>

lemma dispatch_after_cancel:
  assumes "pool_reaches n p q" and "cancelled p"
  shows "cancelled q \<and> length (jobs_left p) \<le> length (jobs_left q) + (if dispatcher p = At_select then 1 else 0) \<and>
    (length (jobs_left p) \<noteq> length (jobs_left q) \<longrightarrow> dispatcher q \<noteq> At_select) \<and>
    (dispatcher p \<noteq> At_select \<longrightarrow> dispatcher q \<noteq> At_select)"
  using assms
proof (induction rule: pool_reaches_induct)
  case (step q r)
  from step(2) step(3) [OF step(4)] show ?case
    unfolding pool_step_def
    by (elim disjE dispatch_stepE worker_stepE cancel_stepE) (auto split: if_splits)
qed simp

section \<open>The rate limit\<close>

text \<open>Once the flag is set no further repository is checked in this cycle.\<close>

lemma no_check_after_limit:
  assumes "pool_reaches n p q" and "rate_limit_hit p"
  shows "rate_limit_hit q \<and> checks_made q = checks_made p"
  using assms
proof (induction rule: pool_reaches_induct)
  case (step q r)
  from step(2) step(3) [OF step(4)] show ?case
    unfolding pool_step_def
    by (elim disjE dispatch_stepE worker_stepE cancel_stepE) auto
qed simp

section \<open>Runs of the pool as the scanner makes it\<close>

text \<open>The number of slots of a pool made by \<open>NewWorkerPool\<close>.\<close>

definition pool_slots :: "int \<Rightarrow> nat" where
  "pool_slots n = nat (new_pool_size n)"

lemma pool_slots_pos [simp]: "0 < pool_slots n"
  by (simp add: pool_slots_def new_pool_size_def)

lemma pool_inv_run: "pool_reaches n (pool_start jobs c) q \<Longrightarrow> pool_inv n jobs q"
  by (erule pool_inv_reaches) (rule pool_inv_start)

lemma pool_run_length: "(pool_step n ^^ k) p q \<Longrightarrow> k + pool_measure q \<le> pool_measure p"
proof (induction k arbitrary: q)
  case (Suc k)
  then obtain r where "(pool_step n ^^ k) p r" and "pool_step n r q" by auto
  with Suc.IH [of r] pool_step_measure show ?case by fastforce
qed simp

lemma pool_measure_start: "pool_measure (pool_start jobs c) \<le> 6 * length jobs + 4"
  by (simp add: pool_measure_def pool_start_def)

lemma pool_reaches_then: "pool_step n p q \<Longrightarrow> pool_reaches n q r \<Longrightarrow> pool_reaches n p r"
  unfolding pool_reaches_def by (rule converse_rtranclp_into_rtranclp)

lemma dispatch_then: "dispatch_step n p q \<Longrightarrow> pool_reaches n q r \<Longrightarrow> pool_reaches n p r"
  and worker_then: "worker_step p q \<Longrightarrow> pool_reaches n q r \<Longrightarrow> pool_reaches n p r"
  and cancel_then: "cancel_step p q \<Longrightarrow> pool_reaches n q r \<Longrightarrow> pool_reaches n p r"
  by (auto intro: pool_reaches_then simp: pool_step_def)

text \<open>Two jobs, the second started after the context was cancelled.\<close>

definition late_jobs :: "string list" where "late_jobs = [''a/b'', ''c/d'']"

definition late_cancelled :: pool where
  "late_cancelled =
     \<lparr>jobs_left = [''c/d''], dispatcher = At_select, workers = {#(''a/b'', Starting)#}, finished = [],
      cancelled = True, rate_limit_hit = False, checks_made = []\<rparr>"

definition late_dispatched :: pool where
  "late_dispatched =
     \<lparr>jobs_left = [], dispatcher = At_check, workers = {#(''a/b'', Starting), (''c/d'', Starting)#}, finished = [],
      cancelled = True, rate_limit_hit = False, checks_made = []\<rparr>"

lemma late_cancel_run: "pool_reaches 8 (pool_start late_jobs False) late_cancelled"
proof -
  let ?p0 = "pool_start late_jobs False"
  let ?p1 = "?p0\<lparr>dispatcher := At_select\<rparr>"
  let ?p2 = "?p1\<lparr>jobs_left := [''c/d''], workers := add_mset (''a/b'', Starting) (workers ?p1), dispatcher := At_check\<rparr>"
  let ?p3 = "?p2\<lparr>dispatcher := At_select\<rparr>"
  have s1: "dispatch_step 8 ?p0 ?p1" by (rule check_ok) (simp_all add: pool_start_def late_jobs_def)
  have s2: "dispatch_step 8 ?p1 ?p2"
    by (rule select_slot) (simp_all add: pool_start_def late_jobs_def slots_used_def)
  have s3: "dispatch_step 8 ?p2 ?p3" by (rule check_ok) (simp_all add: pool_start_def)
  have s4: "cancel_step ?p3 (?p3\<lparr>cancelled := True\<rparr>)" by (rule cancel) (simp add: pool_start_def)
  have "?p3\<lparr>cancelled := True\<rparr> = late_cancelled"
    by (simp add: pool_start_def late_jobs_def late_cancelled_def)
  then have "pool_reaches 8 (?p3\<lparr>cancelled := True\<rparr>) late_cancelled" by simp
  from dispatch_then [OF s1 dispatch_then [OF s2 dispatch_then [OF s3 cancel_then [OF s4 this]]]] show ?thesis .
qed

lemma late_dispatch_run: "pool_reaches 8 late_cancelled late_dispatched"
proof -
  have "dispatcher late_cancelled = At_select" "jobs_left late_cancelled = ''c/d'' # []"
    by (simp_all add: late_cancelled_def)
  moreover have "slots_used late_cancelled < 8"
    by (simp add: late_cancelled_def slots_used_def)
  note slot = select_slot [OF calculation this]
  from slot have "dispatch_step 8 late_cancelled late_dispatched"
    by (simp add: late_cancelled_def late_dispatched_def add_mset_commute)
  then show ?thesis by (rule dispatch_then) (rule pool_reaches_refl)
qed

text \<open>
  C25. In every run of the pool, under every interleaving: at most as many slots are held as
  \<open>NewWorkerPool\<close> made; no repository is lost or handed out twice; none is checked twice; when
  \<open>Run\<close> has returned no worker is left, and every repository was handed out unless the context
  was cancelled.
\<close>

theorem pool_keeps_jobs:
  assumes "pool_reaches (pool_slots n) (pool_start jobs c) q"
  shows "slots_used q \<le> pool_slots n \<and>
    mset (jobs_left q) + image_mset fst (workers q) + mset (finished q) = mset jobs \<and>
    mset (checks_made q) \<subseteq># mset jobs \<and>
    (dispatcher q = Returned \<longrightarrow> workers q = {#} \<and> (jobs_left q = [] \<or> cancelled q))"
  using pool_inv_run [OF assms] unfolding pool_inv_def
  by (auto intro: subset_mset.order_trans [OF mset_subset_eq_add_left])

lemma pool_keeps_jobs_witness:
  "slots_used late_cancelled \<le> pool_slots 8 \<and> mset (jobs_left late_cancelled) +
     image_mset fst (workers late_cancelled) + mset (finished late_cancelled) = mset late_jobs"
  using pool_keeps_jobs [of 8 late_jobs False late_cancelled] late_cancel_run
  by (simp add: pool_slots_def new_pool_size_def)

text \<open>
  C26. The pool never deadlocks and always returns: from every state of a run a state can be
  reached in which \<open>Run\<close> has returned, and no run has more than six steps per job and four
  more, whatever the scheduler does.
\<close>

theorem pool_always_returns:
  assumes "(pool_step (pool_slots n) ^^ k) (pool_start jobs c) q"
  shows "k \<le> 6 * length jobs + 4 \<and>
    (\<exists>r. pool_reaches (pool_slots n) q r \<and> dispatcher r = Returned)"
proof -
  from assms have "pool_reaches (pool_slots n) (pool_start jobs c) q"
    unfolding pool_reaches_def by (rule relpowp_imp_rtranclp)
  from pool_returns [OF pool_slots_pos pool_inv_run [OF this]] pool_run_length [OF assms]
    pool_measure_start [of jobs c] show ?thesis
    by (meson add_leD1 order_trans)
qed

lemma pool_always_returns_witness:
  "\<exists>r. pool_reaches (pool_slots 0) (pool_start late_jobs True) r \<and> dispatcher r = Returned"
  using pool_always_returns [of 0 0 late_jobs True "pool_start late_jobs True"] by simp

text \<open>
  C27. After the cancellation at most one more job is started, and then only by a dispatcher
  that had already passed its check of the context.
\<close>

theorem late_dispatch_at_most_one:
  assumes "pool_reaches n p q" and "cancelled p"
  shows "length (jobs_left p) \<le> length (jobs_left q) + (if dispatcher p = At_select then 1 else 0)"
  using dispatch_after_cancel [OF assms] by simp

text \<open>The bound is met: one job starts after the cancellation, against the comment on \<open>Run\<close>.\<close>

lemma late_dispatch_at_most_one_witness:
  "pool_reaches 8 (pool_start late_jobs False) late_cancelled \<and> pool_reaches 8 late_cancelled late_dispatched \<and>
   cancelled late_cancelled \<and> length (jobs_left late_cancelled) = length (jobs_left late_dispatched) + 1 \<and>
   length (jobs_left late_cancelled) \<le> length (jobs_left late_dispatched) + 1"
  using late_dispatch_at_most_one [OF late_dispatch_run] late_cancel_run late_dispatch_run
  by (simp add: late_cancelled_def late_dispatched_def)

text \<open>
  C28. Once a worker has met the rate limit, no further repository is checked in this cycle; the
  jobs still handed out only give their slot back.
\<close>

theorem rate_limit_stops_checks:
  assumes "pool_reaches n p q" and "rate_limit_hit p"
  shows "rate_limit_hit q \<and> checks_made q = checks_made p"
  by (rule no_check_after_limit [OF assms])

lemma rate_limit_stops_checks_witness:
  "pool_reaches 8 (late_cancelled\<lparr>rate_limit_hit := True\<rparr>)
     (late_cancelled\<lparr>rate_limit_hit := True, workers := {#(''a/b'', Leaving)#}\<rparr>) \<and>
   checks_made (late_cancelled\<lparr>rate_limit_hit := True, workers := {#(''a/b'', Leaving)#}\<rparr>) = []"
proof -
  let ?p = "late_cancelled\<lparr>rate_limit_hit := True\<rparr>"
  have "worker_step ?p (?p\<lparr>workers := add_mset (''a/b'', Leaving) {#}\<rparr>)"
    by (rule flag_seen) (simp_all add: late_cancelled_def)
  then have run: "pool_reaches 8 ?p (?p\<lparr>workers := {#(''a/b'', Leaving)#}\<rparr>)"
    by (rule worker_then) (rule pool_reaches_refl)
  from rate_limit_stops_checks [OF this] run show ?thesis by (simp add: late_cancelled_def)
qed

end
