(* ===== verification/App.thy ===== *)
theory App imports Registry Cache WorkerPool begin

text \<open>
  How \<open>cmd/app/main.go\<close> wires the application: the repository on GORM, the GitHub client with
  or without its cache, the notifier on JetStream, and on top of them the service and the
  scanner. All that is not the program's own is one record, the platform.
\<close>

section \<open>The platform\<close>

record 'w platform =
  pf_gorm :: "'w gorm"
  pf_transport :: "'w transport"
  pf_redis :: "'w redis"
  pf_jetstream :: "'w jetstream"
  pf_templates :: template_engine
  pf_uuid_new :: "('w, error + string) io"
  pf_uuid_string :: "('w, string) io"

section \<open>The repository as the collaborators see it\<close>

definition repository_subs :: "'w gorm \<Rightarrow> 'w subscription_repo" where
  "repository_subs g =
     \<lparr>sr_create_with_token = create_subscription_with_token g,
      sr_find_by_email_and_repo = find_subscription_by_email_and_repo g,
      sr_find_by_email = find_subscriptions_by_email g,
      sr_find_by_unsubscribe_token = find_subscription_by_unsubscribe_token g,
      sr_confirm = confirm_subscription g,
      sr_delete = delete_subscription g\<rparr>"

definition repository_tokens :: "'w gorm \<Rightarrow> 'w token_repo" where
  "repository_tokens g = \<lparr>tr_find_by_value = find_token_by_value g, tr_delete = delete_token g\<rparr>"

definition repository_scans :: "'w gorm \<Rightarrow> 'w scanner_repo" where
  "repository_scans g =
     \<lparr>rp_distinct_confirmed_repos = find_distinct_confirmed_repos g,
      rp_confirmed_by_repo = find_confirmed_subscriptions_by_repo g,
      rp_get_watched = get_watched_repo g,
      rp_save_tag = save_watched_repo_tag g\<rparr>"

lemmas repository_defs = repository_subs_def repository_tokens_def repository_scans_def

sublocale gorm_postgres \<subseteq> repo: subscription_store "repository_subs g" "repository_tokens g" tables
  by unfold_locales
     (simp_all add: repository_defs create_meets find_by_email_repo_meets find_by_email_meets
        find_by_unsubscribe_token_meets confirm_meets delete_subscription_meets find_token_meets
        delete_token_meets del: mset_filter)

section \<open>The GitHub client\<close>

text \<open>
  \<open>githubClient\<close> of \<open>main.go\<close>, and \<open>buildGitHubClient\<close>: without a DSN, or when Redis does
  not answer (\<open>new_redis\<close> gives an error), the plain client.
\<close>

record 'w github_client =
  gh_validate_repo :: "'w repo_validator"
  gh_latest_release :: "'w release_fetcher"

definition plain_client :: "'w transport \<Rightarrow> client \<Rightarrow> 'w github_client" where
  "plain_client tp c =
     \<lparr>gh_validate_repo = client_validate_repo tp c, gh_latest_release = client_get_latest_release tp c\<rparr>"

definition new_cached_client :: "'w transport \<Rightarrow> client \<Rightarrow> 'w cache_store \<Rightarrow> 'w github_client" where
  "new_cached_client tp c store =
     (let cc = \<lparr>cc_inner = c, cc_store = store\<rparr> in
      \<lparr>gh_validate_repo = cached_validate_repo tp cc, gh_latest_release = cached_get_latest_release tp cc\<rparr>)"

definition build_github_client ::
  "'w transport \<Rightarrow> github_config \<Rightarrow> string \<Rightarrow> error + 'w cache_store \<Rightarrow> 'w github_client" where
  "build_github_client tp cfg redis_dsn new_redis =
     (let base = new_client cfg [] in
      if redis_dsn = [] then plain_client tp base
      else case new_redis of
        Inl err \<Rightarrow> plain_client tp base
      | Inr rdb \<Rightarrow> new_cached_client tp base rdb)"

section \<open>The application\<close>

definition app_notifier :: "'w platform \<Rightarrow> string \<Rightarrow> 'w email_notifier" where
  "app_notifier P base_url = new_email_notifier base_url (nats_publish (pf_jetstream P))"

definition app_service :: "'w platform \<Rightarrow> string \<Rightarrow> 'w github_client \<Rightarrow> 'w service" where
  "app_service P base_url gh =
     new_service (pf_uuid_new P) (repository_subs (pf_gorm P)) (repository_tokens (pf_gorm P))
       (gh_validate_repo gh)
       (send_confirmation (pf_templates P) (pf_uuid_string P) (app_notifier P base_url))
       (Some (random_token (pf_uuid_new P)))"

definition app_scanner :: "'w platform \<Rightarrow> string \<Rightarrow> 'w github_client \<Rightarrow> scanner_config \<Rightarrow> 'w scanner" where
  "app_scanner P base_url gh cfg =
     new_scanner (repository_scans (pf_gorm P)) (gh_latest_release gh)
       (send_release_notification (pf_templates P) (pf_uuid_string P) (app_notifier P base_url)) cfg"

text \<open>\<open>buildGitHubClient\<close> on the platform; \<open>up\<close> is whether \<open>cache.NewRedis\<close> reached Redis.\<close>

definition app_github :: "'w platform \<Rightarrow> github_config \<Rightarrow> string \<Rightarrow> bool \<Rightarrow> 'w github_client" where
  "app_github P cfg dsn up =
     build_github_client (pf_transport P) cfg dsn
       (if up then Inr (redis_store (pf_redis P)) else Inl (Extern ''redis: connection refused''))"

lemma app_service_fields [simp]:
  "svc_subs (app_service P base_url gh) = repository_subs (pf_gorm P)"
  "svc_tokens (app_service P base_url gh) = repository_tokens (pf_gorm P)"
  "svc_github (app_service P base_url gh) = gh_validate_repo gh"
  "svc_notifier (app_service P base_url gh) =
     send_confirmation (pf_templates P) (pf_uuid_string P) (app_notifier P base_url)"
  "svc_new_token (app_service P base_url gh) = random_token (pf_uuid_new P)"
  by (simp_all add: app_service_def new_service_def)

lemma app_scanner_fields [simp]:
  "sc_repo (app_scanner P base_url gh cfg) = repository_scans (pf_gorm P)"
  "sc_github (app_scanner P base_url gh cfg) = gh_latest_release gh"
  "sc_notifier (app_scanner P base_url gh cfg) =
     send_release_notification (pf_templates P) (pf_uuid_string P) (app_notifier P base_url)"
  by (simp_all add: app_scanner_def new_scanner_def Let_def)

section \<open>What the platform promises\<close>

text \<open>The database calls take time but do not touch the message bus.\<close>

locale idle_gorm =
  fixes g :: "'w gorm" and bus :: "'w \<Rightarrow> bus"
  assumes idle_transaction: "meets bus body (\<lambda>b r b'. idles b b') \<Longrightarrow>
      meets bus (gorm_transaction g body) (\<lambda>b r b'. idles b b')"
    and idle_create_sub: "meets bus (gorm_create_sub g s) (\<lambda>b r b'. idles b b')"
    and idle_create_tok: "meets bus (gorm_create_tok g t) (\<lambda>b r b'. idles b b')"
    and idle_first_sub: "meets bus (gorm_first_sub g P) (\<lambda>b r b'. idles b b')"
    and idle_find_subs: "meets bus (gorm_find_subs g P) (\<lambda>b r b'. idles b b')"
    and idle_update_subs: "meets bus (gorm_update_subs g P f) (\<lambda>b r b'. idles b b')"
    and idle_delete_subs: "meets bus (gorm_delete_subs g P) (\<lambda>b r b'. idles b b')"
    and idle_first_tok_preload: "meets bus (gorm_first_tok_preload g Q) (\<lambda>b r b'. idles b b')"
    and idle_delete_toks: "meets bus (gorm_delete_toks g Q) (\<lambda>b r b'. idles b b')"
    and idle_distinct_pluck: "meets bus (gorm_distinct_pluck g P c) (\<lambda>b r b'. idles b b')"
    and idle_first_watched: "meets bus (gorm_first_watched g W) (\<lambda>b r b'. idles b b')"
    and idle_upsert_watched: "meets bus (gorm_upsert_watched g wr upd) (\<lambda>b r b'. idles b b')"

lemma idle_call:
  "meets bus m (\<lambda>b r b'. idles b b') \<Longrightarrow> (\<And>a. meets bus (k a) (\<lambda>b r b'. idles b b')) \<Longrightarrow>
   meets bus (call m k) (\<lambda>b r b'. idles b b')"
  by (rule meets_call [where S = "\<lambda>b r b'. idles b b'" and T = "\<lambda>_ b r b'. idles b b'"])
     (auto intro: idles_idles)

lemma idle_ret: "meets bus (ret a) (\<lambda>b r b'. idles b b')"
  by (simp add: meets_ret)

lemma idle_keeps: "keeps bus m \<Longrightarrow> meets bus m (\<lambda>b r b'. idles b b')"
  by (auto simp: keeps_def meets_def)

lemma idle_not_found_as_nil: "meets bus (not_found_as_nil r) (\<lambda>b r b'. idles b b')"
  by (auto simp: not_found_as_nil_def idle_ret split: sum.split)

context idle_gorm
begin

lemmas idle_rules = idle_call idle_ret idle_not_found_as_nil idle_transaction idle_create_sub
  idle_create_tok idle_first_sub idle_find_subs idle_update_subs idle_delete_subs
  idle_first_tok_preload idle_delete_toks idle_distinct_pluck idle_first_watched idle_upsert_watched

lemma idle_create: "meets bus (create_subscription_with_token g sub tok) (\<lambda>b r b'. idles b b')"
  unfolding create_subscription_with_token_def
  by (auto intro!: idle_rules split: sum.split)

lemma idle_repository:
  "meets bus (find_subscription_by_email_and_repo g email repo) (\<lambda>b r b'. idles b b')"
  "meets bus (find_subscriptions_by_email g email) (\<lambda>b r b'. idles b b')"
  "meets bus (find_subscription_by_unsubscribe_token g v) (\<lambda>b r b'. idles b b')"
  "meets bus (confirm_subscription g i) (\<lambda>b r b'. idles b b')"
  "meets bus (delete_subscription g i) (\<lambda>b r b'. idles b b')"
  "meets bus (find_token_by_value g v) (\<lambda>b r b'. idles b b')"
  "meets bus (delete_token g i) (\<lambda>b r b'. idles b b')"
  "meets bus (find_distinct_confirmed_repos g) (\<lambda>b r b'. idles b b')"
  "meets bus (find_confirmed_subscriptions_by_repo g repo) (\<lambda>b r b'. idles b b')"
  "meets bus (get_watched_repo g repo) (\<lambda>b r b'. idles b b')"
  "meets bus (save_watched_repo_tag g repo tag) (\<lambda>b r b'. idles b b')"
  by (auto simp: find_subscription_by_email_and_repo_def find_subscriptions_by_email_def
      find_subscription_by_unsubscribe_token_def confirm_subscription_def delete_subscription_def
      find_token_by_value_def delete_token_def find_distinct_confirmed_repos_def
      find_confirmed_subscriptions_by_repo_def get_watched_repo_def save_watched_repo_tag_def
      intro!: idle_rules)

end


text \<open>
  A collaborator that is neither the database nor the message bus: it leaves the tables alone
  and only takes time on the bus.
\<close>

definition aside :: "('w \<Rightarrow> db) \<Rightarrow> ('w \<Rightarrow> bus) \<Rightarrow> ('w, 'a) io \<Rightarrow> bool" where
  "aside tables bus m \<longleftrightarrow> keeps tables m \<and> meets bus m (\<lambda>b r b'. idles b b')"

lemma asideD: "aside tables bus m \<Longrightarrow> keeps tables m" "aside tables bus m \<Longrightarrow> meets bus m (\<lambda>b r b'. idles b b')"
  by (simp_all add: aside_def)

lemma aside_ret: "aside tables bus (ret a)"
  by (simp add: aside_def idle_ret)

lemma aside_call: "aside tables bus m \<Longrightarrow> (\<And>a. aside tables bus (k a)) \<Longrightarrow> aside tables bus (call m k)"
  by (simp add: aside_def idle_call keeps_call)

locale app_platform =
  db: gorm_postgres "pf_gorm P" tables + time: idle_gorm "pf_gorm P" bus +
  stream: jetstream_bus "pf_jetstream P" bus + github: github_api "pf_transport P" answered +
  redis: redis_server "pf_redis P" entries
  for P :: "'w platform" and tables :: "'w \<Rightarrow> db" and bus :: "'w \<Rightarrow> bus"
    and answered :: "'w \<Rightarrow> (http_request \<times> http_response) set" and entries :: "'w \<Rightarrow> (string \<rightharpoonup> string)" +
  assumes http_aside: "aside tables bus (tr_do (pf_transport P) t req)"
    and http_entries: "keeps entries (tr_do (pf_transport P) t req)"
    and redis_get_aside: "aside tables bus (rd_get (pf_redis P) key)"
    and redis_set_aside: "aside tables bus (rd_set (pf_redis P) key value ttl)"
    and redis_get_answered: "keeps answered (rd_get (pf_redis P) key)"
    and redis_set_answered: "keeps answered (rd_set (pf_redis P) key value ttl)"
    and publish_tables: "keeps tables (js_publish (pf_jetstream P) subj msg i)"
    and uuid_new: "aside tables bus (pf_uuid_new P)"
    and uuid_new_foreign: "fst (pf_uuid_new P w) = Return (Inl e) \<Longrightarrow> foreign e"
    and uuid_string: "aside tables bus (pf_uuid_string P)"
    and templates_foreign: "pf_templates P name data = Inl e \<Longrightarrow> foreign e"

text \<open>What a GitHub client must be for the service and the scanner.\<close>

definition client_ok :: "('w \<Rightarrow> db) \<Rightarrow> ('w \<Rightarrow> bus) \<Rightarrow> 'w github_client \<Rightarrow> bool" where
  "client_ok tables bus gh \<longleftrightarrow>
     (\<forall>owner name. aside tables bus (gh_validate_repo gh owner name) \<and>
        aside tables bus (gh_latest_release gh owner name) \<and>
        (\<forall>w e. fst (gh_validate_repo gh owner name w) = Return (Some e) \<longrightarrow> validator_error e))"

lemma aside_client:
  assumes "\<And>t req. aside tables bus (tr_do tp t req)"
  shows "aside tables bus (client_validate_repo tp c owner name)"
    and "aside tables bus (client_get_latest_release tp c owner name)"
  using assms
  by (auto simp: client_validate_repo_def client_get_latest_release_def intro!: aside_call aside_ret split: sum.split)

lemma aside_cached_client:
  assumes "\<And>t req. aside tables bus (tr_do tp t req)" and "\<And>key. aside tables bus (cs_get (cc_store cc) key)"
    and "\<And>key value ttl. aside tables bus (cs_set_ex (cc_store cc) key value ttl)"
  shows "aside tables bus (cached_validate_repo tp cc owner name)"
    and "aside tables bus (cached_get_latest_release tp cc owner name)"
  using assms
  by (auto simp: cached_validate_repo_def cached_get_latest_release_def validate_and_cache_def
      latest_and_cache_def cached_set_def Let_def
      intro!: aside_call aside_ret aside_client split: sum.split option.split)

lemma aside_redis_store:
  assumes "\<And>key. aside tables bus (rd_get rd key)"
    and "\<And>key value ttl. aside tables bus (rd_set rd key value ttl)"
  shows "aside tables bus (cs_get (redis_store rd) key)"
    and "aside tables bus (cs_set_ex (redis_store rd) key value ttl)"
  using assms
  by (auto simp: redis_store_def redis_get_def redis_set_ex_def intro!: aside_call aside_ret split: sum.split)

text \<open>Only what a run returns, whatever the world.\<close>

abbreviation yields :: "('a outcome \<Rightarrow> bool) \<Rightarrow> ('w, 'a) io \<Rightarrow> bool" where
  "yields T m \<equiv> meets (\<lambda>_. ()) m (\<lambda>_ r _. T r)"

lemma yields_meets: "meets v m S \<Longrightarrow> (\<And>d r d'. S d r d' \<Longrightarrow> T r) \<Longrightarrow> yields T m"
  by (auto simp: meets_def)

lemma yields_call:
  "yields (\<lambda>r. \<forall>a. r = Return a \<longrightarrow> T a) m \<Longrightarrow> (\<And>a. T a \<Longrightarrow> yields U (k a)) \<Longrightarrow> (\<And>p. U (Panic p)) \<Longrightarrow> yields U (call m k)"
  by (auto simp: meets_def call_def split: prod.splits outcome.splits) (metis fst_conv)

definition reports_validator :: "error option outcome \<Rightarrow> bool" where
  "reports_validator r \<longleftrightarrow> (\<forall>e. r = Return (Some e) \<longrightarrow> validator_error e)"

context github_api
begin

lemma validate_response_validator: "validate_response resp = Some e \<Longrightarrow> validator_error e"
  using validate_response_errors [of resp e] by (auto intro: foreign_reports_only)

lemma client_reports: "yields reports_validator (client_validate_repo tp g owner repo)"
proof (rule yields_meets [OF validate_meets], goal_cases)
  case (1 d r d')
  have "validator_error e" if "r = Return (Some e)" for e
    using 1 that validate_response_validator [of _ e] foreign_reports_only [of e] by (metis option.inject)
  then show ?case by (simp add: reports_validator_def)
qed

lemma cached_reports: "yields reports_validator (cached_validate_repo tp cc owner repo)"
proof -
  have any: "yields (\<lambda>r. \<forall>a. r = Return a \<longrightarrow> True) m" for m :: "('w, 'a) io" by (simp add: meets_def)
  have ret: "yields reports_validator (ret a)" if "a \<noteq> None \<longrightarrow> validator_error (the a)" for a
    by (rule meets_ret) (use that in \<open>auto simp: reports_validator_def\<close>)
  have inner: "yields (\<lambda>r. \<forall>a. r = Return a \<longrightarrow> (a \<noteq> None \<longrightarrow> validator_error (the a)))
      (client_validate_repo tp (cc_inner cc) owner repo)"
    by (rule meets_weaken [OF client_reports]) (auto simp: reports_validator_def)
  have "yields reports_validator (validate_and_cache tp cc owner repo)"
    unfolding validate_and_cache_def Let_def
    by (rule yields_call [OF inner])
       (auto simp: reports_validator_def [of "Panic _"] intro!: yields_call [OF any] ret split: option.split)
  then show ?thesis
    unfolding cached_validate_repo_def
    by (intro yields_call [OF any]) (auto simp: reports_validator_def [of "Panic _"] intro!: ret split: sum.split)
qed

end

context app_platform
begin

lemma plain_client_ok: "client_ok tables bus (plain_client (pf_transport P) c)"
  using github.client_reports [of c]
  by (auto simp: client_ok_def plain_client_def aside_client http_aside meets_def reports_validator_def)

lemma cached_client_ok: "client_ok tables bus (new_cached_client (pf_transport P) c (redis_store (pf_redis P)))"
  using github.cached_reports
  by (auto simp: client_ok_def new_cached_client_def Let_def aside_cached_client http_aside meets_def
      reports_validator_def aside_redis_store redis_get_aside redis_set_aside)

lemma app_client_ok: "client_ok tables bus (app_github P cfg dsn up)"
  by (simp add: app_github_def build_github_client_def Let_def plain_client_ok cached_client_ok)

lemma mail_env: "mail_env (pf_templates P) (pf_uuid_string P) (app_notifier P base_url) bus"
  by unfold_locales
     (auto simp: app_notifier_def new_email_notifier_def templates_foreign
       intro: stream.nats_publish_meets asideD(2) [OF uuid_string])

lemma service_env:
  assumes gh: "client_ok tables bus gh"
  shows "service_env (app_service P base_url gh) tables"
proof unfold_locales
  have r: "aside tables bus (gh_validate_repo gh owner name)"
      "fst (gh_validate_repo gh owner name w) = Return (Some e) \<Longrightarrow> validator_error e" for owner name w e
    using gh by (auto simp: client_ok_def)
  show "meets tables (svc_github (app_service P base_url gh) owner name)
      (\<lambda>d r d'. d' = d \<and> (\<forall>e. r = Return (Some e) \<longrightarrow> validator_error e))" for owner name
    using r asideD(1) [OF r(1)] by (auto simp: meets_def keeps_def)
  show "keeps tables (svc_notifier (app_service P base_url gh) email repo ctok utok)" for email repo ctok utok
    using asideD(1) [OF uuid_string] publish_tables
    by (auto simp: send_confirmation_def app_notifier_def new_email_notifier_def nats_publish_def
        intro!: frame_rules split: sum.split option.split)
  show "meets tables (svc_new_token (app_service P base_url gh))
      (\<lambda>d r d'. d' = d \<and> (\<forall>e. r = Return (Inl e) \<longrightarrow> foreign e))"
  proof -
    have "meets tables (pf_uuid_new P) (\<lambda>d r d'. d' = d \<and> (\<forall>e. r = Return (Inl e) \<longrightarrow> foreign e))"
      using asideD(1) [OF uuid_new] uuid_new_foreign by (auto simp: meets_def keeps_def)
    note new = run_ok_call [OF this]
    show ?thesis
      by (rule meets_run_ok) (auto simp: random_token_def intro!: new split: sum.split)
  qed
qed (simp_all add: db.repo.create db.repo.find_by_email_and_repo db.repo.find_by_email
      db.repo.find_by_unsubscribe_token db.repo.confirm db.repo.delete db.repo.find_token
      db.repo.delete_token del: mset_filter)

lemma scanner_env:
  assumes gh: "client_ok tables bus gh"
  shows "scanner_env (app_scanner P base_url gh cfg) tables bus
     (release_mail (pf_templates P) \<lparr>co_base_url = base_url\<rparr>)"
proof unfold_locales
  show "keeps tables (sc_github (app_scanner P base_url gh cfg) owner name)"
    and "meets bus (sc_github (app_scanner P base_url gh cfg) owner name) (\<lambda>b r b'. idles b b')" for owner name
    using gh by (auto simp: client_ok_def aside_def)
  show "keeps tables (sc_notifier (app_scanner P base_url gh cfg) email repo tag ut)" for email repo tag ut
    using asideD(1) [OF uuid_string] publish_tables
    by (auto simp: send_release_notification_def app_notifier_def new_email_notifier_def nats_publish_def
        intro!: frame_rules split: sum.split option.split)
  show "meets bus (sc_notifier (app_scanner P base_url gh cfg) email repo tag ut)
      (send_contract subject_release (release_dedup_id repo tag email)
         (release_mail (pf_templates P) \<lparr>co_base_url = base_url\<rparr> email repo tag ut))" for email repo tag ut
    using mail_env.send_release_meets [OF mail_env [of base_url]]
    by (simp add: app_notifier_def new_email_notifier_def)
qed (simp_all add: repository_scans_def db.distinct_confirmed_repos_meets db.confirmed_by_repo_meets
      db.get_watched_meets db.save_watched_meets time.idle_repository del: mset_filter)

text \<open>Runs of the operations, on the registry.\<close>

lemma subscribe_run:
  assumes "client_ok tables bus gh" and "schema_ok (tables w)"
    and "svc_subscribe (app_service P base_url gh) req w = (r, w')"
  shows "registry_subscribe req (abs_registry (tables w)) r (abs_registry (tables w')) \<and> schema_ok (tables w')"
  using meetsD [OF service_env.subscribe_meets [OF service_env [OF assms(1)]] assms(3)] assms(2)
  by (blast intro: subscribe_refines subscribe_schema)

lemma confirm_run:
  assumes "client_ok tables bus gh" and "schema_ok (tables w)"
    and "svc_confirm_subscription (app_service P base_url gh) v w = (r, w')"
  shows "registry_confirm v (abs_registry (tables w)) r (abs_registry (tables w')) \<and> schema_ok (tables w')"
  using meetsD [OF service_env.confirm_meets [OF service_env [OF assms(1)]] assms(3)] assms(2)
  by (blast intro: confirm_refines confirm_schema)

lemma unsubscribe_run:
  assumes "client_ok tables bus gh" and "schema_ok (tables w)"
    and "svc_unsubscribe (app_service P base_url gh) v w = (r, w')"
  shows "registry_unsubscribe v (abs_registry (tables w)) r (abs_registry (tables w')) \<and> schema_ok (tables w')"
  using meetsD [OF service_env.unsubscribe_meets [OF service_env [OF assms(1)]] assms(3)] assms(2)
  by (blast intro: unsubscribe_refines unsubscribe_schema)

lemma check_run:
  assumes "client_ok tables bus gh" and "schema_ok (tables w)" and "0 < bus_window (bus w)"
    and "safe_check_repo (app_scanner P base_url gh cfg) repo w = (r, w')"
  shows "(\<exists>e. r = Return e) \<and>
    check_contract (release_mail (pf_templates P) \<lparr>co_base_url = base_url\<rparr>) repo
      (tables w, bus w) r (tables w', bus w')"
  using meetsD [OF scanner_env.safe_check_repo_meets [OF scanner_env [OF assms(1)]] assms(4)] assms(2,3)
  by (simp add: schema_ok_def)

lemma cycle_run:
  assumes "client_ok tables bus gh" and "schema_ok (tables w)" and "0 < bus_window (bus w)"
    and "run_once (app_scanner P base_url gh cfg) w = (r, w')"
  shows "scans (release_mail (pf_templates P) \<lparr>co_base_url = base_url\<rparr>) (tables w, bus w) (tables w', bus w')"
  using meetsD [OF scanner_env.run_once_meets [OF scanner_env [OF assms(1)]] assms(4)] assms(2,3) by simp

lemma cycle_bus_ok:
  assumes "client_ok tables bus gh" and "bus_ok (bus w)"
    and "run_once (app_scanner P base_url gh cfg) w = (r, w')"
  shows "bus_ok (bus w')"
  using maintainsD [OF scanner_env.run_once_bus_ok [OF scanner_env [OF assms(1)]] assms(3)] assms(2) .

end

end
