(* ===== verification/Mailing.thy ===== *)
theory Mailing imports App begin

text \<open>
  The service and the message bus together: \<open>Subscribe\<close> sends its confirmation only after the
  subscription is stored, and the mail carries the token that was stored.
\<close>


definition mailed_after_store ::
  "template_engine \<Rightarrow> composer \<Rightarrow> subscribe_request \<Rightarrow> (system, error option) contract" where
  "mailed_after_store tmpl c req x r x' \<longleftrightarrow>
     (idles (snd x) (snd x') \<or>
      (\<exists>ut ct cmd. adds_pending (pending_sub req ut) (pending_tok ct) (fst x) (fst x') \<and>
         confirmation_mail tmpl c (req_email req) (req_repo req) ct ut cmd \<and>
         accepts subject_confirmation (marshal_command cmd) (confirmation_dedup_id ct) (snd x) (snd x'))) \<and>
     (\<forall>e. r = Return (Some e) \<longrightarrow> idles (snd x) (snd x'))"

lemma mailed_after_store_idle:
  "idles (snd x) (snd x') \<Longrightarrow> mailed_after_store tmpl c req x r x'"
  by (simp add: mailed_after_store_def)

lemma mailed_after_store_send:
  assumes "fst x1 = fst x" "idles (snd x) (snd x1)"
    and "adds_pending (pending_sub req ut) (pending_tok ct) (fst x1) (fst x2)" "idles (snd x1) (snd x2)"
    and "fst x3 = fst x2"
    and "send_contract subject_confirmation (confirmation_dedup_id ct)
      (confirmation_mail tmpl c (req_email req) (req_repo req) ct ut) (snd x2) s (snd x3)"
    and "r = Return None \<or> r = Panic p"
  shows "mailed_after_store tmpl c req x r x3"
proof -
  have "idles (snd x) (snd x2)" using assms(2,4) by (rule idles_idles)
  from idles_send [OF this assms(6)] have "idles (snd x) (snd x3) \<or> (\<exists>cmd.
      confirmation_mail tmpl c (req_email req) (req_repo req) ct ut cmd \<and>
      accepts subject_confirmation (marshal_command cmd) (confirmation_dedup_id ct) (snd x) (snd x3))"
    by (rule send_outcomes) simp
  with assms(1,3,5,7) show ?thesis unfolding mailed_after_store_def by auto
qed

text \<open>GitHub's answer that a subscription rests on: the check of its repository, in the world as it found it.\<close>

definition vouched ::
  "('w \<Rightarrow> db) \<Rightarrow> 'w repo_validator \<Rightarrow> subscribe_request \<Rightarrow> 'w \<Rightarrow> bool" where
  "vouched tables validate req w \<longleftrightarrow>
     (\<exists>owner name w1 w2. req_repo req = owner @ ''/'' @ name \<and> tables w1 = tables w \<and>
        validate owner name w1 = (Return None, w2))"

context app_platform
begin

abbreviation quiet :: "'w \<Rightarrow> 'w \<Rightarrow> bool" where
  "quiet w w1 \<equiv> tables w1 = tables w \<and> idles (bus w) (bus w1)"

lemma run_ok_quiet:
  assumes "meets tables m (\<lambda>d r d'. d' = d)" and "meets bus m (\<lambda>b r b'. idles b b')" and q: "quiet w w1"
    and "\<And>p w2. quiet w w2 \<Longrightarrow> Q (Panic p) w2" and "\<And>a w2. quiet w w2 \<Longrightarrow> run_ok (k a) Q w2"
  shows "run_ok (call m k) Q w1"
proof (rule run_ok_call [OF meets_both [OF assms(1,2)]], goal_cases)
  case (1 p w2)
  then show ?case using q by (intro assms(4)) (auto intro: idles_idles)
next
  case (2 a w2)
  then show ?case using q by (intro assms(5)) (auto intro: idles_idles)
qed

lemma quiet_aside: "aside tables bus m \<Longrightarrow> meets tables m (\<lambda>d r d'. d' = d)"
  by (simp add: meets_keeps aside_def)

lemma quiet_find: "meets tables (find_subscription_by_email_and_repo (pf_gorm P) email repo) (\<lambda>d r d'. d' = d)"
  by (rule meets_weaken [OF db.find_by_email_repo_meets]) (simp add: query_def)

lemma quiet_token: "aside tables bus (random_token (pf_uuid_new P))"
  unfolding random_token_def by (auto intro!: aside_call aside_ret uuid_new split: sum.split)

text \<open>The last two calls of \<open>Subscribe\<close>: store, then send.\<close>

lemma store_and_send:
  assumes q: "quiet w w1"
  shows "run_ok (call (create_subscription_with_token (pf_gorm P) (pending_sub req ut) (pending_tok ct)) (\<lambda>r. case r of
      Some err \<Rightarrow> ret (Some (wrapf msg err))
    | None \<Rightarrow> call (send_confirmation (pf_templates P) (pf_uuid_string P) (app_notifier P base_url)
          (req_email req) (req_repo req) ct ut) (\<lambda>r. ret None)))
    (\<lambda>r w'. mailed_after_store (pf_templates P) \<lparr>co_base_url = base_url\<rparr> req (tables w, bus w) r (tables w', bus w')) w1"
proof (rule run_ok_call [OF meets_both [OF db.create_meets time.idle_create]], goal_cases)
  case (1 p w2)
  then have "idles (bus w) (bus w2)" using q by (auto intro: idles_idles)
  then show ?case by (intro mailed_after_store_idle) simp
next
  case (2 a w2)
  then have i: "idles (bus w) (bus w2)" using q by (auto intro: idles_idles)
  show ?case
  proof (cases a)
    case (Some e)
    with i show ?thesis by (simp add: mailed_after_store_idle)
  next
    case None
    with 2 q have add: "adds_pending (pending_sub req ut) (pending_tok ct) (tables w1) (tables w2)"
        "idles (bus w1) (bus w2)" by (simp_all add: perform_def)
    have keep: "keeps tables (send_confirmation (pf_templates P) (pf_uuid_string P) (app_notifier P base_url)
          (req_email req) (req_repo req) ct ut)"
      using asideD(1) [OF uuid_string] publish_tables
      by (auto simp: send_confirmation_def app_notifier_def new_email_notifier_def nats_publish_def
          intro!: frame_rules split: sum.split option.split)
    have c: "en_composer (app_notifier P base_url) = \<lparr>co_base_url = base_url\<rparr>"
      by (simp add: app_notifier_def new_email_notifier_def)
    note send = meets_both [OF meets_keeps [OF keep] mail_env.send_confirmation_meets [OF mail_env], unfolded c]
    show ?thesis
      unfolding None option.case
      by (rule run_ok_call [OF send])
         (use q add in \<open>auto intro!: mailed_after_store_send [of "(tables w1, bus w1)" _ _ _ _ "(tables w2, bus w2)"]\<close>)
  qed
qed

lemma subscribe_mails:
  assumes gh: "client_ok tables bus gh"
  shows "meets (\<lambda>w. (tables w, bus w)) (svc_subscribe (app_service P base_url gh) req)
    (mailed_after_store (pf_templates P) \<lparr>co_base_url = base_url\<rparr> req)"
proof (rule meets_run_ok)
  fix w
  let ?sys = "\<lambda>w. (tables w, bus w)"
  let ?Q = "\<lambda>r w'. mailed_after_store (pf_templates P) \<lparr>co_base_url = base_url\<rparr> req (?sys w) r (?sys w')"
  note check = run_ok_quiet [where w = w, OF quiet_find time.idle_repository(1)]
    run_ok_quiet [where w = w, OF quiet_aside asideD(2), OF quiet_token quiet_token]
  have validate: "aside tables bus (gh_validate_repo gh owner name)" for owner name
    using gh by (simp add: client_ok_def)
  note steps = check run_ok_quiet [where w = w, OF quiet_aside asideD(2), OF validate validate]
  show "run_ok (svc_subscribe (app_service P base_url gh) req) ?Q w"
  proof (cases "repo_format_matches (req_repo req)")
    case False
    then show ?thesis by (simp add: svc_subscribe_def mailed_after_store_idle)
  next
    case True
    then obtain owner name where two: "split_n 2 ''/'' (req_repo req) = [owner, name]"
      by (rule repo_format_split_n)
    from True two show ?thesis
      unfolding svc_subscribe_def
      by (auto simp: repository_subs_def intro!: steps store_and_send mailed_after_store_idle split: sum.split option.split)
  qed
qed

text \<open>Nothing is stored that GitHub did not vouch for.\<close>

lemma subscribe_vouched:
  assumes gh: "client_ok tables bus gh" and run: "svc_subscribe (app_service P base_url gh) req w = (r, w')"
  shows "tables w' = tables w \<or> vouched tables (gh_validate_repo gh) req w"
proof (cases "repo_format_matches (req_repo req)")
  case True
  then obtain owner name where two: "split_n 2 ''/'' (req_repo req) = [owner, name]"
    and name: "req_repo req = owner @ ''/'' @ name" by (rule repo_format_split_n)
  let ?Q = "\<lambda>r w'. tables w' = tables w \<or> vouched tables (gh_validate_repo gh) req w"
  have check: "run_ok (call (gh_validate_repo gh owner name) k) ?Q w1"
    if q: "quiet w w1" and k: "\<And>e w2. tables w2 = tables w \<Longrightarrow> run_ok (k (Some e)) ?Q w2" for k :: "_ \<Rightarrow> ('w, error option) io" and w1
  proof -
    obtain x w2 where v: "gh_validate_repo gh owner name w1 = (x, w2)" by fastforce
    have "keeps tables (gh_validate_repo gh owner name)" using gh by (simp add: client_ok_def aside_def)
    from keepsD [OF this v] q have t: "tables w2 = tables w" by simp
    have "x = Return None \<Longrightarrow> vouched tables (gh_validate_repo gh) req w"
      using v q name unfolding vouched_def by blast
    then show ?thesis
    proof (cases x)
      case (Return e)
      with v t k [OF t] \<open>x = Return None \<Longrightarrow> _\<close> show ?thesis by (cases e) (auto simp: run_ok_def call_def)
    qed (use v t in \<open>simp add: run_ok_def call_def\<close>)
  qed
  have "run_ok (svc_subscribe (app_service P base_url gh) req) ?Q w"
    unfolding svc_subscribe_def
    using True two
    by (auto simp: repository_subs_def intro!: check run_ok_quiet [where w = w, OF quiet_find time.idle_repository(1)]
        split: sum.split option.split)
  with run show ?thesis by (simp add: run_ok_def)
qed (use run in \<open>simp add: svc_subscribe_def ret_def\<close>)

end

end
