(* ===== verification/ScanLoop.thy ===== *)
theory ScanLoop imports Scanner begin

text \<open>
  \<open>Scanner.Run\<close> of \<open>internal/app/scanner/scanner.go\<close>: the first cycle, the ticker with its channel
  of one place, the loop that waits for a tick or for the cancellation, and the tick that is
  dropped after a long cycle. Time is in nanoseconds; the cycle itself is \<open>run_once\<close>.
\<close>

section \<open>The loop\<close>

text \<open>Where the goroutine is: before or in the first cycle, in \<open>select\<close>, in a cycle since some time.\<close>

datatype loop_at = First_cycle | Selecting | Cycle_since int | Stopped | Crashed

record 'w scan_loop =
  sl_at :: loop_at
  sl_now :: int
  sl_due :: int
  sl_tick :: "int option"
  sl_cancelled :: bool
  sl_cycles :: "(int \<times> int) list"
  sl_world :: 'w

text \<open>
  \<open>time.NewTicker(s.cfg.Interval)\<close>: the channel is empty and the first tick is due an interval
  later. A tick carries its time.
\<close>

definition loop_start :: "scanner_config \<Rightarrow> int \<Rightarrow> 'w \<Rightarrow> 'w scan_loop" where
  "loop_start cfg t0 w =
     \<lparr>sl_at = First_cycle, sl_now = t0, sl_due = t0 + sf_interval cfg, sl_tick = None, sl_cancelled = False,
      sl_cycles = [], sl_world = w\<rparr>"

definition tick_budget :: "scanner_config \<Rightarrow> int" where
  "tick_budget cfg = quot64 (int64 (sf_interval cfg * 8)) 10"

text \<open>
  What the goroutine does, and what happens around it: time passes up to the next tick, the
  ticker fires (a tick that finds the channel full is lost), the process is told to stop, the rest of
  the program changes the world as \<open>E\<close> allows.
\<close>

inductive loop_step :: "'w scanner \<Rightarrow> ('w \<Rightarrow> 'w \<Rightarrow> bool) \<Rightarrow> 'w scan_loop \<Rightarrow> 'w scan_loop \<Rightarrow> bool"
  for s :: "'w scanner" and E :: "'w \<Rightarrow> 'w \<Rightarrow> bool" where
  pass: "sl_now l \<le> t \<Longrightarrow> t \<le> sl_due l \<Longrightarrow> loop_step s E l (l\<lparr>sl_now := t\<rparr>)"
| fire: "sl_now l = sl_due l \<Longrightarrow>
    loop_step s E l (l\<lparr>sl_due := sl_due l + sf_interval (sc_cfg s),
      sl_tick := (case sl_tick l of None \<Rightarrow> Some (sl_due l) | Some t \<Rightarrow> Some t)\<rparr>)"
| cancel: "loop_step s E l (l\<lparr>sl_cancelled := True\<rparr>)"
| around: "E (sl_world l) w \<Longrightarrow> loop_step s E l (l\<lparr>sl_world := w\<rparr>)"
| first: "sl_at l = First_cycle \<Longrightarrow> run_once s (sl_world l) = (Return (), w) \<Longrightarrow>
    loop_step s E l (l\<lparr>sl_at := Selecting, sl_world := w\<rparr>)"
| start: "sl_at l = Selecting \<Longrightarrow> sl_tick l = Some t \<Longrightarrow>
    loop_step s E l (l\<lparr>sl_at := Cycle_since (sl_now l), sl_tick := None\<rparr>)"
| finish: "sl_at l = Cycle_since b \<Longrightarrow> run_once s (sl_world l) = (Return (), w) \<Longrightarrow>
    loop_step s E l (l\<lparr>sl_at := Selecting, sl_world := w, sl_cycles := sl_cycles l @ [(b, sl_now l)],
      sl_tick := (if sl_now l - b > tick_budget (sc_cfg s) then None else sl_tick l)\<rparr>)"
| stop: "sl_at l = Selecting \<Longrightarrow> sl_cancelled l \<Longrightarrow> loop_step s E l (l\<lparr>sl_at := Stopped\<rparr>)"
| crash: "sl_at l = First_cycle \<or> sl_at l = Cycle_since b \<Longrightarrow> run_once s (sl_world l) = (Panic p, w) \<Longrightarrow>
    loop_step s E l (l\<lparr>sl_at := Crashed, sl_world := w\<rparr>)"

definition loop_reaches :: "'w scanner \<Rightarrow> ('w \<Rightarrow> 'w \<Rightarrow> bool) \<Rightarrow> 'w scan_loop \<Rightarrow> 'w scan_loop \<Rightarrow> bool" where
  "loop_reaches s E = (loop_step s E)\<^sup>*\<^sup>*"

lemma loop_reaches_induct [consumes 1, case_names start step]:
  assumes "loop_reaches s E l0 l" and "P l0" and "\<And>l l'. P l \<Longrightarrow> loop_step s E l l' \<Longrightarrow> P l'"
  shows "P l"
  using assms(1) unfolding loop_reaches_def by (induction rule: rtranclp_induct) (auto intro: assms)

section \<open>Cycles and ticks\<close>

text \<open>
  How the history is spread over time: every cycle took a tick of its own, cycles follow each
  other, and after one that went over the budget the channel holds no tick from before its end.
\<close>

definition tick_time :: "scanner_config \<Rightarrow> int \<Rightarrow> int \<Rightarrow> bool" where
  "tick_time cfg t0 t \<longleftrightarrow> (\<exists>k. 0 < k \<and> t = t0 + k * sf_interval cfg)"

definition over_budget :: "scanner_config \<Rightarrow> int \<times> int \<Rightarrow> bool" where
  "over_budget cfg c \<longleftrightarrow> snd c - fst c > tick_budget cfg"

definition follows :: "scanner_config \<Rightarrow> int \<Rightarrow> int \<times> int \<Rightarrow> int \<Rightarrow> bool" where
  "follows cfg t0 c b \<longleftrightarrow> snd c \<le> b \<and> (over_budget cfg c \<longrightarrow> (\<exists>t. tick_time cfg t0 t \<and> snd c \<le> t \<and> t \<le> b))"

text \<open>Consecutive elements of a list.\<close>

fun chained :: "('a \<Rightarrow> 'a \<Rightarrow> bool) \<Rightarrow> 'a list \<Rightarrow> bool" where
  "chained R (x # y # xs) \<longleftrightarrow> R x y \<and> chained R (y # xs)"
| "chained R xs \<longleftrightarrow> True"

lemma chained_snoc: "chained R (xs @ [y]) \<longleftrightarrow> chained R xs \<and> (xs \<noteq> [] \<longrightarrow> R (last xs) y)"
  by (induction R xs rule: chained.induct) auto

text \<open>The invariant, clause by clause.\<close>

definition count_inv :: "scanner_config \<Rightarrow> int \<Rightarrow> 'w scan_loop \<Rightarrow> bool" where
  "count_inv cfg t0 l \<longleftrightarrow>
     (\<exists>fired. 0 \<le> fired \<and> sl_due l = t0 + (fired + 1) * sf_interval cfg \<and>
        t0 + fired * sf_interval cfg \<le> sl_now l \<and> sl_now l \<le> sl_due l \<and>
        int (length (sl_cycles l)) + (case sl_at l of Cycle_since b \<Rightarrow> 1 | _ \<Rightarrow> 0) +
          (case sl_tick l of None \<Rightarrow> 0 | Some t \<Rightarrow> 1) \<le> fired)"

definition tick_inv :: "scanner_config \<Rightarrow> int \<Rightarrow> 'w scan_loop \<Rightarrow> bool" where
  "tick_inv cfg t0 l \<longleftrightarrow> (sl_at l = First_cycle \<longrightarrow> sl_cycles l = []) \<and>
     (\<forall>t. sl_tick l = Some t \<longrightarrow> tick_time cfg t0 t \<and> t \<le> sl_now l \<and>
        (sl_at l = Selecting \<and> sl_cycles l \<noteq> [] \<and> over_budget cfg (last (sl_cycles l)) \<longrightarrow>
           snd (last (sl_cycles l)) \<le> t))"

definition cycles_inv :: "scanner_config \<Rightarrow> int \<Rightarrow> 'w scan_loop \<Rightarrow> bool" where
  "cycles_inv cfg t0 l \<longleftrightarrow>
     (\<forall>c \<in> set (sl_cycles l). fst c \<le> snd c \<and> snd c \<le> sl_now l) \<and>
     chained (\<lambda>c d. follows cfg t0 c (fst d)) (sl_cycles l) \<and>
     (\<forall>b. sl_at l = Cycle_since b \<longrightarrow> b \<le> sl_now l \<and>
        (sl_cycles l \<noteq> [] \<longrightarrow> follows cfg t0 (last (sl_cycles l)) b))"

lemma count_inv_start: "0 < sf_interval cfg \<Longrightarrow> count_inv cfg t0 (loop_start cfg t0 w)"
  by (auto simp: count_inv_def loop_start_def)

lemma count_inv_step:
  assumes "loop_step s E l l'" and "count_inv (sc_cfg s) t0 l" and "0 < sf_interval (sc_cfg s)"
  shows "count_inv (sc_cfg s) t0 l'"
  using assms(1)
proof cases
  case fire
  from assms(2) obtain n where "0 \<le> n" "sl_due l = t0 + (n + 1) * sf_interval (sc_cfg s)"
    "int (length (sl_cycles l)) + (case sl_at l of Cycle_since b \<Rightarrow> 1 | _ \<Rightarrow> 0) +
       (case sl_tick l of None \<Rightarrow> 0 | Some t \<Rightarrow> 1) \<le> n"
    by (auto simp: count_inv_def)
  with fire assms(3) show ?thesis
    unfolding count_inv_def
    by (intro exI [of _ "n + 1"]) (auto simp: algebra_simps split: option.splits loop_at.splits)
qed (use assms(2) in \<open>force simp: count_inv_def split: option.splits loop_at.splits\<close>)+

lemma tick_inv_start: "tick_inv cfg t0 (loop_start cfg t0 w)"
  by (simp add: tick_inv_def loop_start_def)

lemma tick_inv_step:
  assumes "loop_step s E l l'" and "tick_inv (sc_cfg s) t0 l" and "count_inv (sc_cfg s) t0 l"
    and "cycles_inv (sc_cfg s) t0 l"
  shows "tick_inv (sc_cfg s) t0 l'"
  using assms(1)
proof cases
  case fire
  from assms(3) have "tick_time (sc_cfg s) t0 (sl_due l)"
    unfolding tick_time_def count_inv_def by (metis add.commute zless_add1_eq zle_add1_eq_le order_le_less add_le_imp_le_left)
  moreover have "sl_cycles l \<noteq> [] \<Longrightarrow> snd (last (sl_cycles l)) \<le> sl_now l"
    using assms(4) by (simp add: cycles_inv_def)
  ultimately show ?thesis
    using fire assms(2) by (auto simp: tick_inv_def split: option.splits)
qed (use assms(2) in \<open>force simp: tick_inv_def over_budget_def split: if_splits\<close>)+

lemma cycles_inv_start: "cycles_inv cfg t0 (loop_start cfg t0 w)"
  by (simp add: cycles_inv_def loop_start_def)

lemma cycles_inv_step:
  assumes "loop_step s E l l'" and "tick_inv (sc_cfg s) t0 l" and "cycles_inv (sc_cfg s) t0 l"
  shows "cycles_inv (sc_cfg s) t0 l'"
  using assms(1)
proof cases
  case (pass t)
  with assms(3) show ?thesis by (force simp: cycles_inv_def)
next
  case (start t)
  have "sl_cycles l \<noteq> [] \<Longrightarrow> snd (last (sl_cycles l)) \<le> sl_now l"
    using assms(3) by (simp add: cycles_inv_def)
  with start assms(2,3) show ?thesis by (auto simp: cycles_inv_def tick_inv_def follows_def)
next
  case (finish b w)
  with assms(3) show ?thesis by (auto simp: cycles_inv_def chained_snoc; fastforce)
qed (use assms(3) in \<open>simp_all add: cycles_inv_def\<close>)

lemma loop_invariant:
  assumes "loop_reaches s E (loop_start (sc_cfg s) t0 w) l" and "0 < sf_interval (sc_cfg s)"
  shows "count_inv (sc_cfg s) t0 l" and "tick_inv (sc_cfg s) t0 l" and "cycles_inv (sc_cfg s) t0 l"
proof -
  have "count_inv (sc_cfg s) t0 l \<and> tick_inv (sc_cfg s) t0 l \<and> cycles_inv (sc_cfg s) t0 l"
    using assms(1)
    by (induction rule: loop_reaches_induct)
       (use assms(2) in \<open>auto intro: count_inv_start tick_inv_start cycles_inv_start
          count_inv_step tick_inv_step cycles_inv_step\<close>)
  then show "count_inv (sc_cfg s) t0 l" "tick_inv (sc_cfg s) t0 l" "cycles_inv (sc_cfg s) t0 l" by simp_all
qed

lemma chained_nth: "chained R xs \<Longrightarrow> Suc i < length xs \<Longrightarrow> R (xs ! i) (xs ! Suc i)"
  by (induction R xs arbitrary: i rule: chained.induct) (auto simp: nth_Cons split: nat.splits)

lemma new_scanner_interval: "0 < sf_interval (sc_cfg (new_scanner repo github notifier cfg))"
  by (simp add: new_scanner_def with_defaults_def Let_def minute_def)

text \<open>An invariant of the world that the cycles and the rest of the program keep is kept by the loop.\<close>

lemma loop_maintains:
  assumes "loop_reaches s E (loop_start cfg t0 w) l" and "I w" and "maintains I (run_once s)"
    and "\<And>a b. E a b \<Longrightarrow> I a \<Longrightarrow> I b"
  shows "I (sl_world l)"
  using assms(1)
proof (induction rule: loop_reaches_induct)
  case start
  then show ?case using assms(2) by (simp add: loop_start_def)
next
  case (step l l')
  from step(2,1) show ?case
    by cases (auto intro: assms(4) maintainsD [OF assms(3)])
qed

text \<open>A cycle panics only when the listing of the repositories does.\<close>

lemma scan_job_returns: "\<exists>b w'. scan_job s repo hit w = (Return b, w')"
proof (cases hit)
  case False
  obtain r w1 where "check_repo s repo w = (r, w1)" by fastforce
  then have "\<exists>x. safe_check_repo s repo w = (Return x, w1)"
    by (cases r) (simp_all add: safe_check_repo_def with_recover_def)
  then obtain x where "safe_check_repo s repo w = (Return x, w1)" ..
  with False show ?thesis by (cases x) (auto simp: scan_job_def call_def)
qed (auto simp: scan_job_def)

lemma run_once_returns:
  assumes "rp_distinct_confirmed_repos (sc_repo s) w = (Return r, w1)"
  shows "\<exists>w'. run_once s w = (Return (), w')"
proof -
  have "\<exists>b' w'. for_each repos (scan_job s) b v = (Return b', w')" for repos b v
  proof (induction repos arbitrary: b v)
    case (Cons repo repos)
    obtain b1 v1 where "scan_job s repo b v = (Return b1, v1)" using scan_job_returns [of s repo b v] by blast
    with Cons [of b1 v1] show ?case by (simp add: call_def)
  qed simp
  then obtain b w' where "\<And>repos. r = Inr repos \<Longrightarrow> for_each repos (scan_job s) False w1 = (Return b, w')"
    by (cases r) (auto, blast)
  with assms show ?thesis by (cases r) (auto simp: run_once_def call_def)
qed
section \<open>How often the scanner scans\<close>

text \<open>
  C38. However long cycles take and whenever the goroutine is scheduled: scans never overlap, there
  are never more of them than whole intervals have passed since the start (the first scan, which
  needs no tick, aside), and a scan that took longer than eight tenths of the interval is not
  followed at once by another: a new tick has to come first.
\<close>

theorem scans_are_spaced:
  assumes "s = new_scanner repo github notifier cfg" and "loop_reaches s E (loop_start (sc_cfg s) t0 w) l"
  shows "let p = sf_interval (sc_cfg s) in
    int (length (sl_cycles l)) * p \<le> sl_now l - t0 \<and>
    (\<forall>i. Suc i < length (sl_cycles l) \<longrightarrow>
       (let (b, e) = sl_cycles l ! i; b' = fst (sl_cycles l ! Suc i) in
        b \<le> e \<and> e \<le> b' \<and>
        (tick_budget (sc_cfg s) < e - b \<longrightarrow> (\<exists>k > 0. e \<le> t0 + k * p \<and> t0 + k * p \<le> b'))))"
proof -
  have p: "0 < sf_interval (sc_cfg s)" using assms(1) new_scanner_interval by simp
  note inv = loop_invariant [OF assms(2) p]
  from inv(1) obtain n where n: "t0 + n * sf_interval (sc_cfg s) \<le> sl_now l" "int (length (sl_cycles l)) \<le> n"
    by (auto simp: count_inv_def split: loop_at.splits option.splits)
  have "int (length (sl_cycles l)) * sf_interval (sc_cfg s) \<le> n * sf_interval (sc_cfg s)"
    using n(2) p by (intro mult_right_mono) simp_all
  with n(1) have count: "int (length (sl_cycles l)) * sf_interval (sc_cfg s) \<le> sl_now l - t0" by simp
  have "fst c \<le> snd c" if "c \<in> set (sl_cycles l)" for c
    using inv(3) that by (simp add: cycles_inv_def)
  moreover have "follows (sc_cfg s) t0 (sl_cycles l ! i) (fst (sl_cycles l ! Suc i))" if "Suc i < length (sl_cycles l)" for i
    using inv(3) that by (auto simp: cycles_inv_def dest: chained_nth)
  ultimately show ?thesis
    using count by (auto simp: follows_def over_budget_def tick_time_def Let_def split: prod.splits)
       (metis nth_mem Suc_lessD fst_conv snd_conv)+
qed

text \<open>
  A scanner with nobody to serve, every five minutes. Its second cycle takes six; the tick that
  came meanwhile is dropped, and the next cycle begins with the tick after.
\<close>

definition idle_scanner :: "unit scanner" where
  "idle_scanner =
     new_scanner \<lparr>rp_distinct_confirmed_repos = ret (Inr []), rp_confirmed_by_repo = (\<lambda>repo. ret (Inr [])),
         rp_get_watched = (\<lambda>repo. ret (Inr None)), rp_save_tag = (\<lambda>repo tag. ret None)\<rparr>
       (\<lambda>owner name. ret (Inr [])) (\<lambda>email repo tag token. ret None) \<lparr>sf_interval = 0, sf_concurrency = 0\<rparr>"

lemma idle_cycle: "run_once idle_scanner () = (Return (), ())"
  by (simp add: run_once_def idle_scanner_def new_scanner_def Let_def)

lemma idle_interval: "sf_interval (sc_cfg idle_scanner) = 5 * minute" "tick_budget (sc_cfg idle_scanner) = 4 * minute"
  by (simp_all add: idle_scanner_def new_scanner_def with_defaults_def Let_def tick_budget_def quot64_def
      int64_def minute_def)

definition idle_loop :: "loop_at \<Rightarrow> int \<Rightarrow> int \<Rightarrow> int option \<Rightarrow> (int \<times> int) list \<Rightarrow> unit scan_loop" where
  "idle_loop a now due tk cs =
     \<lparr>sl_at = a, sl_now = now, sl_due = due, sl_tick = tk, sl_cancelled = False, sl_cycles = cs, sl_world = ()\<rparr>"

lemma idle_pass:
  "now \<le> t \<Longrightarrow> t \<le> due \<Longrightarrow> loop_step idle_scanner E (idle_loop a now due tk cs) (idle_loop a t due tk cs)"
  using loop_step.pass [of "idle_loop a now due tk cs" t idle_scanner E] by (simp add: idle_loop_def)

lemma idle_fire: "loop_step idle_scanner E (idle_loop a t t None cs) (idle_loop a t (t + 5 * minute) (Some t) cs)"
  using loop_step.fire [of "idle_loop a t t None cs" idle_scanner E] by (simp add: idle_loop_def idle_interval)

lemma idle_begin: "loop_step idle_scanner E (idle_loop Selecting t due (Some u) cs) (idle_loop (Cycle_since t) t due None cs)"
  using loop_step.start [of "idle_loop Selecting t due (Some u) cs" u idle_scanner E] by (simp add: idle_loop_def)

lemma idle_first: "loop_step idle_scanner E (idle_loop First_cycle t due tk cs) (idle_loop Selecting t due tk cs)"
  using loop_step.first [of "idle_loop First_cycle t due tk cs" idle_scanner "()" E]
  by (simp add: idle_loop_def idle_cycle)

lemma idle_finish:
  "loop_step idle_scanner E (idle_loop (Cycle_since b) t due tk cs)
     (idle_loop Selecting t due (if t - b > 4 * minute then None else tk) (cs @ [(b, t)]))"
  using loop_step.finish [of "idle_loop (Cycle_since b) t due tk cs" b idle_scanner "()" E]
  unfolding idle_loop_def scan_loop.simps idle_interval idle_cycle by simp

lemmas idle_steps = idle_pass idle_fire idle_begin idle_first idle_finish

lemma loop_then: "loop_reaches s E a b \<Longrightarrow> loop_step s E b c \<Longrightarrow> loop_reaches s E a c"
  unfolding loop_reaches_def by (rule rtranclp.rtrancl_into_rtrancl)

lemma idle_run:
  "loop_reaches idle_scanner (\<lambda>_ _. False) (idle_loop First_cycle 0 (5 * minute) None [])
     (idle_loop Selecting (15 * minute) (20 * minute) None [(5 * minute, 11 * minute), (15 * minute, 15 * minute)])"
proof -
  let ?R = "loop_reaches idle_scanner (\<lambda>_ _. False) (idle_loop First_cycle 0 (5 * minute) None [])"
  note go = idle_steps [where E = "\<lambda>_ _. False"]
  have "?R (idle_loop First_cycle 0 (5 * minute) None [])" by (simp add: loop_reaches_def)
  from loop_then [OF this go(4)] have "?R (idle_loop Selecting 0 (5 * minute) None [])" .
  from loop_then [OF this go(1) [of _ "5 * minute"]] have "?R (idle_loop Selecting (5 * minute) (5 * minute) None [])"
    by (simp add: minute_def)
  from loop_then [OF this go(2)] have "?R (idle_loop Selecting (5 * minute) (10 * minute) (Some (5 * minute)) [])"
    by (simp add: minute_def)
  from loop_then [OF loop_then [OF this go(3)] go(1) [of _ "10 * minute"]]
  have "?R (idle_loop (Cycle_since (5 * minute)) (10 * minute) (10 * minute) None [])" by (simp add: minute_def)
  from loop_then [OF loop_then [OF this go(2)] go(1) [of _ "11 * minute"]]
  have "?R (idle_loop (Cycle_since (5 * minute)) (11 * minute) (15 * minute) (Some (10 * minute)) [])"
    by (simp add: minute_def)
  from loop_then [OF loop_then [OF this go(5)] go(1) [of _ "15 * minute"]]
  have "?R (idle_loop Selecting (15 * minute) (15 * minute) None [(5 * minute, 11 * minute)])" by (simp add: minute_def)
  from loop_then [OF loop_then [OF loop_then [OF this go(2)] go(3)] go(5)] show ?thesis by (simp add: minute_def)
qed

lemma scans_are_spaced_witness:
  "\<exists>k > 0. 11 * minute \<le> k * (5 * minute) \<and> k * (5 * minute) \<le> 15 * minute"
proof -
  have "loop_start (sc_cfg idle_scanner) 0 () = idle_loop First_cycle 0 (5 * minute) None []"
    by (simp add: loop_start_def idle_loop_def idle_interval)
  with idle_run have "loop_reaches idle_scanner (\<lambda>_ _. False) (loop_start (sc_cfg idle_scanner) 0 ())
     (idle_loop Selecting (15 * minute) (20 * minute) None [(5 * minute, 11 * minute), (15 * minute, 15 * minute)])"
    by simp
  from scans_are_spaced [OF idle_scanner_def this] show ?thesis
    by (auto simp: idle_interval idle_loop_def Let_def minute_def dest!: spec [of _ 0])
qed

end
