(* ===== verification/History.thy ===== *)
theory History imports Mailing ScanLoop begin

text \<open>
  The life of the application as its users see it: any number of subscriptions, clicks on links,
  listings and scan cycles, in any order, with whatever fails in them. What is asked is kept in a
  list, so that a mail can be traced back to the request and the click it rests on.
\<close>

section \<open>Steps and runs\<close>

datatype deed = Asked subscribe_request | Clicked string | Left_by string | Listed string | Scanned | Elapsed

text \<open>
  An operation is one step; between two of them the world may go on as \<open>E\<close> allows. What an operation
  answers does not matter here: it may have failed, or panicked.
\<close>

inductive app_step :: "'w service \<Rightarrow> 'w scanner \<Rightarrow> ('w \<Rightarrow> 'w \<Rightarrow> bool) \<Rightarrow> deed \<Rightarrow> 'w \<Rightarrow> 'w \<Rightarrow> bool"
  for s :: "'w service" and sc :: "'w scanner" and E :: "'w \<Rightarrow> 'w \<Rightarrow> bool" where
  ask: "svc_subscribe s req w = (r, w') \<Longrightarrow> app_step s sc E (Asked req) w w'"
| click: "svc_confirm_subscription s v w = (r, w') \<Longrightarrow> app_step s sc E (Clicked v) w w'"
| leave: "svc_unsubscribe s v w = (r, w') \<Longrightarrow> app_step s sc E (Left_by v) w w'"
| listing: "svc_get_subscriptions parse_ok s raw w = (r, w') \<Longrightarrow> app_step s sc E (Listed raw) w w'"
| scan: "run_once sc w = (r, w') \<Longrightarrow> app_step s sc E Scanned w w'"
| elapse: "E w w' \<Longrightarrow> app_step s sc E Elapsed w w'"

text \<open>A run with its deeds, each with the world it found.\<close>

inductive app_runs ::
  "'w service \<Rightarrow> 'w scanner \<Rightarrow> ('w \<Rightarrow> 'w \<Rightarrow> bool) \<Rightarrow> 'w \<Rightarrow> (deed \<times> 'w) list \<Rightarrow> 'w \<Rightarrow> bool"
  for s :: "'w service" and sc :: "'w scanner" and E :: "'w \<Rightarrow> 'w \<Rightarrow> bool" and w0 :: 'w where
  begins: "app_runs s sc E w0 [] w0"
| continues: "app_runs s sc E w0 ds w \<Longrightarrow> app_step s sc E d w w' \<Longrightarrow> app_runs s sc E w0 (ds @ [(d, w)]) w'"

section \<open>What a mail rests on\<close>

definition asked_for :: "(deed \<times> 'w) list \<Rightarrow> subscribe_request \<Rightarrow> bool" where
  "asked_for ds req \<longleftrightarrow> Asked req \<in> fst ` set ds"

text \<open>A click on a link that, when it was clicked, was a confirmation link of the account.\<close>

definition consented :: "('w \<Rightarrow> db) \<Rightarrow> (deed \<times> 'w) list \<Rightarrow> account \<Rightarrow> bool" where
  "consented tables ds k \<longleftrightarrow>
     (\<exists>v w. (Clicked v, w) \<in> set ds \<and> confirm_links (abs_registry (tables w)) v = Some k)"

definition confirmation :: "template_engine \<Rightarrow> composer \<Rightarrow> subscribe_request \<Rightarrow> stored \<Rightarrow> bool" where
  "confirmation tmpl c req m \<longleftrightarrow>
     (\<exists>ct ut cmd. confirmation_mail tmpl c (req_email req) (req_repo req) ct ut cmd \<and>
        sm_subject m = subject_confirmation \<and> sm_id m = confirmation_dedup_id ct \<and> sm_data m = marshal_command cmd)"

definition release_news :: "mail_pred \<Rightarrow> account \<Rightarrow> stored \<Rightarrow> bool" where
  "release_news mail k m \<longleftrightarrow> (\<exists>tag s. account_of s = k \<and> announcement mail (snd k) tag s m)"

text \<open>
  The messages a run adds: confirmations that were asked for, and news for accounts that were
  confirmed before the run or clicked in it.
\<close>

definition warranted ::
  "template_engine \<Rightarrow> composer \<Rightarrow> ('w \<Rightarrow> db) \<Rightarrow> 'w \<Rightarrow> (deed \<times> 'w) list \<Rightarrow> stored \<Rightarrow> bool" where
  "warranted tmpl c tables w0 ds m \<longleftrightarrow>
     (\<exists>req. asked_for ds req \<and> confirmation tmpl c req m) \<or>
     (\<exists>k. release_news (release_mail tmpl c) k m \<and>
        (status (abs_registry (tables w0)) k = Some True \<or> consented tables ds k))"

text \<open>The rest of the world may take its time, no more.\<close>

definition only_time :: "('w \<Rightarrow> db) \<Rightarrow> ('w \<Rightarrow> bus) \<Rightarrow> ('w \<Rightarrow> 'w \<Rightarrow> bool) \<Rightarrow> bool" where
  "only_time tables bus E \<longleftrightarrow> (\<forall>a b. E a b \<longrightarrow> tables b = tables a \<and> idles (bus a) (bus b))"

lemma asked_for_snoc [simp]: "asked_for (ds @ [(d, w)]) req \<longleftrightarrow> asked_for ds req \<or> d = Asked req"
  by (auto simp: asked_for_def)

lemma consented_snoc [simp]:
  "consented tables (ds @ [(d, w)]) k \<longleftrightarrow>
     consented tables ds k \<or> (\<exists>v. d = Clicked v \<and> confirm_links (abs_registry (tables w)) v = Some k)"
  by (auto simp: consented_def)

lemma warranted_snoc: "warranted tmpl c tables w0 ds m \<Longrightarrow> warranted tmpl c tables w0 (ds @ [x]) m"
  by (cases x) (auto simp: warranted_def)

section \<open>The operations, on the registry and the stream\<close>

text \<open>Only a click on its link confirms an account.\<close>

lemma subscribe_confirms_none:
  "registry_subscribe req g r g' \<Longrightarrow> status g' k = Some True \<Longrightarrow> status g k = Some True"
  by (auto simp: registry_subscribe_def joins_def reg_join_def Let_def split: outcome.splits option.splits if_splits)

lemma unsubscribe_confirms_none:
  "registry_unsubscribe v g r g' \<Longrightarrow> status g' k = Some True \<Longrightarrow> status g k = Some True"
  by (auto simp: registry_unsubscribe_def leaves_by_link_def reg_leave_def split: outcome.splits option.splits if_splits)

lemma click_confirms_owner:
  "registry_confirm v g r g' \<Longrightarrow> status g' k = Some True \<Longrightarrow> status g k = Some True \<or> confirm_links g v = Some k"
  by (auto simp: registry_confirm_def confirms_link_def reg_confirm_def reg_spend_def split: outcome.splits option.splits if_splits)

lemma accepts_messages:
  "accepts subj data i b b' \<Longrightarrow> \<exists>ms. bus_msgs b' = bus_msgs b @ ms \<and>
     (\<forall>m \<in> set ms. sm_subject m = subj \<and> sm_id m = i \<and> sm_data m = data)"
  by (auto simp: accepts_def split: if_splits)

lemma mailed_messages:
  assumes "mailed_after_store tmpl c req x r x'"
  shows "\<exists>ms. bus_msgs (snd x') = bus_msgs (snd x) @ ms \<and> (\<forall>m \<in> set ms. confirmation tmpl c req m)"
  using assms unfolding mailed_after_store_def confirmation_def
  by (fastforce simp: idles_def dest!: accepts_messages)

lemma mailed_bus_ok: "mailed_after_store tmpl c req x r x' \<Longrightarrow> bus_ok (snd x) \<Longrightarrow> bus_ok (snd x')"
  by (auto simp: mailed_after_store_def intro: idles_bus_ok accepts_bus_ok)

lemma mailed_window: "mailed_after_store tmpl c req x r x' \<Longrightarrow> bus_window (snd x') = bus_window (snd x)"
  by (auto simp: mailed_after_store_def idles_def accepts_def)

context app_platform
begin

lemma link_operations_idle:
  "meets bus (svc_confirm_subscription (app_service P base_url gh) v) (\<lambda>b r b'. idles b b')"
  "meets bus (svc_unsubscribe (app_service P base_url gh) v) (\<lambda>b r b'. idles b b')"
  "meets bus (svc_get_subscriptions parse_ok (app_service P base_url gh) raw) (\<lambda>b r b'. idles b b')"
  by (auto simp: svc_confirm_subscription_def svc_unsubscribe_def svc_get_subscriptions_def repository_defs Let_def
      intro!: time.idle_rules time.idle_repository split: sum.split option.split)

text \<open>One step: the registry, the stream and the messages.\<close>

lemma step_effect:
  assumes gh: "client_ok tables bus gh" and ok: "schema_ok (tables w)" "0 < bus_window (bus w)"
    and E: "only_time tables bus E"
    and step: "app_step (app_service P base_url gh) (app_scanner P base_url gh cfg) E d w w'"
  shows "schema_ok (tables w') \<and> bus_window (bus w') = bus_window (bus w) \<and> (bus_ok (bus w) \<longrightarrow> bus_ok (bus w')) \<and>
    (\<forall>k. status (abs_registry (tables w')) k = Some True \<longrightarrow> status (abs_registry (tables w)) k = Some True \<or>
       (\<exists>v. d = Clicked v \<and> confirm_links (abs_registry (tables w)) v = Some k)) \<and>
    (\<exists>ms. bus_msgs (bus w') = bus_msgs (bus w) @ ms \<and>
       (\<forall>m \<in> set ms. (\<exists>req. d = Asked req \<and> confirmation (pf_templates P) \<lparr>co_base_url = base_url\<rparr> req m) \<or>
          (\<exists>k. release_news (release_mail (pf_templates P) \<lparr>co_base_url = base_url\<rparr>) k m \<and>
             status (abs_registry (tables w)) k = Some True)))"
  using step
proof cases
  case (ask req r)
  note mails = meetsD [OF subscribe_mails [OF gh] ask(2)]
  from mailed_messages [OF mails] mailed_bus_ok [OF mails] mailed_window [OF mails]
    subscribe_run [OF gh ok(1) ask(2)] ask(1) show ?thesis
    by (auto dest: subscribe_confirms_none)
next
  case (click v r)
  from meetsD [OF link_operations_idle(1) click(2)] have "idles (bus w) (bus w')" .
  with confirm_run [OF gh ok(1) click(2)] click(1) show ?thesis
    by (auto simp: idles_def dest: click_confirms_owner intro: idles_bus_ok [unfolded idles_def])
next
  case (leave v r)
  from meetsD [OF link_operations_idle(2) leave(2)] have "idles (bus w) (bus w')" .
  with unsubscribe_run [OF gh ok(1) leave(2)] show ?thesis
    by (auto simp: idles_def dest: unsubscribe_confirms_none intro: idles_bus_ok [unfolded idles_def])
next
  case (listing parse_ok raw r)
  from meetsD [OF link_operations_idle(3) listing(2)] have "idles (bus w) (bus w')" .
  moreover from meetsD [OF service_env.get_subscriptions_meets [OF service_env [OF gh]] listing(2)]
  have "tables w' = tables w" by (auto simp: get_contract_def)
  ultimately show ?thesis
    using ok(1) by (auto simp: idles_def intro: idles_bus_ok [unfolded idles_def])
next
  case (scan r)
  note s = cycle_run [OF gh ok scan(2)]
  have follows: "status (abs_registry (tables w)) (sub_email x, repo) = Some True" if "x \<in> followers (tables w) repo" for x repo
    using that ok(1) by (auto simp: status_abs followers_def)
  have "abs_registry (tables w') = abs_registry (tables w)"
    using scans_keep(1,2) [OF s] by (simp add: abs_registry_def)
  with scans_messages [OF s] scans_keep(3,4) [OF s] ok(1) cycle_bus_ok [OF gh _ scan(2)] follows show ?thesis
    unfolding release_news_def by (fastforce simp: followers_def)
next
  case elapse
  with E ok(1) show ?thesis
    by (auto simp: only_time_def idles_def intro: idles_bus_ok [unfolded idles_def])
qed

lemma run_effect:
  assumes gh: "client_ok tables bus gh" and ok: "schema_ok (tables w0)" "0 < bus_window (bus w0)" "bus_ok (bus w0)"
    and E: "only_time tables bus E"
    and run: "app_runs (app_service P base_url gh) (app_scanner P base_url gh cfg) E w0 ds w"
  shows "(schema_ok (tables w) \<and> 0 < bus_window (bus w) \<and> bus_ok (bus w)) \<and>
    (\<forall>k. status (abs_registry (tables w)) k = Some True \<longrightarrow>
       status (abs_registry (tables w0)) k = Some True \<or> consented tables ds k) \<and>
    (\<exists>ms. bus_msgs (bus w) = bus_msgs (bus w0) @ ms \<and>
       (\<forall>m \<in> set ms. warranted (pf_templates P) \<lparr>co_base_url = base_url\<rparr> tables w0 ds m))"
  using run
proof (induction rule: app_runs.induct)
  case begins
  then show ?case using ok by simp
next
  case (continues ds w d w')
  then have ok1: "schema_ok (tables w)" "0 < bus_window (bus w)" "bus_ok (bus w)"
    and conf: "\<And>k. status (abs_registry (tables w)) k = Some True \<Longrightarrow>
      status (abs_registry (tables w0)) k = Some True \<or> consented tables ds k" by auto
  from continues.IH obtain ms where ms: "bus_msgs (bus w) = bus_msgs (bus w0) @ ms"
    "\<And>m. m \<in> set ms \<Longrightarrow> warranted (pf_templates P) \<lparr>co_base_url = base_url\<rparr> tables w0 ds m" by blast
  note effect = step_effect [OF gh ok1(1,2) E continues(2)]
  from effect obtain ms' where ms': "bus_msgs (bus w') = bus_msgs (bus w) @ ms'"
    "\<And>m. m \<in> set ms' \<Longrightarrow> (\<exists>req. d = Asked req \<and> confirmation (pf_templates P) \<lparr>co_base_url = base_url\<rparr> req m) \<or>
       (\<exists>k. release_news (release_mail (pf_templates P) \<lparr>co_base_url = base_url\<rparr>) k m \<and>
          status (abs_registry (tables w)) k = Some True)" by blast
  have "warranted (pf_templates P) \<lparr>co_base_url = base_url\<rparr> tables w0 (ds @ [(d, w)]) m" if "m \<in> set (ms @ ms')" for m
  proof (cases "m \<in> set ms")
    case True
    then show ?thesis by (rule warranted_snoc [OF ms(2)])
  next
    case False
    with that have "m \<in> set ms'" by simp
    from ms'(2) [OF this] conf show ?thesis
      unfolding warranted_def asked_for_snoc consented_snoc by blast
  qed
  with ms(1) ms'(1) have "\<exists>ms. bus_msgs (bus w') = bus_msgs (bus w0) @ ms \<and>
      (\<forall>m \<in> set ms. warranted (pf_templates P) \<lparr>co_base_url = base_url\<rparr> tables w0 (ds @ [(d, w)]) m)"
    by (intro exI [of _ "ms @ ms'"]) simp
  moreover from effect ok1(2,3) have "schema_ok (tables w') \<and> 0 < bus_window (bus w') \<and> bus_ok (bus w')" by simp
  moreover have "status (abs_registry (tables w0)) k = Some True \<or> consented tables (ds @ [(d, w)]) k"
    if "status (abs_registry (tables w')) k = Some True" for k
    using effect [THEN conjunct2, THEN conjunct2, THEN conjunct2, THEN conjunct1, rule_format, OF that] conf [of k]
    unfolding consented_snoc by blast
  ultimately show ?case by blast
qed

end

end
