(* ===== verification/Memory.thy ===== *)
theory Memory imports Repository begin

text \<open>
  An in-memory database that keeps the promises of \<open>Gorm\<close>: executable, with a clock and a
  script of faults, so that runs of the program, successful or not, can be evaluated.
\<close>

section \<open>The store\<close>

text \<open>
  Each statement consumes one fault of the script: it goes well, fails without effect, takes
  effect but loses its acknowledgement, or crashes the caller. After the script all goes well.
\<close>

datatype fault = Fine | Fails | Lost | Crash

record store =
  tables :: db
  tick :: time
  faults :: "fault list"

definition fault_now :: "'z store_scheme \<Rightarrow> fault" where
  "fault_now w = (case faults w of [] \<Rightarrow> Fine | f # _ \<Rightarrow> f)"

definition advance :: "'z store_scheme \<Rightarrow> 'z store_scheme" where
  "advance w = w\<lparr>tick := tick w + 1, faults := tl (faults w)\<rparr>"

lemma advance_tables [simp]: "tables (advance w) = tables w"
  by (simp add: advance_def)

text \<open>A statement, from what it does to the tables at a given time.\<close>

definition statement ::
  "(db \<Rightarrow> time \<Rightarrow> error + 'a \<times> db) \<Rightarrow> ('z store_scheme, error + 'a) io" where
  "statement f w =
     (case (fault_now w, f (tables w) (tick w)) of
        (Fails, _) \<Rightarrow> (Return (Inl (Extern ''connection refused'')), advance w)
      | (Crash, _) \<Rightarrow> (Panic ''driver'', advance w)
      | (_, Inl e) \<Rightarrow> (Return (Inl e), advance w)
      | (Fine, Inr (a, d)) \<Rightarrow> (Return (Inr a), (advance w)\<lparr>tables := d\<rparr>)
      | (Lost, Inr (a, d)) \<Rightarrow> (Return (Inl (Extern ''connection reset'')), (advance w)\<lparr>tables := d\<rparr>))"

definition statement_err :: "(db \<Rightarrow> time \<Rightarrow> error + db) \<Rightarrow> ('z store_scheme, error option) io" where
  "statement_err f =
     call (statement (\<lambda>d now. map_sum id (Pair ()) (f d now)))
       (\<lambda>r. ret (case r of Inl e \<Rightarrow> Some e | Inr _ \<Rightarrow> None))"

lemma statement_execute:
  assumes "\<And>d now a d'. f d now = Inr (a, d') \<Longrightarrow> R d a d'"
    and "\<And>d now e. f d now = Inl e \<Longrightarrow> foreign e"
  shows "meets tables (statement f) (execute R)"
  using assms
  by (intro meetsI)
     (auto simp: statement_def execute_def split: fault.splits sum.splits prod.splits; blast)

lemma statement_query:
  assumes "\<And>d now a d'. f d now = Inr (a, d') \<Longrightarrow> R d a \<and> d' = d"
    and "\<And>d now e. f d now = Inl e \<Longrightarrow> foreign e \<and> (errors_is e ErrRecordNotFound \<longrightarrow> N d)"
  shows "meets tables (statement f) (query R N)"
  using assms
  by (intro meetsI)
     (auto simp: statement_def query_def foreign_def split: fault.splits sum.splits prod.splits)

lemma statement_perform:
  assumes "\<And>d now d'. f d now = Inr d' \<Longrightarrow> R d d'" and "\<And>d now e. f d now = Inl e \<Longrightarrow> foreign e"
  shows "meets tables (statement_err f) (perform R)"
  unfolding statement_err_def
proof (rule meets_call)
  show "meets tables (statement (\<lambda>d now. map_sum id (Pair ()) (f d now))) (execute (\<lambda>d _ d'. R d d'))"
    using assms by (intro statement_execute) (auto simp: map_sum_def split: sum.splits)
  show "meets tables (ret (case r of Inl e \<Rightarrow> Some e | Inr _ \<Rightarrow> None))
      (\<lambda>d o1 d'. d' = d \<and> o1 = Return (case r of Inl e \<Rightarrow> Some e | Inr _ \<Rightarrow> None))" for r
    by (simp add: meets_ret)
qed (auto simp: execute_def perform_def split: sum.splits)

section \<open>Statements on the tables\<close>

definition duplicate_key :: error where
  "duplicate_key = Extern ''ERROR: duplicate key value violates unique constraint (SQLSTATE 23505)''"

definition mem_insert_sub :: "subscription \<Rightarrow> db \<Rightarrow> time \<Rightarrow> error + subscription \<times> db" where
  "mem_insert_sub s d now =
     (let i = if sub_id s = 0 then sub_seq d else sub_id s;
          s' = s\<lparr>sub_id := i, sub_created_at := now, sub_updated_at := now\<rparr>
      in if (\<exists>r \<in> set (subs d). sub_id r = i \<or> sub_unsubscribe_token r = sub_unsubscribe_token s \<or>
               sub_email r = sub_email s \<and> sub_repo r = sub_repo s)
         then Inl duplicate_key
         else Inr (s', d\<lparr>subs := subs d @ [s'], sub_seq := max (sub_seq d) (Suc i)\<rparr>))"

definition mem_insert_tok :: "confirmation_token \<Rightarrow> db \<Rightarrow> time \<Rightarrow> error + confirmation_token \<times> db" where
  "mem_insert_tok t d now =
     (let i = if tok_id t = 0 then tok_seq d else tok_id t;
          t' = t\<lparr>tok_id := i, tok_created_at := now\<rparr>
      in if (\<exists>r \<in> set (toks d). tok_id r = i \<or> tok_token r = tok_token t) \<or>
            tok_subscription_id t \<notin> set (map sub_id (subs d))
         then Inl duplicate_key
         else Inr (t', d\<lparr>toks := toks d @ [t'], tok_seq := max (tok_seq d) (Suc i)\<rparr>))"

text \<open>The first row that matches, by primary key.\<close>

definition first_row :: "('r \<Rightarrow> nat) \<Rightarrow> ('r \<Rightarrow> bool) \<Rightarrow> 'r list \<Rightarrow> 'r option" where
  "first_row key P rows =
     (case filter P rows of [] \<Rightarrow> None | r # rs \<Rightarrow> Some (fold (\<lambda>x m. if key x < key m then x else m) rs r))"

lemma fold_min_key:
  "fold (\<lambda>x m. if key x < key m then x else m) rs r \<in> insert r (set rs) \<and>
   (\<forall>x \<in> insert r (set rs). (key (fold (\<lambda>x m. if key x < key m then x else m) rs r) :: nat) \<le> key x)"
proof (induction rs arbitrary: r)
  case (Cons a rs)
  from Cons [of a] Cons [of r] show ?case by force
qed simp

lemma first_row_Some: "first_row key P rows = Some r \<Longrightarrow> is_first key P rows r"
proof (cases "filter P rows")
  case (Cons x xs)
  assume f: "first_row key P rows = Some r"
  have s: "insert x (set xs) = {y \<in> set rows. P y}"
    using Cons by (metis list.simps(15) set_filter)
  from f Cons fold_min_key [of key xs x] show ?thesis
    unfolding s by (auto simp: first_row_def is_first_def)
qed (simp add: first_row_def)

lemma first_row_None: "first_row key P rows = None \<longleftrightarrow> (\<forall>x \<in> set rows. \<not> P x)"
  using filter_empty_conv [of P rows] by (auto simp: first_row_def split: list.splits)

definition found_or :: "'a option \<Rightarrow> db \<Rightarrow> error + 'a \<times> db" where
  "found_or a d = (case a of None \<Rightarrow> Inl (Sentinel ErrRecordNotFound) | Some x \<Rightarrow> Inr (x, d))"

definition preload :: "db \<Rightarrow> confirmation_token \<Rightarrow> confirmation_token" where
  "preload d t = t\<lparr>tok_subscription :=
     (case List.find (\<lambda>s. sub_id s = tok_subscription_id t) (subs d) of
        None \<Rightarrow> zero_subscription | Some s \<Rightarrow> s)\<rparr>"

text \<open>
  A transaction: an error or a panic of the body restores the tables; the commit itself is
  subject to the next fault.
\<close>

definition mem_transaction ::
  "('z store_scheme, error option) io \<Rightarrow> ('z store_scheme, error option) io" where
  "mem_transaction body w =
     (case body w of
        (Return None, w1) \<Rightarrow>
          (case fault_now w1 of
             Fine \<Rightarrow> (Return None, advance w1)
           | Fails \<Rightarrow> (Return (Some (Extern ''connection refused'')), (advance w1)\<lparr>tables := tables w\<rparr>)
           | Lost \<Rightarrow> (Return (Some (Extern ''connection reset'')), advance w1)
           | Crash \<Rightarrow> (Panic ''driver'', (advance w1)\<lparr>tables := tables w\<rparr>))
      | (Return (Some e), w1) \<Rightarrow> (Return (Some e), (advance w1)\<lparr>tables := tables w\<rparr>)
      | (Panic p, w1) \<Rightarrow> (Panic p, (advance w1)\<lparr>tables := tables w\<rparr>))"

definition mem_gorm :: "'z store_scheme gorm" where
  "mem_gorm =
     \<lparr>gorm_transaction = mem_transaction,
      gorm_create_sub = (\<lambda>s. statement (mem_insert_sub s)),
      gorm_create_tok = (\<lambda>t. statement (mem_insert_tok t)),
      gorm_first_sub = (\<lambda>P. statement (\<lambda>d now. found_or (first_row sub_id P (subs d)) d)),
      gorm_find_subs = (\<lambda>P. statement (\<lambda>d now. Inr (filter P (subs d), d))),
      gorm_update_subs = (\<lambda>P f. statement_err (\<lambda>d now.
        Inr (d\<lparr>subs := map (\<lambda>s. if P s then (f s)\<lparr>sub_updated_at := now\<rparr> else s) (subs d)\<rparr>))),
      gorm_delete_subs = (\<lambda>P. statement_err (\<lambda>d now. Inr (delete_subs P d))),
      gorm_first_tok_preload = (\<lambda>Q. statement (\<lambda>d now.
        found_or (map_option (preload d) (first_row tok_id Q (toks d))) d)),
      gorm_delete_toks = (\<lambda>Q. statement_err (\<lambda>d now. Inr (delete_toks Q d))),
      gorm_distinct_pluck = (\<lambda>P c. statement (\<lambda>d now. Inr (remdups (map c (filter P (subs d))), d))),
      gorm_first_watched = (\<lambda>W. statement (\<lambda>d now. found_or (List.find W (watched d)) d)),
      gorm_upsert_watched = (\<lambda>wr upd. statement_err (\<lambda>d now. Inr (upsert_watched wr upd now d)))\<rparr>"


section \<open>It keeps the promises\<close>

lemma foreign_duplicate_key [simp]: "foreign duplicate_key"
  by (simp add: duplicate_key_def)

lemma mem_transaction_meets:
  assumes "meets tables body S"
  shows "meets tables (mem_transaction body) (transaction S)"
proof (rule meetsI)
  fix w r w'
  assume run: "mem_transaction body w = (r, w')"
  obtain r1 w1 where body: "body w = (r1, w1)" by fastforce
  from meetsD [OF assms body] have S: "S (tables w) r1 (tables w1)" .
  show "transaction S (tables w) r (tables w')"
  proof (cases r1)
    case (Return x)
    with run body S show ?thesis
      by (cases x) (auto simp: mem_transaction_def transaction_def split: fault.splits)
  next
    case (Panic p)
    with run body show ?thesis by (auto simp: mem_transaction_def transaction_def)
  qed
qed

lemma mem_insert_sub_inserts: "mem_insert_sub s d now = Inr (s', d') \<Longrightarrow> inserts_sub s d s' d'"
  unfolding inserts_sub_def
  by (intro conjI exI [of _ "if sub_id s = 0 then sub_seq d else sub_id s"] exI [of _ now])
     (auto simp: mem_insert_sub_def Let_def image_iff split: if_splits)

lemma mem_insert_tok_inserts: "mem_insert_tok t d now = Inr (t', d') \<Longrightarrow> inserts_tok t d t' d'"
  unfolding inserts_tok_def
  by (intro conjI exI [of _ "if tok_id t = 0 then tok_seq d else tok_id t"] exI [of _ now])
     (auto simp: mem_insert_tok_def Let_def image_iff split: if_splits)

lemma mem_insert_foreign:
  "mem_insert_sub s d now = Inl e \<Longrightarrow> foreign e" "mem_insert_tok t d now = Inl e \<Longrightarrow> foreign e"
  by (auto simp: mem_insert_sub_def mem_insert_tok_def Let_def split: if_splits)

lemma found_or_Inr [simp]: "found_or a d = Inr (x, d') \<longleftrightarrow> a = Some x \<and> d' = d"
  by (auto simp: found_or_def split: option.splits)

lemma found_or_Inl: "found_or a d = Inl e \<Longrightarrow> a = None \<and> foreign e"
  by (auto simp: found_or_def foreign_def split: option.splits)

lemma preload_from:
  "\<exists>s. preload d t = t\<lparr>tok_subscription := s\<rparr> \<and>
     (s = zero_subscription \<or> s \<in> set (subs d) \<and> sub_id s = tok_subscription_id t)"
proof (cases "List.find (\<lambda>s. sub_id s = tok_subscription_id t) (subs d)")
  case (Some s)
  then have "s \<in> set (subs d)" and "sub_id s = tok_subscription_id t"
    by (auto simp: find_Some_iff)
  with Some show ?thesis by (intro exI [of _ s]) (simp add: preload_def)
qed (auto simp: preload_def)

interpretation mem: gorm_postgres mem_gorm tables
proof (unfold_locales, simp_all add: mem_gorm_def)
  show "meets tables (mem_transaction body) (transaction S)" if "meets tables body S"
    for body :: "('z store_scheme, error option) io" and S
    using that by (rule mem_transaction_meets)
  show "meets tables (statement (mem_insert_sub s)) (execute (inserts_sub s))" for s
    by (intro statement_execute) (auto intro: mem_insert_sub_inserts mem_insert_foreign)
  show "meets tables (statement (mem_insert_tok t)) (execute (inserts_tok t))" for t
    by (intro statement_execute) (auto intro: mem_insert_tok_inserts mem_insert_foreign)
  show "meets tables (statement (\<lambda>d now. found_or (first_row sub_id P (subs d)) d))
      (query (\<lambda>d. is_first sub_id P (subs d)) (\<lambda>d. \<forall>s \<in> set (subs d). \<not> P s))" for P
    by (intro statement_query) (auto intro: first_row_Some dest!: found_or_Inl simp: first_row_None)
  show "meets tables (statement (\<lambda>d now. Inr (filter P (subs d), d)))
      (query (\<lambda>d rows. mset rows = filter_mset P (mset (subs d))) (\<lambda>_. False))" for P
    by (intro statement_query) auto
  show "meets tables (statement_err (\<lambda>d now.
        Inr (d\<lparr>subs := map (\<lambda>s. if P s then (f s)\<lparr>sub_updated_at := now\<rparr> else s) (subs d)\<rparr>)))
      (perform (updates_subs P f))" for P f
    by (intro statement_perform) (auto simp: updates_subs_def)
  show "meets tables (statement_err (\<lambda>d now. Inr (delete_subs P d)))
      (perform (\<lambda>d d'. d' = delete_subs P d))" for P
    by (intro statement_perform) auto
  show "meets tables (statement (\<lambda>d now. found_or (map_option (preload d) (first_row tok_id Q (toks d))) d))
      (query (\<lambda>d t. \<exists>t0. is_first tok_id Q (toks d) t0 \<and>
           (\<exists>s. t = t0\<lparr>tok_subscription := s\<rparr> \<and>
             (s = zero_subscription \<or> s \<in> set (subs d) \<and> sub_id s = tok_subscription_id t0)))
         (\<lambda>d. \<forall>t \<in> set (toks d). \<not> Q t))" for Q
  proof (rule statement_query)
    fix d :: db and t d' and now :: time
    assume "found_or (map_option (preload d) (first_row tok_id Q (toks d))) d = Inr (t, d')"
    then obtain t0 where "is_first tok_id Q (toks d) t0" "t = preload d t0" "d' = d"
      by (auto dest: first_row_Some)
    with preload_from [of d t0] show "(\<exists>t0. is_first tok_id Q (toks d) t0 \<and>
         (\<exists>s. t = t0\<lparr>tok_subscription := s\<rparr> \<and>
           (s = zero_subscription \<or> s \<in> set (subs d) \<and> sub_id s = tok_subscription_id t0))) \<and> d' = d"
      by blast
  qed (auto dest!: found_or_Inl simp: first_row_None)
  show "meets tables (statement_err (\<lambda>d now. Inr (delete_toks Q d)))
      (perform (\<lambda>d d'. d' = delete_toks Q d))" for Q
    by (intro statement_perform) auto
  show "meets tables (statement (\<lambda>d now. Inr (remdups (map c (filter P (subs d))), d)))
      (query (\<lambda>d cs. distinct cs \<and> set cs = c ` {s \<in> set (subs d). P s}) (\<lambda>_. False))" for P c
    by (intro statement_query) auto
  show "meets tables (statement (\<lambda>d now. found_or (List.find W (watched d)) d))
      (query (\<lambda>d w. w \<in> set (watched d) \<and> W w) (\<lambda>d. \<forall>w \<in> set (watched d). \<not> W w))" for W
    by (intro statement_query) (auto dest!: found_or_Inl simp: find_None_iff find_Some_iff)
  show "meets tables (statement_err (\<lambda>d now. Inr (upsert_watched wr upd now d)))
      (perform (upserts_watched wr upd))" for wr upd
    by (intro statement_perform) (auto simp: upserts_watched_def)
qed

end
