(* ===== verification/Simulator.thy ===== *)
theory Simulator imports Memory App begin

text \<open>
  A whole platform in memory: the database of \<open>Memory\<close>, a GitHub that answers by URL, a Redis,
  a message bus with its deduplication, and a source of identifiers. All of it runs under one
  script of faults. The contracts that the other theories assume hold of it, so none of them is
  empty, and runs of the wired program can be evaluated.
\<close>

record world = store +
  sim_github :: "string \<Rightarrow> http_response"
  sim_log :: "(http_request \<times> http_response) list"
  sim_entries :: "(string \<times> string) list"
  sim_bus :: bus
  sim_uuids :: nat

definition sim_answered :: "'z world_scheme \<Rightarrow> (http_request \<times> http_response) set" where
  "sim_answered w = set (sim_log w)"

definition sim_entry_map :: "'z world_scheme \<Rightarrow> string \<rightharpoonup> string" where
  "sim_entry_map w = map_of (sim_entries w)"

definition sim_do :: "int \<Rightarrow> http_request \<Rightarrow> ('z world_scheme, error + http_response) io" where
  "sim_do t req w =
     (case fault_now w of
        Fine \<Rightarrow>
          (let resp = (sim_github w (rq_url req))\<lparr>rs_body_error := None\<rparr>
           in (Return (Inr resp), (advance w)\<lparr>sim_log := (req, resp) # sim_log w\<rparr>))
      | Crash \<Rightarrow> (Panic ''transport'', advance w)
      | _ \<Rightarrow> (Return (Inl (Extern ''connection refused'')), advance w))"

definition sim_transport :: "'z world_scheme transport" where
  "sim_transport = \<lparr>tr_parse_url = (\<lambda>url. None), tr_do = sim_do\<rparr>"

definition sim_get :: "string \<Rightarrow> ('z world_scheme, error + string) io" where
  "sim_get key w =
     (case fault_now w of
        Fine \<Rightarrow> (Return (case sim_entry_map w key of None \<Rightarrow> Inl (Sentinel RedisNil) | Some v \<Rightarrow> Inr v), advance w)
      | Crash \<Rightarrow> (Panic ''redis'', advance w)
      | _ \<Rightarrow> (Return (Inl (Extern ''connection refused'')), advance w))"

definition sim_set :: "string \<Rightarrow> string \<Rightarrow> int \<Rightarrow> ('z world_scheme, error option) io" where
  "sim_set key value ttl w =
     (case fault_now w of
        Fine \<Rightarrow> (Return None, (advance w)\<lparr>sim_entries := (key, value) # sim_entries w\<rparr>)
      | Lost \<Rightarrow> (Return (Some (Extern ''i/o timeout'')), (advance w)\<lparr>sim_entries := (key, value) # sim_entries w\<rparr>)
      | Fails \<Rightarrow> (Return (Some (Extern ''connection refused'')), advance w)
      | Crash \<Rightarrow> (Panic ''redis'', advance w))"

definition sim_redis :: "'z world_scheme redis" where
  "sim_redis = \<lparr>rd_get = sim_get, rd_set = sim_set\<rparr>"

definition bus_accept :: "string \<Rightarrow> string \<Rightarrow> string \<Rightarrow> bus \<Rightarrow> bus" where
  "bus_accept subj data i b =
     (let t = bus_now b + 1 in
      b\<lparr>bus_now := t,
        bus_msgs := (if is_duplicate i t b then bus_msgs b
          else bus_msgs b @ [\<lparr>sm_subject = subj, sm_data = data, sm_id = i, sm_time = t\<rparr>])\<rparr>)"

definition sim_publish :: "string \<Rightarrow> string \<Rightarrow> string option \<Rightarrow> ('z world_scheme, error option) io" where
  "sim_publish subj data i w =
     (let w' = (advance w)\<lparr>sim_bus := bus_accept subj data (case i of None \<Rightarrow> [] | Some x \<Rightarrow> x) (sim_bus w)\<rparr> in
      case fault_now w of
        Fine \<Rightarrow> (Return None, w')
      | Lost \<Rightarrow> (Return (Some (Extern ''nats: timeout'')), w')
      | Fails \<Rightarrow> (Return (Some (Extern ''nats: no response from stream'')), advance w)
      | Crash \<Rightarrow> (Panic ''nats'', advance w))"

definition sim_jetstream :: "'z world_scheme jetstream" where
  "sim_jetstream =
     \<lparr>js_publish = sim_publish, js_create_stream = (\<lambda>cfg. ret None),
      js_create_or_update_stream = (\<lambda>cfg. ret None)\<rparr>"

definition sim_uuid :: "'z world_scheme \<Rightarrow> string" where
  "sim_uuid w = ''uuid-'' @ decimal (sim_uuids w)"

definition sim_uuid_new :: "('z world_scheme, error + string) io" where
  "sim_uuid_new w =
     (case fault_now w of
        Fine \<Rightarrow> (Return (Inr (sim_uuid w)), (advance w)\<lparr>sim_uuids := Suc (sim_uuids w)\<rparr>)
      | _ \<Rightarrow> (Return (Inl (Extern ''no entropy'')), advance w))"

definition sim_uuid_string :: "('z world_scheme, string) io" where
  "sim_uuid_string w = (Return (sim_uuid w), w\<lparr>sim_uuids := Suc (sim_uuids w)\<rparr>)"

text \<open>A template engine that shows the data it is given.\<close>

definition sim_templates :: template_engine where
  "sim_templates name values =
     Inr (''<html>'' @ (case values ''Repo'' of None \<Rightarrow> [] | Some x \<Rightarrow> x) @ '' '' @
       (case values ''UnsubscribeURL'' of None \<Rightarrow> [] | Some x \<Rightarrow> x) @ ''</html>'')"

definition sim_platform :: "'z world_scheme platform" where
  "sim_platform =
     \<lparr>pf_gorm = mem_gorm, pf_transport = sim_transport, pf_redis = sim_redis,
      pf_jetstream = sim_jetstream, pf_templates = sim_templates,
      pf_uuid_new = sim_uuid_new, pf_uuid_string = sim_uuid_string\<rparr>"

section \<open>It keeps its promises\<close>

lemma advance_fields [simp]:
  "sim_github (advance w) = sim_github w" "sim_log (advance w) = sim_log w"
  "sim_entries (advance w) = sim_entries w" "sim_bus (advance w) = sim_bus w"
  "sim_uuids (advance w) = sim_uuids w"
  by (simp_all add: advance_def)

lemmas sim_defs = sim_do_def sim_get_def sim_set_def sim_publish_def sim_uuid_new_def sim_uuid_string_def
  sim_answered_def sim_entry_map_def

text \<open>The database leaves the rest of the world alone.\<close>

lemma more_statement: "sim_bus (snd (statement f w)) = sim_bus w"
  by (auto simp: statement_def split: fault.splits sum.splits prod.splits)

lemma more_statement_err: "sim_bus (snd (statement_err f w)) = sim_bus w"
  using more_statement [of "\<lambda>d now. map_sum id (Pair ()) (f d now)" w]
  by (auto simp: statement_err_def call_def split: prod.splits outcome.splits)

lemma idle_statements:
  "meets sim_bus (statement f) (\<lambda>b r b'. idles b b')" "meets sim_bus (statement_err f') (\<lambda>b r b'. idles b b')"
  by (simp_all add: meets_def more_statement more_statement_err)

lemma idle_mem_transaction:
  assumes "meets sim_bus body (\<lambda>b r b'. idles b b')"
  shows "meets sim_bus (mem_transaction body) (\<lambda>b r b'. idles b b')"
proof (rule meetsI)
  fix w r w'
  assume run: "mem_transaction body w = (r, w')"
  obtain r1 w1 where body: "body w = (r1, w1)" by fastforce
  from meetsD [OF assms body] run body show "idles (sim_bus w) (sim_bus w')"
    by (auto simp: mem_transaction_def split: outcome.splits option.splits fault.splits)
qed

interpretation sim_time: idle_gorm mem_gorm sim_bus
  by unfold_locales (simp_all add: mem_gorm_def idle_statements idle_mem_transaction)

lemma bus_accept_accepts: "accepts subj data i b (bus_accept subj data i b)"
  unfolding accepts_def by (intro conjI exI [of _ "bus_now b + 1"]) (simp_all add: bus_accept_def Let_def is_duplicate_def)

interpretation sim_stream: jetstream_bus sim_jetstream sim_bus
  by unfold_locales
     (auto simp: meets_def sim_jetstream_def sim_publish_def publish_contract_def Let_def
        bus_accept_accepts split: fault.split)

interpretation sim_api: github_api sim_transport sim_answered
  by unfold_locales (auto simp: meets_def sim_transport_def sim_defs Let_def split: fault.split)

interpretation sim_cache: redis_server sim_redis sim_entry_map
  by unfold_locales
     (auto simp: meets_def sim_redis_def sim_defs map_le_def split: fault.split option.split)

lemma sim_asides:
  "aside tables sim_bus (sim_do t req)" "aside tables sim_bus (sim_get key)"
  "aside tables sim_bus (sim_set key value ttl)" "aside tables sim_bus sim_uuid_new"
  "aside tables sim_bus sim_uuid_string"
  by (auto simp: aside_def keeps_def meets_def sim_defs Let_def split: fault.split)

interpretation sim: app_platform sim_platform tables sim_bus sim_answered sim_entry_map
proof -
  have fields: "pf_gorm sim_platform = mem_gorm" "pf_transport sim_platform = sim_transport"
      "pf_redis sim_platform = sim_redis" "pf_jetstream sim_platform = sim_jetstream"
      "pf_templates sim_platform = sim_templates" "pf_uuid_new sim_platform = sim_uuid_new"
      "pf_uuid_string sim_platform = sim_uuid_string"
    by (simp_all add: sim_platform_def)
  show "app_platform sim_platform tables sim_bus sim_answered sim_entry_map"
    unfolding app_platform_def app_platform_axioms_def fields
    by (intro conjI allI mem.gorm_postgres_axioms sim_time.idle_gorm_axioms sim_stream.jetstream_bus_axioms
          sim_api.github_api_axioms sim_cache.redis_server_axioms)
       (auto simp: sim_transport_def sim_redis_def sim_jetstream_def sim_asides keeps_def sim_defs
          sim_templates_def Let_def split: fault.splits)
qed


section \<open>A world to run in\<close>

text \<open>
  One subscriber is stored already, unconfirmed, and one repository is watched. GitHub knows
  the repository and has a release; a fault script can be put in.
\<close>

definition demo_release :: string where
  "demo_release = marshal_struct [(''tag_name'', ''v2'')]"

definition demo_github :: "string \<Rightarrow> http_response" where
  "demo_github url =
     (if url = ''https://api.github.com/repos/golang/go'' then
        \<lparr>rs_status = 200, rs_header = Map.empty, rs_body = [], rs_body_error = None\<rparr>
      else if url = ''https://api.github.com/repos/golang/go/releases/latest'' then
        \<lparr>rs_status = 200, rs_header = Map.empty, rs_body = demo_release, rs_body_error = None\<rparr>
      else if url = ''https://api.github.com/repos/busy/one'' then
        \<lparr>rs_status = 403, rs_header = header_set ''Retry-After'' ''60'' Map.empty, rs_body = [], rs_body_error = None\<rparr>
      else \<lparr>rs_status = 404, rs_header = Map.empty, rs_body = [], rs_body_error = None\<rparr>)"

definition demo_sub :: subscription where
  "demo_sub =
     \<lparr>sub_id = 1, sub_email = ''ann@example.org'', sub_repo = ''golang/go'', sub_confirmed = False,
      sub_unsubscribe_token = ''bye'', sub_created_at = 0, sub_updated_at = 0\<rparr>"

definition demo_tok :: confirmation_token where
  "demo_tok =
     \<lparr>tok_id = 1, tok_token = ''yes'', tok_subscription_id = 1, tok_subscription = zero_subscription,
      tok_created_at = 0\<rparr>"

definition demo_db :: db where
  "demo_db =
     \<lparr>subs = [demo_sub], toks = [demo_tok],
      watched = [\<lparr>watched_name = ''golang/go'', last_seen_tag = ''v1'', last_polled_at = 0\<rparr>],
      sub_seq = 2, tok_seq = 2\<rparr>"

definition demo_bus :: bus where
  "demo_bus = \<lparr>bus_msgs = [], bus_window = 900, bus_now = 0\<rparr>"

definition demo_world :: "db \<Rightarrow> fault list \<Rightarrow> world" where
  "demo_world d fs =
     \<lparr>tables = d, tick = 1000, faults = fs, sim_github = demo_github, sim_log = [], sim_entries = [],
      sim_bus = demo_bus, sim_uuids = 7\<rparr>"

definition demo_url :: string where "demo_url = ''https://releasely.example''"

definition demo_client :: "world github_client" where
  "demo_client =
     app_github sim_platform \<lparr>gc_token = [], gc_request_timeout = 10 * second\<rparr> ''redis://localhost'' True"

definition demo_service :: "world service" where
  "demo_service = app_service sim_platform demo_url demo_client"

definition demo_scanner :: "world scanner" where
  "demo_scanner = app_scanner sim_platform demo_url demo_client \<lparr>sf_interval = 5 * minute, sf_concurrency = 8\<rparr>"

text \<open>The same after the subscriber has confirmed.\<close>

definition demo_followed :: db where
  "demo_followed = demo_db\<lparr>subs := [demo_sub\<lparr>sub_confirmed := True\<rparr>], toks := []\<rparr>"

lemma schema_ok_demo_followed: "schema_ok demo_followed"
  by (simp add: schema_defs demo_followed_def demo_db_def demo_sub_def)

lemma schema_ok_demo_db: "schema_ok demo_db"
  by (simp add: schema_defs demo_db_def demo_sub_def demo_tok_def)

lemma demo_client_ok: "client_ok tables sim_bus demo_client"
  unfolding demo_client_def by (rule sim.app_client_ok)

text \<open>The contracts of the wired program, on this world.\<close>

interpretation demo_service: service_env demo_service tables
  unfolding demo_service_def by (rule sim.service_env [OF demo_client_ok])

interpretation demo_scanner: scanner_env demo_scanner tables sim_bus
  "release_mail sim_templates \<lparr>co_base_url = demo_url\<rparr>"
  using sim.scanner_env [OF demo_client_ok] by (simp add: demo_scanner_def sim_platform_def)

interpretation demo_mail: mail_env sim_templates sim_uuid_string "app_notifier sim_platform demo_url" sim_bus
  using sim.mail_env [of demo_url] by (simp add: sim_platform_def)

lemma sim_redis_answered:
  "keeps sim_answered (cs_get (redis_store sim_redis) k)"
  "keeps sim_answered (cs_set_ex (redis_store sim_redis) k v t)"
  by (auto simp: redis_store_def redis_get_def redis_set_ex_def sim_redis_def keeps_def call_def sim_defs
      split: fault.splits option.splits sum.splits)

lemma sim_http_entries: "keeps sim_entry_map (tr_do sim_transport t req)"
  by (auto simp: sim_transport_def keeps_def sim_defs Let_def split: fault.split)

lemma demo_cache_axioms: "cached_github sim_transport sim_answered
    \<lparr>cc_inner = c, cc_store = redis_store sim_redis\<rparr> sim_entry_map"
  unfolding cached_github_def cached_github_axioms_def cached_client.simps
  by (intro conjI allI sim_redis_answered sim_http_entries sim_api.github_api_axioms
        sim_cache.store.entry_store_axioms)

interpretation demo_cache: cached_github sim_transport sim_answered
  "\<lparr>cc_inner = c, cc_store = redis_store sim_redis\<rparr>" sim_entry_map for c
  by (rule demo_cache_axioms)

text \<open>A second subscription of the same account, step by step.\<close>

lemma demo_subscribe_again:
  "svc_subscribe demo_service \<lparr>req_email = ''ann@example.org'', req_repo = ''golang/go''\<rparr> (demo_world demo_db []) =
     (Return (Some (Sentinel ErrAlreadySubscribed)), advance (demo_world demo_db []))"
proof -
  have "repo_format_matches ''golang/go''" by code_simp
  then show ?thesis
    by (simp add: svc_subscribe_def demo_service_def repository_defs sim_platform_def mem_gorm_def
        find_subscription_by_email_and_repo_def statement_def call_def fault_now_def found_or_def
        first_row_def not_found_as_nil_def demo_world_def demo_db_def demo_sub_def)
qed

section \<open>A cycle that announces\<close>

text \<open>With a confirmed follower and nothing failing, the check of the repository publishes and moves the cursor.\<close>

lemma demo_scanner_fields:
  "sc_notifier demo_scanner = send_release_notification sim_templates sim_uuid_string (app_notifier sim_platform demo_url)"
  "sc_repo demo_scanner = repository_scans mem_gorm"
  "sc_github demo_scanner = gh_latest_release demo_client"
  by (simp_all add: demo_scanner_def app_scanner_def new_scanner_def Let_def sim_platform_def)

lemma demo_notifies:
  "faults w = [] \<Longrightarrow> \<exists>w'. sc_notifier demo_scanner email repo tag ut (w :: world) = (Return None, w') \<and>
     tables w' = tables w \<and> faults w' = []"
  by (simp add: demo_scanner_fields send_release_notification_def compose_release_def render_email_def sim_templates_def
      Let_def call_def sim_uuid_string_def app_notifier_def new_email_notifier_def nats_publish_def sim_platform_def
      sim_jetstream_def sim_publish_def fault_now_def ret_def advance_def)

text \<open>The tables with the one subscriber confirmed at some time, and the calls of a check on them.\<close>

definition one_follower :: "db \<Rightarrow> bool" where
  "one_follower d \<longleftrightarrow> watched d = watched demo_db \<and> (\<exists>now. subs d = [demo_sub\<lparr>sub_confirmed := True, sub_updated_at := now\<rparr>])"

lemma one_follower_followed: "one_follower demo_followed"
  by (simp add: one_follower_def demo_followed_def demo_sub_def)

lemma one_follower_statements:
  assumes "one_follower (tables w)" and "faults w = []"
  shows "\<exists>seen w'. rp_get_watched (repository_scans mem_gorm) ''golang/go'' w = (Return (Inr (Some seen)), w') \<and>
      is_new_release seen ''v2'' \<and> tables w' = tables w \<and> faults w' = []"
    and "\<exists>w'. rp_confirmed_by_repo (repository_scans mem_gorm) ''golang/go'' w = (Return (Inr (subs (tables w))), w') \<and>
      tables w' = tables w \<and> faults w' = []"
    and "\<exists>w'. rp_save_tag (repository_scans mem_gorm) ''golang/go'' ''v2'' w = (Return None, w') \<and> 
      last_tag (tables w') ''golang/go'' = Some ''v2''"
  using assms by (auto simp: one_follower_def repository_scans_def get_watched_repo_def find_confirmed_subscriptions_by_repo_def
    save_watched_repo_tag_def mem_gorm_def call_def not_found_as_nil_def statement_def statement_err_def fault_now_def
    ret_def demo_db_def demo_sub_def is_new_release_def found_or_def advance_def upsert_watched_def last_tag_def)

lemma check_announces_to_follower:
  assumes w1: "sc_github demo_scanner ''golang'' ''go'' w = (Return (Inr ''v2''), w1)"
    and d: "one_follower (tables w1)" and f: "faults w1 = []"
  shows "\<exists>w'. safe_check_repo demo_scanner ''golang/go'' w = (Return None, w') \<and>
    last_tag (tables w') ''golang/go'' = Some ''v2''"
proof -
  obtain w2 seen where w2: "rp_get_watched (repository_scans mem_gorm) ''golang/go'' w1 = (Return (Inr (Some seen)), w2)"
    "is_new_release seen ''v2''" "tables w2 = tables w1" "faults w2 = []"
    using one_follower_statements(1) [OF d f] by blast
  obtain w3 where w3: "rp_confirmed_by_repo (repository_scans mem_gorm) ''golang/go'' w2 = (Return (Inr (subs (tables w1))), w3)"
    "tables w3 = tables w1" "faults w3 = []"
    using one_follower_statements(2) [of w2] w2(3,4) d by auto
  obtain w4 where w4: "sc_notifier demo_scanner ''ann@example.org'' ''golang/go'' ''v2'' ''bye'' w3 = (Return None, w4)"
    "tables w4 = tables w1" "faults w4 = []"
    using demo_notifies [OF w3(3), of "''ann@example.org''" "''golang/go''" "''v2''" "''bye''"] w3(2) by auto
  obtain w5 where w5: "rp_save_tag (repository_scans mem_gorm) ''golang/go'' ''v2'' w4 = (Return None, w5)"
    "last_tag (tables w5) ''golang/go'' = Some ''v2''"
    using one_follower_statements(3) [of w4] w4(2,3) d by auto
  have s: "split_n 2 ''/'' ''golang/go'' = [''golang'', ''go'']" by code_simp
  have sent: "send_all demo_scanner ''v2'' (subs (tables w1)) w3 = (Return True, w4)"
    using w4(1) d by (auto simp: one_follower_def send_all_def demo_sub_def call_def ret_def)
  show ?thesis using w1(1) w2(1,2) w3(1) sent w5
    by (simp add: safe_check_repo_def check_repo_def s with_recover_def call_def demo_scanner_fields(2) ret_def)
qed

lemma demo_announces:
  "last_tag (tables (snd (safe_check_repo demo_scanner ''golang/go'' (demo_world demo_followed [])))) ''golang/go'' = Some ''v2''"
proof -
  let ?r = "gh_latest_release demo_client ''golang'' ''go'' (demo_world demo_followed [])"
  have r: "fst ?r = Return (Inr ''v2'')" "faults (snd ?r) = []" "tables (snd ?r) = demo_followed"
    by code_simp+
  then have "sc_github demo_scanner ''golang'' ''go'' (demo_world demo_followed []) = (Return (Inr ''v2''), snd ?r)"
    by (metis demo_scanner_fields(3) prod.collapse)
  from check_announces_to_follower [OF this] r one_follower_followed show ?thesis by fastforce
qed

end
