(* ===== verification/Plays.thy ===== *)
theory Plays imports History Simulator begin

text \<open>
  Plays on the platform in memory: the one subscriber clicks on the link that was mailed to her,
  and the next cycle of the scanner mails her a release; somebody else subscribes.
\<close>

definition after_click :: world where
  "after_click = snd (svc_confirm_subscription demo_service ''yes'' (demo_world demo_db []))"

definition after_news :: world where
  "after_news = snd (run_once demo_scanner after_click)"

definition play :: "(deed \<times> world) list" where
  "play = [(Clicked ''yes'', demo_world demo_db []), (Scanned, after_click)]"

lemma play_runs: "app_runs demo_service demo_scanner (\<lambda>_ _. False) (demo_world demo_db []) play after_news"
proof -
  have "app_step demo_service demo_scanner (\<lambda>_ _. False) (Clicked ''yes'') (demo_world demo_db []) after_click"
    unfolding after_click_def by (rule app_step.click [OF prod.collapse [symmetric]])
  note first = app_runs.continues [OF app_runs.begins this]
  have "app_step demo_service demo_scanner (\<lambda>_ _. False) Scanned after_click after_news"
    unfolding after_news_def by (rule app_step.scan [OF prod.collapse [symmetric]])
  from app_runs.continues [OF first this] show ?thesis by (simp add: play_def)
qed

text \<open>The calls of the cycle up to the announcement.\<close>

abbreviation before_check :: world where
  "before_check \<equiv> snd (find_distinct_confirmed_repos mem_gorm after_click)"

lemma click_confirms: "one_follower (tables before_check)" "last_tag (tables before_check) ''golang/go'' = Some ''v1''"
  "demo_sub\<lparr>sub_confirmed := True, sub_updated_at := 1001\<rparr> \<in> set (subs (tables before_check))"
proof -
  have subs: "subs (tables before_check) = [demo_sub\<lparr>sub_confirmed := True, sub_updated_at := 1001\<rparr>]"
    and watched: "watched (tables before_check) = watched demo_db"
    by code_simp+
  then show "one_follower (tables before_check)" "last_tag (tables before_check) ''golang/go'' = Some ''v1''"
    "demo_sub\<lparr>sub_confirmed := True, sub_updated_at := 1001\<rparr> \<in> set (subs (tables before_check))"
    by (auto simp: one_follower_def last_tag_def demo_db_def)
qed

lemma before_check_ok: "schema_ok (tables before_check)" "0 < bus_window (sim_bus before_check)"
proof -
  have "tables before_check = demo_db\<lparr>subs := [demo_sub\<lparr>sub_confirmed := True, sub_updated_at := 1001\<rparr>], toks := []\<rparr>"
    and "bus_window (sim_bus before_check) = 900"
    by code_simp+
  then show "schema_ok (tables before_check)" "0 < bus_window (sim_bus before_check)"
    by (simp_all add: schema_defs demo_db_def demo_sub_def)
qed

lemma play_check:
  "\<exists>w. safe_check_repo demo_scanner ''golang/go'' before_check = (Return None, w) \<and>
     last_tag (tables w) ''golang/go'' = Some ''v2''"
proof -
  let ?r = "gh_latest_release demo_client ''golang'' ''go'' before_check"
  have r: "fst ?r = Return (Inr ''v2'')" "faults (snd ?r) = []" "tables (snd ?r) = tables before_check"
    by code_simp+
  then have "sc_github demo_scanner ''golang'' ''go'' before_check = (Return (Inr ''v2''), snd ?r)"
    by (metis demo_scanner_fields(3) prod.collapse)
  from check_announces_to_follower [OF this] r click_confirms(1) show ?thesis by simp
qed

lemma play_check_run:
  "\<exists>w. safe_check_repo demo_scanner ''golang/go'' before_check = (Return None, w) \<and>
     last_tag (tables w) ''golang/go'' = Some ''v2'' \<and> run_once demo_scanner after_click = (Return (), w)"
proof -
  obtain w where check: "safe_check_repo demo_scanner ''golang/go'' before_check = (Return None, w)"
    and v2: "last_tag (tables w) ''golang/go'' = Some ''v2''" using play_check by blast
  have repos: "fst (find_distinct_confirmed_repos mem_gorm after_click) = Return (Inr [''golang/go''])" by code_simp
  then obtain b where b: "find_distinct_confirmed_repos mem_gorm after_click = (Return (Inr [''golang/go'']), b)"
    by (metis prod.collapse)
  with check have "run_once demo_scanner after_click = (Return (), w)"
    by (simp add: run_once_def demo_scanner_fields(2) repository_scans_def call_def scan_job_def ret_def)
  with check v2 show ?thesis by blast
qed

lemma play_news: "bus_msgs (sim_bus after_news) \<noteq> []"
proof -
  obtain w where check: "safe_check_repo demo_scanner ''golang/go'' before_check = (Return None, w)"
    and v2: "last_tag (tables w) ''golang/go'' = Some ''v2''"
    and run: "run_once demo_scanner after_click = (Return (), w)" using play_check_run by blast
  have "checked (release_mail sim_templates \<lparr>co_base_url = demo_url\<rparr>) ''golang/go''
      (tables before_check, sim_bus before_check) (tables w, sim_bus w)"
    using meetsD [OF demo_scanner.safe_check_repo_meets check] before_check_ok by (simp add: check_contract_def schema_ok_def)
  from checked_cursor [OF this] v2 click_confirms(2,3) have "bus_msgs (sim_bus w) \<noteq> []"
    by (auto simp: followers_def demo_sub_def holds_recent_def)
  with run show ?thesis by (simp add: after_news_def)
qed

text \<open>The same in the loop of the scanner: the click happens while its first cycle is about to start.\<close>

lemma play_loop:
  "\<exists>l. loop_reaches demo_scanner (\<lambda>a b. \<exists>d. app_step demo_service demo_scanner (\<lambda>_ _. False) d a b)
      (loop_start (sc_cfg demo_scanner) 0 (demo_world demo_db [])) l \<and> sl_world l = after_news"
proof -
  let ?E = "\<lambda>a b. \<exists>d. app_step demo_service demo_scanner (\<lambda>_ _. False) d a b"
  let ?l0 = "loop_start (sc_cfg demo_scanner) 0 (demo_world demo_db [])"
  let ?l1 = "?l0\<lparr>sl_world := after_click\<rparr>"
  have "?E (sl_world ?l0) after_click"
    unfolding after_click_def by (auto simp: loop_start_def intro: app_step.click [OF prod.collapse [symmetric]])
  then have click: "loop_step demo_scanner ?E ?l0 ?l1" by (rule loop_step.around)
  have "run_once demo_scanner (sl_world ?l1) = (Return (), after_news)"
    using play_check_run by (auto simp: after_news_def)
  then have "loop_step demo_scanner ?E ?l1 (?l1\<lparr>sl_at := Selecting, sl_world := after_news\<rparr>)"
    by (intro loop_step.first) (simp_all add: loop_start_def)
  with click have "loop_reaches demo_scanner ?E ?l0 (?l1\<lparr>sl_at := Selecting, sl_world := after_news\<rparr>)"
    unfolding loop_reaches_def by (rule rtranclp.rtrancl_into_rtrancl [OF r_into_rtranclp])
  then show ?thesis by (intro exI conjI) (assumption, simp)
qed

text \<open>A new subscriber: the repository exists, the rows are stored, the confirmation is on the stream.\<close>

definition bob :: subscribe_request where
  "bob = \<lparr>req_email = ''bob@example.org'', req_repo = ''golang/go''\<rparr>"

lemma demo_confirmation_sent:
  "faults w = [] \<Longrightarrow> \<exists>w'. svc_notifier demo_service email repo ct ut (w :: world) = (Return None, w') \<and>
     tables w' = tables w \<and> bus_msgs (sim_bus w') \<noteq> []"
  by (auto simp: demo_service_def sim_platform_def send_confirmation_def compose_confirmation_def render_email_def sim_templates_def
      Let_def call_def sim_uuid_string_def app_notifier_def new_email_notifier_def nats_publish_def
      sim_jetstream_def sim_publish_def fault_now_def ret_def advance_def bus_accept_def is_duplicate_def)

lemma bob_subscribes:
  "\<exists>w. svc_subscribe demo_service bob (demo_world demo_db []) = (Return None, w) \<and>
     bus_msgs (sim_bus w) \<noteq> [] \<and> map sub_email (subs (tables w)) = [''ann@example.org'', ''bob@example.org'']"
proof -
  let ?w1 = "snd (find_subscription_by_email_and_repo mem_gorm ''bob@example.org'' ''golang/go'' (demo_world demo_db []))"
  have 1: "fst (find_subscription_by_email_and_repo mem_gorm ''bob@example.org'' ''golang/go'' (demo_world demo_db [])) = Return (Inr None)"
    by code_simp
  let ?w2 = "snd (gh_validate_repo demo_client ''golang'' ''go'' ?w1)"
  have 2: "fst (gh_validate_repo demo_client ''golang'' ''go'' ?w1) = Return None" by code_simp
  let ?w3 = "snd (random_token sim_uuid_new ?w2)"
  have 3: "fst (random_token sim_uuid_new ?w2) = Return (Inr ''uuid-7'')" by code_simp
  let ?w4 = "snd (random_token sim_uuid_new ?w3)"
  have 4: "fst (random_token sim_uuid_new ?w3) = Return (Inr ''uuid-8'')" by code_simp
  let ?create = "create_subscription_with_token mem_gorm (pending_sub bob ''uuid-7'') (pending_tok ''uuid-8'')"
  have 5: "fst (?create ?w4) = Return None" "faults (snd (?create ?w4)) = []"
    "map sub_email (subs (tables (snd (?create ?w4)))) = [''ann@example.org'', ''bob@example.org'']"
    by code_simp+
  have f: "repo_format_matches ''golang/go''" "split_n 2 ''/'' ''golang/go'' = [''golang'', ''go'']" by code_simp+
  from 1 obtain w1 where w1: "find_subscription_by_email_and_repo mem_gorm ''bob@example.org'' ''golang/go'' (demo_world demo_db []) =
      (Return (Inr None), w1)" "?w1 = w1" by (metis prod.collapse)
  from 2 obtain w2 where w2: "gh_validate_repo demo_client ''golang'' ''go'' w1 = (Return None, w2)" "?w2 = w2"
    unfolding w1(2) by (metis prod.collapse)
  from 3 obtain w3 where w3: "random_token sim_uuid_new w2 = (Return (Inr ''uuid-7''), w3)" "?w3 = w3"
    unfolding w2(2) by (metis prod.collapse)
  from 4 obtain w4 where w4: "random_token sim_uuid_new w3 = (Return (Inr ''uuid-8''), w4)" "?w4 = w4"
    unfolding w3(2) by (metis prod.collapse)
  from 5 obtain w5 where w5: "?create w4 = (Return None, w5)" "faults w5 = []"
      "map sub_email (subs (tables w5)) = [''ann@example.org'', ''bob@example.org'']"
    unfolding w4(2) by (metis prod.collapse)
  obtain w6 where w6: "svc_notifier demo_service ''bob@example.org'' ''golang/go'' ''uuid-8'' ''uuid-7'' w5 = (Return None, w6)"
      "tables w6 = tables w5" "bus_msgs (sim_bus w6) \<noteq> []"
    using demo_confirmation_sent [OF w5(2)] by blast
  have fields: "svc_subs demo_service = repository_subs mem_gorm" "svc_github demo_service = gh_validate_repo demo_client"
      "svc_new_token demo_service = random_token sim_uuid_new"
    by (simp_all add: demo_service_def sim_platform_def)
  have "svc_subscribe demo_service bob (demo_world demo_db []) = (Return None, w6)"
    using f w1(1) w2(1) w3(1) w4(1) w5(1) w6(1)
    by (simp add: svc_subscribe_def fields repository_subs_def bob_def call_def ret_def)
  with w5(3) w6(2,3) show ?thesis by simp
qed

end
