(* ===== verification/Api.thy ===== *)
theory Api imports App begin

text \<open>
  The HTTP interface, \<open>internal/app/api\<close>: the error table of \<open>errors.go\<close>, the handlers of
  \<open>handler.go\<close> and \<open>pages.go\<close>, the middleware of \<open>middleware.go\<close> and \<open>metrics.go\<close>, and the
  routes of \<open>router.go\<close>. Gin is a parameter: a request comes with the route it matched, its
  parameters and the result of binding its body; a handler writes a reply.
\<close>

section \<open>Requests and replies\<close>

record http_in =
  in_method :: string
  in_full_path :: string
  in_headers :: header
  in_params :: "string \<rightharpoonup> string"
  in_query :: "string \<rightharpoonup> string"
  in_body :: string
  in_request_id :: string

record reply =
  rp_status :: int
  rp_headers :: header
  rp_content_type :: string
  rp_body :: string

definition empty_reply :: reply where
  "empty_reply = \<lparr>rp_status = 200, rp_headers = Map.empty, rp_content_type = [], rp_body = []\<rparr>"

text \<open>\<open>c.Param\<close> and \<open>c.Query\<close> give the empty string for what is absent.\<close>

definition param :: "http_in \<Rightarrow> string \<Rightarrow> string" where
  "param rq name = (case in_params rq name of None \<Rightarrow> [] | Some v \<Rightarrow> v)"

definition query_value :: "http_in \<Rightarrow> string \<Rightarrow> string" where
  "query_value rq name = (case in_query rq name of None \<Rightarrow> [] | Some v \<Rightarrow> v)"

text \<open>\<open>c.JSON\<close>, with the encoded body.\<close>

definition json_reply :: "int \<Rightarrow> string \<Rightarrow> reply \<Rightarrow> reply" where
  "json_reply code body rp =
     rp\<lparr>rp_status := code, rp_content_type := ''application/json; charset=utf-8'', rp_body := body\<rparr>"

definition error_response :: "string \<Rightarrow> string" where
  "error_response m = marshal_struct [(''error'', m)]"

definition message_response :: "string \<Rightarrow> string" where
  "message_response m = marshal_struct [(''message'', m)]"

definition json_bool :: "bool \<Rightarrow> string" where
  "json_bool b = (if b then ''true'' else ''false'')"

definition subscription_json :: "subscription_response \<Rightarrow> string" where
  "subscription_json r =
     ''{'' @ json_string ''email'' @ '':'' @ json_string (resp_email r) @ '','' @
     json_string ''repo'' @ '':'' @ json_string (resp_repo r) @ '','' @
     json_string ''confirmed'' @ '':'' @ json_bool (resp_confirmed r) @ ''}''"

fun json_elements :: "string list \<Rightarrow> string" where
  "json_elements [] = []"
| "json_elements [x] = x"
| "json_elements (x # y # xs) = x @ '','' @ json_elements (y # xs)"

definition subscriptions_json :: "subscription_response list \<Rightarrow> string" where
  "subscriptions_json rs = ''['' @ json_elements (map subscription_json rs) @ '']''"

section \<open>Errors\<close>

definition error_view :: "(sentinel \<times> int \<times> string) list" where
  "error_view =
     [(ErrInvalidEmail, 400, ''invalid email format''),
      (ErrInvalidRepoFormat, 400, ''invalid repository format, expected owner/repo''),
      (ErrRepoNotFound, 404, ''repository not found on GitHub or is private''),
      (ErrTokenNotFound, 404, ''token not found''),
      (ErrAlreadySubscribed, 409, ''email already subscribed to this repository''),
      (ErrRateLimited, 503, ''service temporarily unavailable, try again later'')]"

text \<open>
  The table is a Go map, ranged over in an order the runtime chooses anew each time; \<open>order\<close> is
  the order of this call.
\<close>

fun first_view :: "(sentinel \<times> int \<times> string) list \<Rightarrow> error \<Rightarrow> (int \<times> string) option" where
  "first_view [] err = None"
| "first_view ((s, v) # order) err = (if errors_is err s then Some v else first_view order err)"

definition write_error :: "(sentinel \<times> int \<times> string) list \<Rightarrow> error \<Rightarrow> reply \<Rightarrow> reply" where
  "write_error order err rp =
     (case first_view order err of
        Some (code, m) \<Rightarrow> json_reply code (error_response m) rp
      | None \<Rightarrow> json_reply 500 (error_response ''internal app error'') rp)"

section \<open>Handlers\<close>

text \<open>
  What the handlers run on: the service, the binding of a request body, the order in which
  \<open>writeError\<close> meets the table, the embedded pages, randomness for request ids, the histogram,
  and Gin's and Prometheus' own handlers.
\<close>

record 'w api_service =
  as_subscribe :: "subscribe_request \<Rightarrow> ('w, error option) io"
  as_confirm :: "string \<Rightarrow> ('w, error option) io"
  as_unsubscribe :: "string \<Rightarrow> ('w, error option) io"
  as_get :: "string \<Rightarrow> ('w, error + subscription_response list) io"

type_synonym 'w endpoint = "http_in \<Rightarrow> reply \<Rightarrow> ('w, reply) io"

record 'w api_env =
  ae_service :: "'w api_service"
  ae_bind :: "string \<Rightarrow> error + subscribe_request"
  ae_order :: "'w \<Rightarrow> (sentinel \<times> int \<times> string) list"
  ae_read_page :: "string \<Rightarrow> error + string"
  ae_uuid_string :: "('w, string) io"
  ae_observe :: "string \<Rightarrow> string \<Rightarrow> int \<Rightarrow> ('w, unit) io"
  ae_prometheus :: "'w endpoint"
  ae_fallback :: "'w endpoint"

definition fail_with :: "'w api_env \<Rightarrow> error \<Rightarrow> reply \<Rightarrow> ('w, reply) io" where
  "fail_with env err rp w = ret (write_error (ae_order env w) err rp) w"

definition handle_subscribe :: "'w api_env \<Rightarrow> 'w endpoint" where
  "handle_subscribe env rq rp =
     (case ae_bind env (in_body rq) of
        Inl err \<Rightarrow> ret (json_reply 400 (error_response ''invalid input: email and repo are required'') rp)
      | Inr req \<Rightarrow>
          call (as_subscribe (ae_service env) req) (\<lambda>r. case r of
            Some err \<Rightarrow> fail_with env err rp
          | None \<Rightarrow> ret (json_reply 200 (message_response ''subscription successful, confirmation email sent'') rp)))"

definition handle_unsubscribe :: "'w api_env \<Rightarrow> 'w endpoint" where
  "handle_unsubscribe env rq rp =
     call (as_unsubscribe (ae_service env) (param rq ''token'')) (\<lambda>r. case r of
       Some err \<Rightarrow> fail_with env err rp
     | None \<Rightarrow> ret (json_reply 200 (message_response ''unsubscribed successfully'') rp))"

definition handle_get_subscriptions :: "'w api_env \<Rightarrow> 'w endpoint" where
  "handle_get_subscriptions env rq rp =
     call (as_get (ae_service env) (query_value rq ''email'')) (\<lambda>r. case r of
       Inl err \<Rightarrow> fail_with env err rp
     | Inr rs \<Rightarrow> ret (json_reply 200 (subscriptions_json rs) rp))"

definition handle_confirm :: "'w api_env \<Rightarrow> 'w endpoint" where
  "handle_confirm env rq rp =
     call (as_confirm (ae_service env) (param rq ''token'')) (\<lambda>r. case r of
       Some err \<Rightarrow> fail_with env err rp
     | None \<Rightarrow> ret (json_reply 200 (message_response ''subscription confirmed successfully'') rp))"

definition handle_health :: "'w endpoint" where
  "handle_health rq rp = ret (json_reply 200 (marshal_struct [(''status'', ''ok'')]) rp)"

definition page :: "(string \<Rightarrow> error + string) \<Rightarrow> string \<Rightarrow> error + string" where
  "page read_file name =
     (case read_file (''pages/'' @ name) of
        Inl err \<Rightarrow> Inl (wrapf (''read page '' @ name) err)
      | Inr b \<Rightarrow> Inr b)"

definition subscribe_page :: "'w api_env \<Rightarrow> 'w endpoint" where
  "subscribe_page env rq rp =
     (case page (ae_read_page env) ''subscribe.html'' of
        Inl err \<Rightarrow> ret (rp\<lparr>rp_status := 500, rp_content_type := ''text/plain; charset=utf-8'',
          rp_body := ''internal app error''\<rparr>)
      | Inr body \<Rightarrow> ret (rp\<lparr>rp_status := 200, rp_content_type := ''text/html; charset=utf-8'', rp_body := body\<rparr>))"

section \<open>Middleware\<close>

text \<open>A middleware gets the rest of the chain; \<open>c.Next()\<close> runs it, an abort does not.\<close>

type_synonym 'w middleware = "'w endpoint \<Rightarrow> 'w endpoint"

definition request_id_header :: string where "request_id_header = ''X-Request-ID''"

definition request_id :: "'w api_env \<Rightarrow> 'w middleware" where
  "request_id env rest rq rp =
     call (let id = header_get (in_headers rq) request_id_header in
           if id = [] then ae_uuid_string env else ret id) (\<lambda>id.
     rest (rq\<lparr>in_request_id := id\<rparr>) (rp\<lparr>rp_headers := header_set request_id_header id (rp_headers rp)\<rparr>))"

definition api_key_auth :: "string \<Rightarrow> 'w middleware" where
  "api_key_auth api_key rest rq rp =
     (if api_key = [] then rest rq rp
      else
        (let key = header_get (in_headers rq) ''X-API-Key'' in
         if key = [] then ret (json_reply 401 (error_response ''missing API key'') rp)
         else if key \<noteq> api_key then ret (json_reply 403 (error_response ''invalid API key'') rp)
         else rest rq rp))"

text \<open>The labels of the histogram; only the known methods get a series of their own.\<close>

definition route_label :: "http_in \<Rightarrow> string" where
  "route_label rq = (if in_full_path rq = [] then ''unmatched'' else in_full_path rq)"

definition method_label :: "http_in \<Rightarrow> string" where
  "method_label rq =
     (if in_method rq \<in> {''GET'', ''HEAD'', ''POST'', ''PUT'', ''PATCH'', ''DELETE''} then in_method rq else ''OTHER'')"

text \<open>The deferred observation, after a normal end of the chain (every panic is recovered inside).\<close>

definition metrics_middleware :: "'w api_env \<Rightarrow> 'w middleware" where
  "metrics_middleware env rest rq rp =
     call (rest rq rp) (\<lambda>rp'.
     call (ae_observe env (method_label rq) (route_label rq) (rp_status rp')) (\<lambda>_. ret rp'))"

text \<open>\<open>gin.Recovery\<close>: a panic below becomes a 500 without a body (a broken connection, which has no reader, aside).\<close>

definition recovery :: "'w middleware" where
  "recovery rest rq rp = with_recover (rest rq rp) (\<lambda>p. ret (rp\<lparr>rp_status := 500\<rparr>))"

section \<open>Routes\<close>

definition routes :: "'w api_env \<Rightarrow> string \<Rightarrow> ((string \<times> string) \<times> 'w endpoint) list" where
  "routes env api_key =
     [((''GET'', ''/health''), handle_health),
      ((''GET'', ''/metrics''), ae_prometheus env),
      ((''GET'', ''/''), subscribe_page env),
      ((''GET'', ''/api/confirm/:token''), handle_confirm env),
      ((''GET'', ''/api/unsubscribe/:token''), handle_unsubscribe env),
      ((''POST'', ''/api/unsubscribe/:token''), handle_unsubscribe env),
      ((''POST'', ''/api/subscribe''), api_key_auth api_key (handle_subscribe env)),
      ((''GET'', ''/api/subscriptions''), api_key_auth api_key (handle_get_subscriptions env))]"

definition endpoint_of :: "'w api_env \<Rightarrow> string \<Rightarrow> 'w endpoint" where
  "endpoint_of env api_key rq =
     (case map_of (routes env api_key) (in_method rq, in_full_path rq) of
        Some h \<Rightarrow> h rq
      | None \<Rightarrow> ae_fallback env rq)"

definition serve :: "'w api_env \<Rightarrow> string \<Rightarrow> http_in \<Rightarrow> ('w, reply) io" where
  "serve env api_key rq =
     request_id env (metrics_middleware env (recovery (endpoint_of env api_key))) rq empty_reply"

section \<open>The error table\<close>

lemma first_view_Some: "first_view order err = Some v \<Longrightarrow> \<exists>s. (s, v) \<in> set order \<and> errors_is err s"
  by (induction order err rule: first_view.induct) (auto split: if_splits)

lemma first_view_None: "first_view order err = None \<longleftrightarrow> (\<forall>s \<in> fst ` set order. \<not> errors_is err s)"
  by (induction order err rule: first_view.induct) auto

lemma first_view_unique:
  assumes "(s, v) \<in> set order" and "errors_is err s" and "distinct (map fst order)"
    and "\<And>t. t \<in> fst ` set order \<Longrightarrow> errors_is err t \<Longrightarrow> t = s"
  shows "first_view order err = Some v"
proof (cases "first_view order err")
  case None
  with assms(1,2) show ?thesis by (force simp: first_view_None)
next
  case (Some u)
  then obtain t where "(t, u) \<in> set order" "errors_is err t" using first_view_Some by blast
  with assms show ?thesis using Some by (force dest: eq_key_imp_eq_value)
qed

lemma error_view_distinct: "distinct (map fst error_view)"
  by (simp add: error_view_def)

definition range_order :: "(sentinel \<times> int \<times> string) list \<Rightarrow> bool" where
  "range_order order \<longleftrightarrow> mset order = mset error_view"

lemma range_order_set: "range_order order \<Longrightarrow> set order = set error_view"
  by (metis range_order_def set_mset_mset)

lemma range_order_distinct: "range_order order \<Longrightarrow> distinct (map fst order)"
  using error_view_distinct unfolding range_order_def by (metis mset_map mset_eq_imp_distinct_iff)

text \<open>A status other than 500 tells which of the program's errors it was.\<close>

lemma write_error_status:
  assumes "range_order order"
  shows "rp_status (write_error order err rp) = 500 \<or>
    (\<exists>s m. (s, rp_status (write_error order err rp), m) \<in> set error_view \<and> errors_is err s)"
proof (cases "first_view order err")
  case (Some v)
  then obtain s where "(s, v) \<in> set error_view" "errors_is err s"
    using first_view_Some [OF Some] range_order_set [OF assms] by auto
  with Some show ?thesis by (cases v) (auto simp: write_error_def json_reply_def)
qed (simp add: write_error_def json_reply_def)

lemma error_view_app: "(s, v) \<in> set error_view \<Longrightarrow> app_sentinel s"
  by (auto simp: error_view_def)

lemma write_error_codes:
  assumes "range_order order" and "rp_status (write_error order err rp) = code"
  shows "code \<in> {400, 404, 409, 500, 503}"
    and "code = 400 \<Longrightarrow> errors_is err ErrInvalidEmail \<or> errors_is err ErrInvalidRepoFormat"
    and "code = 404 \<Longrightarrow> errors_is err ErrRepoNotFound \<or> errors_is err ErrTokenNotFound"
    and "code = 409 \<Longrightarrow> errors_is err ErrAlreadySubscribed"
    and "code = 503 \<Longrightarrow> errors_is err ErrRateLimited"
  using write_error_status [OF assms(1), of err rp] assms(2)
  by (auto simp: error_view_def)

lemma write_error_foreign:
  assumes "range_order order" and "foreign err"
  shows "rp_status (write_error order err rp) = 500"
  using write_error_status [OF assms(1), of err rp] assms(2) unfolding foreign_def
  by (blast dest: error_view_app)

section \<open>The chain\<close>

text \<open>
  Serving leaves the tables alone but for what the endpoint does; Gin's own handlers do not
  take away the request id.
\<close>

locale api_world =
  fixes env :: "'w api_env" and tables :: "'w \<Rightarrow> db"
  assumes order: "range_order (ae_order env w)"
    and uuid: "keeps tables (ae_uuid_string env)"
    and observe: "meets tables (ae_observe env m rt code) (\<lambda>d r d'. r = Return () \<and> d' = d)"
    and builtin: "keeps tables (ae_prometheus env rq rp)" "keeps tables (ae_fallback env rq rp)"
    and builtin_headers:
      "fst (ae_prometheus env rq rp w) = Return rp' \<or> fst (ae_fallback env rq rp w) = Return rp' \<Longrightarrow>
       header_get (rp_headers rp') request_id_header = header_get (rp_headers rp) request_id_header"

type_synonym 'd reply_rel = "reply \<Rightarrow> 'd \<Rightarrow> 'd \<Rightarrow> bool"

text \<open>What an endpoint does, a panic counting as a reply with status 500.\<close>

definition replies :: "'d reply_rel \<Rightarrow> ('d, reply) contract" where
  "replies C d r d' \<longleftrightarrow> (case r of Return rp \<Rightarrow> C rp d d' | Panic p \<Rightarrow> \<forall>rp. rp_status rp = 500 \<longrightarrow> C rp d d')"

context api_world
begin

lemma serve_meets:
  assumes e: "\<And>i rp. meets tables (endpoint_of env key (rq\<lparr>in_request_id := i\<rparr>) rp) (replies C)"
  shows "meets tables (serve env key rq) (\<lambda>d r d'. case r of Return rp \<Rightarrow> C rp d d' | Panic p \<Rightarrow> d' = d)"
proof -
  have inner: "meets tables (recovery (endpoint_of env key) (rq\<lparr>in_request_id := i\<rparr>) rp)
      (\<lambda>d r d'. \<exists>rp'. r = Return rp' \<and> C rp' d d')" for i rp
  proof (rule meetsI)
    fix w r w'
    assume "recovery (endpoint_of env key) (rq\<lparr>in_request_id := i\<rparr>) rp w = (r, w')"
    moreover obtain r1 w1 where run: "endpoint_of env key (rq\<lparr>in_request_id := i\<rparr>) rp w = (r1, w1)" by fastforce
    ultimately show "\<exists>rp'. r = Return rp' \<and> C rp' (tables w) (tables w')"
      using meetsD [OF e run] by (cases r1) (auto simp: recovery_def with_recover_def replies_def ret_def)
  qed
  have idm: "keeps tables (let i = header_get (in_headers rq) request_id_header in if i = [] then ae_uuid_string env else ret i)"
    using uuid by (simp add: Let_def)
  show ?thesis
    unfolding serve_def request_id_def metrics_middleware_def
    by (rule meets_run_ok)
       (auto intro!: run_ok_call [OF meets_keeps [OF idm]] run_ok_call [OF inner] run_ok_call [OF observe])
qed

end

section \<open>The endpoints over the service\<close>

definition service_api :: "(string \<Rightarrow> bool) \<Rightarrow> 'w service \<Rightarrow> 'w api_service" where
  "service_api parse_ok s =
     \<lparr>as_subscribe = svc_subscribe s, as_confirm = svc_confirm_subscription s,
      as_unsubscribe = svc_unsubscribe s, as_get = svc_get_subscriptions parse_ok s\<rparr>"

locale api_service_env = api_world env tables + service_env s tables
  for env :: "'w api_env" and s :: "'w service" and tables :: "'w \<Rightarrow> db" and parse_ok :: "string \<Rightarrow> bool" +
  assumes wired: "ae_service env = service_api parse_ok s"

definition http_subscribe :: "subscribe_request \<Rightarrow> db reply_rel" where
  "http_subscribe req rp d d' \<longleftrightarrow>
     rp_status rp \<in> {200, 400, 404, 409, 500, 503} \<and>
     (rp_status rp = 200 \<longrightarrow> added_pending req d d' \<and> \<not> subscribed (req_email req) (req_repo req) d) \<and>
     (rp_status rp = 500 \<longrightarrow> d' = d \<or> added_pending req d d') \<and>
     (rp_status rp \<in> {400, 404, 409, 503} \<longrightarrow> d' = d) \<and>
     (rp_status rp = 400 \<longrightarrow> \<not> repo_format_matches (req_repo req)) \<and>
     (rp_status rp = 409 \<longrightarrow> subscribed (req_email req) (req_repo req) d)"

definition http_link :: "(db \<Rightarrow> db \<Rightarrow> bool) \<Rightarrow> (db \<Rightarrow> bool) \<Rightarrow> db reply_rel" where
  "http_link done unknown rp d d' \<longleftrightarrow>
     rp_status rp \<in> {200, 404, 500} \<and>
     (rp_status rp = 200 \<longrightarrow> done d d') \<and>
     (rp_status rp = 404 \<longrightarrow> d' = d \<and> unknown d) \<and>
     (rp_status rp = 500 \<longrightarrow> d' = d \<or> done d d')"

definition http_list :: "(string \<Rightarrow> bool) \<Rightarrow> string \<Rightarrow> db reply_rel" where
  "http_list parse_ok raw rp d d' \<longleftrightarrow> d' = d \<and> rp_status rp \<in> {200, 400, 500} \<and>
     (rp_status rp = 200 \<longrightarrow> (\<exists>rs. rp_body rp = subscriptions_json rs \<and>
        mset rs = mset (map to_subscription_response (filter (\<lambda>s. sub_email s = trim_space raw) (subs d))))) \<and>
     (rp_status rp = 400 \<longrightarrow> trim_space raw = [] \<or> \<not> parse_ok (trim_space raw))"

lemma subscribe_failed:
  assumes c: "subscribe_contract req d (Return (Some err)) d'" and o: "range_order order"
  shows "http_subscribe req (write_error order err rp) d d'"
proof -
  let ?code = "rp_status (write_error order err rp)"
  note k = write_error_codes [OF o refl, of err rp]
  have same: "d' = d \<or> foreign err \<and> added_pending req d d'"
    using c unfolding subscribe_contract_def outcome.case option.case by blast
  have rest: "errors_is err ErrInvalidRepoFormat \<Longrightarrow> \<not> repo_format_matches (req_repo req)"
      "errors_is err ErrAlreadySubscribed \<Longrightarrow> subscribed (req_email req) (req_repo req) d"
      "\<not> errors_is err ErrInvalidEmail"
    using c unfolding subscribe_contract_def outcome.case option.case by blast+
  have "?code \<noteq> 500 \<Longrightarrow> d' = d" using same write_error_foreign [OF o] by blast
  moreover have "?code \<in> {200, 400, 404, 409, 500, 503}" "?code \<noteq> 200" using k(1) by auto
  ultimately show ?thesis
    unfolding http_subscribe_def using k(2,4) rest same by (intro conjI impI) (simp, blast, auto)
qed

context api_service_env
begin

lemma fail_reply: "fail_with env err rp w = (Return (write_error (ae_order env w) err rp), w)"
  by (simp add: fail_with_def ret_def)

lemma subscribe_endpoint:
  assumes "ae_bind env (in_body rq) = Inr req"
  shows "meets tables (handle_subscribe env rq rp) (replies (http_subscribe req))"
proof (rule meetsI)
  fix w r w'
  assume run: "handle_subscribe env rq rp w = (r, w')"
  obtain x w1 where sub: "svc_subscribe s req w = (x, w1)" by fastforce
  note c = meetsD [OF subscribe_meets sub]
  show "replies (http_subscribe req) (tables w) r (tables w')"
  proof (cases x)
    case (Panic p)
    with run sub assms c show ?thesis
      by (auto simp: handle_subscribe_def wired service_api_def call_def subscribe_contract_def replies_def http_subscribe_def)
  next
    case (Return e)
    show ?thesis
    proof (cases e)
      case None
      with Return run sub assms c show ?thesis
        by (auto simp: handle_subscribe_def wired service_api_def call_def subscribe_contract_def replies_def
            http_subscribe_def json_reply_def ret_def)
    next
      case (Some err)
      with Return run sub assms have r: "r = Return (write_error (ae_order env w1) err rp)" "w' = w1"
        by (auto simp: handle_subscribe_def wired service_api_def call_def fail_reply)
      from subscribe_failed [OF c [unfolded Return Some] order] show ?thesis
        by (simp add: r replies_def)
    qed
  qed
qed

end

lemma run_ok_fail_with [simp]:
  "run_ok (fail_with env err rp) Q w \<longleftrightarrow> Q (Return (write_error (ae_order env w) err rp)) w"
  by (simp add: run_ok_def fail_with_def ret_def)

lemma rp_status_json [simp]: "rp_status (json_reply code body rp) = code"
  by (simp add: json_reply_def)

lemma link_failed:
  assumes o: "range_order order" and same: "d' = d \<or> foreign err \<and> done d d'"
    and e: "err = Sentinel ErrTokenNotFound \<and> unknown d \<or> foreign err"
  shows "http_link done unknown (write_error order err rp) d d'"
  using e
proof
  assume "foreign err"
  with same write_error_foreign [OF o this] show ?thesis by (auto simp: http_link_def)
next
  assume t: "err = Sentinel ErrTokenNotFound \<and> unknown d"
  then have "rp_status (write_error order err rp) = 404 \<or> rp_status (write_error order err rp) = 500"
    using write_error_status [OF o, of err rp] by (auto simp: error_view_def)
  moreover have "d' = d" using same t by auto
  ultimately show ?thesis using t by (auto simp: http_link_def)
qed

text \<open>What a confirmation link and an unsubscribe link do to the tables.\<close>

definition link_confirms :: "string \<Rightarrow> db \<Rightarrow> db \<Rightarrow> bool" where
  "link_confirms v d d' \<longleftrightarrow> confirmed_by v d d' \<or> confirmed_and_spent v d d'"

definition link_unknown :: "string \<Rightarrow> db \<Rightarrow> bool" where
  "link_unknown v d \<longleftrightarrow> v = [] \<or> v \<notin> tok_token ` set (toks d)"

definition unsub_unknown :: "string \<Rightarrow> db \<Rightarrow> bool" where
  "unsub_unknown v d \<longleftrightarrow> v = [] \<or> v \<notin> sub_unsubscribe_token ` set (subs d)"

lemma confirm_failed:
  assumes "confirm_contract v d (Return (Some err)) d'" and "range_order order"
  shows "http_link (link_confirms v) (link_unknown v) (write_error order err rp) d d'"
  using assms(1) unfolding confirm_contract_def outcome.case option.case
  by (intro link_failed [OF assms(2)]) (auto simp: link_confirms_def link_unknown_def)

lemma unsubscribe_failed:
  assumes "unsubscribe_contract v d (Return (Some err)) d'" and "range_order order"
  shows "http_link (unsubscribed_by v) (unsub_unknown v) (write_error order err rp) d d'"
  using assms(1) unfolding unsubscribe_contract_def outcome.case option.case
  by (intro link_failed [OF assms(2)]) (auto simp: unsub_unknown_def)

lemma list_failed:
  assumes c: "get_contract parse_ok raw d (Return (Inl err)) d'" and o: "range_order order"
  shows "http_list parse_ok raw (write_error order err rp) d d'"
proof -
  let ?code = "rp_status (write_error order err rp)"
  from c have d: "d' = d" and
    e: "err = Sentinel ErrInvalidEmail \<and> (trim_space raw = [] \<or> \<not> parse_ok (trim_space raw)) \<or> foreign err"
    by (auto simp: get_contract_def Let_def)
  from e have "?code = 500 \<or> ?code = 400 \<and> (trim_space raw = [] \<or> \<not> parse_ok (trim_space raw))"
    using write_error_foreign [OF o] write_error_status [OF o, of err rp] by (auto simp: error_view_def)
  with d show ?thesis by (auto simp: http_list_def)
qed

context api_service_env
begin

lemma confirm_endpoint:
  "meets tables (handle_confirm env rq rp)
     (replies (http_link (link_confirms (param rq ''token'')) (link_unknown (param rq ''token''))))"
  unfolding handle_confirm_def wired service_api_def api_service.simps
proof (rule meets_run_ok, rule run_ok_call [OF confirm_meets], goal_cases)
  case (1 w p w')
  then show ?case by (auto simp: replies_def confirm_contract_def http_link_def link_confirms_def)
next
  case (2 w a w')
  show ?case
  proof (cases a)
    case None
    with 2 show ?thesis by (simp add: replies_def confirm_contract_def http_link_def link_confirms_def)
  next
    case (Some err)
    with confirm_failed [OF 2 [unfolded Some] order] show ?thesis by (simp add: replies_def)
  qed
qed

lemma unsubscribe_endpoint:
  "meets tables (handle_unsubscribe env rq rp)
     (replies (http_link (unsubscribed_by (param rq ''token'')) (unsub_unknown (param rq ''token''))))"
  unfolding handle_unsubscribe_def wired service_api_def api_service.simps
proof (rule meets_run_ok, rule run_ok_call [OF unsubscribe_meets], goal_cases)
  case (1 w p w')
  then show ?case by (auto simp: replies_def unsubscribe_contract_def http_link_def)
next
  case (2 w a w')
  show ?case
  proof (cases a)
    case None
    with 2 show ?thesis by (simp add: replies_def unsubscribe_contract_def http_link_def)
  next
    case (Some err)
    with unsubscribe_failed [OF 2 [unfolded Some] order] show ?thesis by (simp add: replies_def)
  qed
qed

lemma list_endpoint:
  "meets tables (handle_get_subscriptions env rq rp) (replies (http_list parse_ok (query_value rq ''email'')))"
  unfolding handle_get_subscriptions_def wired service_api_def api_service.simps
proof (rule meets_run_ok, rule run_ok_call [OF get_subscriptions_meets], goal_cases)
  case (1 w p w')
  then show ?case by (auto simp: replies_def get_contract_def http_list_def Let_def)
next
  case (2 w a w')
  show ?case
  proof (cases a)
    case (Inr rs)
    with 2 show ?thesis
      by (auto simp: replies_def get_contract_def http_list_def Let_def json_reply_def)
  next
    case (Inl err)
    with list_failed [OF 2 [unfolded Inl] order] show ?thesis by (simp add: replies_def)
  qed
qed

end

section \<open>Access\<close>

text \<open>May this request use the protected routes?\<close>

definition authorised :: "string \<Rightarrow> http_in \<Rightarrow> bool" where
  "authorised api_key rq \<longleftrightarrow> api_key = [] \<or> header_get (in_headers rq) ''X-API-Key'' = api_key"

definition protected_route :: "http_in \<Rightarrow> bool" where
  "protected_route rq \<longleftrightarrow>
     (in_method rq, in_full_path rq) \<in> {(''POST'', ''/api/subscribe''), (''GET'', ''/api/subscriptions'')}"

lemma api_key_authorised: "authorised key rq \<Longrightarrow> api_key_auth key rest rq rp = rest rq rp"
  by (auto simp: authorised_def api_key_auth_def Let_def)

lemma endpoint_routes:
  "in_method rq = ''POST'' \<Longrightarrow> in_full_path rq = ''/api/subscribe'' \<Longrightarrow>
     endpoint_of env key rq = api_key_auth key (handle_subscribe env) rq"
  "in_method rq = ''GET'' \<Longrightarrow> in_full_path rq = ''/api/subscriptions'' \<Longrightarrow>
     endpoint_of env key rq = api_key_auth key (handle_get_subscriptions env) rq"
  "in_method rq = ''GET'' \<Longrightarrow> in_full_path rq = ''/api/confirm/:token'' \<Longrightarrow>
     endpoint_of env key rq = handle_confirm env rq"
  "in_method rq \<in> {''GET'', ''POST''} \<Longrightarrow> in_full_path rq = ''/api/unsubscribe/:token'' \<Longrightarrow>
     endpoint_of env key rq = handle_unsubscribe env rq"
  by (auto simp: endpoint_of_def routes_def)

section \<open>The list body is read back\<close>

definition subscription_value :: "subscription_response \<Rightarrow> json" where
  "subscription_value r =
     JObject [(''email'', JString (to_valid_utf8 (resp_email r))), (''repo'', JString (to_valid_utf8 (resp_repo r))),
       (''confirmed'', JBool (resp_confirmed r))]"

lemma key_names: "to_valid_utf8 ''email'' = ''email''" "to_valid_utf8 ''repo'' = ''repo''"
    "to_valid_utf8 ''confirmed'' = ''confirmed''"
  by code_simp+

lemma brace_space [simp]: "\<not> json_space (CHR ''['')" "\<not> json_space (CHR '']'')" "\<not> json_space (CHR ''t'')"
    "\<not> json_space (CHR ''f'')" "CHR ''['' \<noteq> dquote" "CHR ''t'' \<noteq> dquote" "CHR ''f'' \<noteq> dquote"
    "dquote \<noteq> CHR '']''"
  by (simp_all add: json_space_def char_code_def dquote_def)

lemma parse_json_bool:
  "parse_value (Suc fuel) depth (json_bool b @ r) = Some (JBool b, r)"
  by (cases b) (simp_all add: json_bool_def skip_space_Cons strip_prefix_def)

text \<open>One member of an object, when its value is understood.\<close>

lemma parse_member:
  assumes "parse_value fuel depth (v @ r) = Some (x, r)"
  shows "parse_members (Suc fuel) depth (json_string k @ '':'' @ v @ r) =
     (case expect (CHR '','') r of
        Some s5 \<Rightarrow> map_option (apfst (Cons (to_valid_utf8 k, x))) (parse_members fuel depth s5)
      | None \<Rightarrow> map_option (Pair [(to_valid_utf8 k, x)]) (expect (CHR ''}'') r))"
  using assms by (simp add: json_string_def expect_Cons unquote_quote_body del: parse_value.simps)

lemma parse_subscription_json:
  "parse_value (Suc (Suc (Suc (Suc (Suc fuel))))) (Suc depth) (subscription_json r @ t) =
     Some (subscription_value r, t)"
proof -
  let ?m3 = "json_string ''confirmed'' @ '':'' @ json_bool (resp_confirmed r) @ ''}'' @ t"
  let ?m2 = "json_string ''repo'' @ '':'' @ json_string (resp_repo r) @ '','' @ ?m3"
  let ?m1 = "json_string ''email'' @ '':'' @ json_string (resp_email r) @ '','' @ ?m2"
  have 3: "parse_members (Suc (Suc fuel)) depth ?m3 = Some ([(''confirmed'', JBool (resp_confirmed r))], t)"
    by (subst parse_member [OF parse_json_bool]) (simp add: expect_Cons key_names del: to_valid_utf8.simps)
  have 2: "parse_members (Suc (Suc (Suc fuel))) depth ?m2 =
      Some ([(''repo'', JString (to_valid_utf8 (resp_repo r))), (''confirmed'', JBool (resp_confirmed r))], t)"
    using 3 by (subst parse_member [OF parse_json_string]) (simp add: expect_Cons key_names del: to_valid_utf8.simps)
  have 1: "parse_members (Suc (Suc (Suc (Suc fuel)))) depth ?m1 =
      Some ([(''email'', JString (to_valid_utf8 (resp_email r))), (''repo'', JString (to_valid_utf8 (resp_repo r))),
        (''confirmed'', JBool (resp_confirmed r))], t)"
    using 2 by (subst parse_member [OF parse_json_string]) (simp add: expect_Cons key_names del: to_valid_utf8.simps)
  have "subscription_json r @ t = CHR ''{'' # ?m1" by (simp add: subscription_json_def)
  moreover have "expect (CHR ''}'') ?m1 = None" by (simp add: json_string_def expect_Cons)
  ultimately show ?thesis using 1
    by (simp add: skip_space_Cons subscription_value_def del: parse_members.simps)
qed

lemma parse_subscription_elements:
  "rs \<noteq> [] \<Longrightarrow> length rs + 5 \<le> fuel \<Longrightarrow>
   parse_elements fuel (Suc depth) (json_elements (map subscription_json rs) @ CHR '']'' # t) =
     Some (map subscription_value rs, t)"
proof (induction rs arbitrary: fuel)
  case (Cons r rs)
  then have "6 \<le> fuel" by simp
  then obtain g where "fuel = 6 + g" by (rule le_Suc_ex [elim_format]) blast
  then obtain f where f: "fuel = Suc (Suc (Suc (Suc (Suc (Suc f)))))" by (simp add: numeral_eq_Suc)
  show ?case
  proof (cases rs)
    case Nil
    then show ?thesis unfolding f
      by (simp add: parse_subscription_json expect_Cons del: parse_value.simps)
  next
    case (Cons r2 rs2)
    with Cons.IH [of "Suc (Suc (Suc (Suc (Suc f))))"] Cons.prems f show ?thesis
      by (simp add: parse_subscription_json expect_Cons del: parse_value.simps parse_elements.simps(2))
         (simp add: parse_subscription_json expect_Cons parse_elements.simps(2) [of "Suc (Suc (Suc (Suc (Suc f))))"] del: parse_value.simps parse_elements.simps(2))
  qed
qed simp

lemma subscription_json_length: "8 \<le> length (subscription_json r)"
  by (simp add: subscription_json_def json_string_def)

lemma json_elements_length: "8 * length rs \<le> length (json_elements (map subscription_json rs))"
proof (induction rs rule: induct_list012)
  case (2 x)
  then show ?case using subscription_json_length [of x] by simp
next
  case (3 x y zs)
  then show ?case using subscription_json_length [of x] by simp
qed simp

lemma read_subscriptions_json: "whole_value (subscriptions_json rs) = Some (JArray (map subscription_value rs))"
proof (cases "rs = []")
  case True
  have "whole_value ''[]'' = Some (JArray [])" by code_simp
  with True show ?thesis by (simp add: subscriptions_json_def)
next
  case False
  let ?e = "json_elements (map subscription_json rs)"
  obtain r rs' where "rs = r # rs'" using False by (cases rs) auto
  then have "\<exists>u. ?e = CHR ''{'' # u" by (cases rs') (auto simp: subscription_json_def)
  then have e: "expect (CHR '']'') (?e @ u) = None" for u by (auto simp: expect_Cons)
  have "length rs + 5 \<le> Suc (length (?e @ '']''))"
    using json_elements_length [of rs] False by (cases rs) simp_all
  from parse_subscription_elements [OF False this, of "max_nesting - 2" "[]"] e
  show ?thesis
    by (simp add: whole_value_def subscriptions_json_def skip_space_Cons max_nesting_def
        del: parse_elements.simps) (simp add: skip_space_def)
qed

end
