(* ===== verification/Web.thy ===== *)
theory Web imports Api Simulator begin

text \<open>
  The HTTP interface on the wired application: what a client may conclude from a reply, in the
  terms of the subscription registry.
\<close>

section \<open>Replies and the registry\<close>

definition web_subscribe :: "subscribe_request \<Rightarrow> registry reply_rel" where
  "web_subscribe req rp g g' \<longleftrightarrow>
     (let k = (req_email req, req_repo req) in
      rp_status rp \<in> {200, 400, 404, 409, 500, 503} \<and>
      (rp_status rp = 200 \<longrightarrow> status g k = None \<and> joins k g g') \<and>
      (rp_status rp = 500 \<longrightarrow> g' = g \<or> joins k g g') \<and>
      (rp_status rp \<in> {400, 404, 409, 503} \<longrightarrow> g' = g) \<and>
      (rp_status rp = 400 \<longrightarrow> \<not> repo_format_matches (req_repo req)) \<and>
      (rp_status rp = 409 \<longrightarrow> status g k \<noteq> None))"

definition web_link :: "(registry \<Rightarrow> registry \<Rightarrow> bool) \<Rightarrow> (registry \<Rightarrow> bool) \<Rightarrow> registry reply_rel" where
  "web_link done unknown rp g g' \<longleftrightarrow>
     rp_status rp \<in> {200, 404, 500} \<and>
     (rp_status rp = 200 \<longrightarrow> done g g') \<and>
     (rp_status rp = 404 \<longrightarrow> g' = g \<and> unknown g) \<and>
     (rp_status rp = 500 \<longrightarrow> g' = g \<or> done g g')"

lemma http_subscribe_web:
  assumes "schema_ok d" and "http_subscribe req rp d d'"
  shows "web_subscribe req rp (abs_registry d) (abs_registry d')"
  using assms(2) added_pending_refines [OF assms(1)]
  by (auto simp: http_subscribe_def web_subscribe_def Let_def subscribed_abs)

lemma http_subscribe_schema:
  "http_subscribe req rp d d' \<Longrightarrow> schema_ok d \<Longrightarrow> schema_ok d'"
  by (auto simp: http_subscribe_def intro: added_pending_schema)

lemma http_confirm_web:
  assumes "schema_ok d" and "http_link (link_confirms v) (link_unknown v) rp d d'"
  shows "web_link (confirms_link v) (\<lambda>g. v = [] \<or> confirm_links g v = None) rp (abs_registry d) (abs_registry d') \<and>
    schema_ok d'"
  using assms(2) confirmed_by_refines [OF assms(1)] confirmed_and_spent_refines [OF assms(1)]
    confirmed_by_schema [OF _ assms(1)] confirmed_and_spent_schema [OF _ assms(1)] assms(1)
  by (auto simp: http_link_def web_link_def link_confirms_def link_unknown_def confirm_links_abs_None)

lemma http_unsubscribe_web:
  assumes "schema_ok d" and "http_link (unsubscribed_by v) (unsub_unknown v) rp d d'"
  shows "web_link (leaves_by_link v) (\<lambda>g. v = [] \<or> unsub_links g v = None) rp (abs_registry d) (abs_registry d') \<and>
    schema_ok d'"
  using assms(2) unsubscribed_by_refines [OF assms(1)] unsubscribed_by_schema [OF _ assms(1)] assms(1)
  by (auto simp: http_link_def web_link_def unsub_unknown_def unsub_links_abs_None)

section \<open>The interface on an application\<close>

text \<open>An environment of the interface that serves the wired application.\<close>

definition app_api :: "'w platform \<Rightarrow> (string \<Rightarrow> bool) \<Rightarrow> string \<Rightarrow> 'w github_client \<Rightarrow> 'w api_env \<Rightarrow> bool" where
  "app_api P parse_ok base_url gh env \<longleftrightarrow> ae_service env = service_api parse_ok (app_service P base_url gh)"

lemma app_api_env:
  assumes "app_platform P tables bus answered entries" and "client_ok tables bus gh"
    and "api_world env tables" and "app_api P parse_ok base_url gh env"
  shows "api_service_env env (app_service P base_url gh) tables parse_ok"
  using app_platform.service_env [OF assms(1,2)] assms(3,4)
  by (simp add: api_service_env_def api_service_env_axioms_def app_api_def)

lemma serve_run:
  assumes "api_service_env env s tables parse_ok"
    and "\<And>i rp. meets tables (endpoint_of env key (rq\<lparr>in_request_id := i\<rparr>) rp) (replies C)"
    and "serve env key rq w = (r, w')"
  shows "case r of Return rp \<Rightarrow> C rp (tables w) (tables w') | Panic p \<Rightarrow> tables w' = tables w"
  using meetsD [OF api_world.serve_meets [OF _ assms(2)] assms(3)] assms(1)
  by (simp add: api_service_env_def)

lemma param_request_id [simp]: "param (rq\<lparr>in_request_id := i\<rparr>) n = param rq n"
    "query_value (rq\<lparr>in_request_id := i\<rparr>) n = query_value rq n"
    "authorised key (rq\<lparr>in_request_id := i\<rparr>) = authorised key rq"
  by (simp_all add: param_def query_value_def authorised_def)

section \<open>An interface to run\<close>

text \<open>Here a body is an address and a repository with a blank between them.\<close>

definition demo_bind :: "string \<Rightarrow> error + subscribe_request" where
  "demo_bind body =
     (case split_n 2 '' '' body of
        [email, repo] \<Rightarrow> Inr \<lparr>req_email = email, req_repo = repo\<rparr>
      | _ \<Rightarrow> Inl (Extern ''EOF''))"

definition demo_api :: "world api_env" where
  "demo_api =
     \<lparr>ae_service = service_api (\<lambda>_. True) demo_service, ae_bind = demo_bind, ae_order = (\<lambda>w. rev error_view),
      ae_read_page = (\<lambda>name. Inr ''<html>''), ae_uuid_string = sim_uuid_string, ae_observe = (\<lambda>m r c. ret ()),
      ae_prometheus = (\<lambda>rq rp. ret rp), ae_fallback = (\<lambda>rq rp. ret (rp\<lparr>rp_status := 404\<rparr>))\<rparr>"

interpretation demo_web: api_world demo_api tables
  by unfold_locales
     (auto simp: demo_api_def range_order_def meets_def ret_def keeps_def sim_uuid_string_def)

interpretation demo_http: api_service_env demo_api demo_service tables "\<lambda>_. True"
  by unfold_locales (simp add: demo_api_def)

definition demo_request :: "string \<Rightarrow> string \<Rightarrow> header \<Rightarrow> string \<Rightarrow> http_in" where
  "demo_request m path hs body =
     \<lparr>in_method = m, in_full_path = path, in_headers = hs, in_params = [''token'' \<mapsto> body],
      in_query = [''email'' \<mapsto> body], in_body = body, in_request_id = []\<rparr>"

lemma canonical_keys: "canonical_key True ''X-API-Key'' = ''X-Api-Key''"
    "canonical_key True ''X-Request-ID'' = ''X-Request-Id''"
  by code_simp+

lemma served:
  "(case fst m of Return rp \<Rightarrow> Q rp | Panic p \<Rightarrow> False) \<Longrightarrow> \<exists>rp w'. m = (Return rp, w') \<and> Q rp"
  by (cases m; cases "fst m") auto

lemma demo_app_api: "app_api sim_platform (\<lambda>_. True) demo_url demo_client demo_api"
  by (simp add: app_api_def demo_api_def demo_service_def)

section \<open>Properties\<close>

text \<open>
  C24. Every error is shown by the table: one that carries a single sentinel of the table gets
  that entry's status and message whatever order the map is ranged over in; one that carries
  none is a 500; and the body is always one of seven fixed texts, so no text of an error
  reaches a client.
\<close>

theorem errors_by_the_table:
  assumes "range_order order"
  shows "(\<forall>s code m. (s, code, m) \<in> set error_view \<longrightarrow> errors_is err s \<longrightarrow>
      (\<forall>t \<in> fst ` set error_view. errors_is err t \<longrightarrow> t = s) \<longrightarrow>
      write_error order err rp = json_reply code (error_response m) rp) \<and>
    ((\<forall>t \<in> fst ` set error_view. \<not> errors_is err t) \<longrightarrow>
      write_error order err rp = json_reply 500 (error_response ''internal app error'') rp) \<and>
    (\<exists>(code, m) \<in> insert (500, ''internal app error'') (snd ` set error_view).
      write_error order err rp = json_reply code (error_response m) rp)"
proof (intro conjI allI impI)
  fix s code m
  assume a: "(s, code, m) \<in> set error_view" "errors_is err s"
    "\<forall>t \<in> fst ` set error_view. errors_is err t \<longrightarrow> t = s"
  have "first_view order err = Some (code, m)"
  proof (rule first_view_unique [OF _ a(2) range_order_distinct [OF assms]])
    show "(s, code, m) \<in> set order" using a(1) by (simp only: range_order_set [OF assms])
    show "t = s" if "t \<in> fst ` set order" "errors_is err t" for t
      using a(3) that unfolding range_order_set [OF assms] by blast
  qed
  then show "write_error order err rp = json_reply code (error_response m) rp"
    by (simp add: write_error_def)
next
  assume "\<forall>t \<in> fst ` set error_view. \<not> errors_is err t"
  then have "first_view order err = None"
    using range_order_set [OF assms] by (simp add: first_view_None)
  then show "write_error order err rp = json_reply 500 (error_response ''internal app error'') rp"
    by (simp add: write_error_def)
next
  show "\<exists>(code, m) \<in> insert (500, ''internal app error'') (snd ` set error_view).
      write_error order err rp = json_reply code (error_response m) rp"
  proof (cases "first_view order err")
    case None
    then show ?thesis by (simp add: write_error_def)
  next
    case (Some v)
    then obtain s where "(s, v) \<in> set error_view"
      using first_view_Some [OF Some] range_order_set [OF assms] by blast
    then have "v \<in> snd ` set error_view" by (rule image_eqI [rotated]) simp
    with Some show ?thesis by (intro bexI [of _ v]) (simp_all add: write_error_def split: prod.split)
  qed
qed

lemma errors_by_the_table_witness:
  "write_error (rev error_view) (wrapf ''check'' (Sentinel ErrRateLimited)) empty_reply =
     json_reply 503 (error_response ''service temporarily unavailable, try again later'') empty_reply"
proof -
  have "range_order (rev error_view)" by (simp add: range_order_def)
  from errors_by_the_table [OF this, of "wrapf ''check'' (Sentinel ErrRateLimited)" empty_reply]
  show ?thesis by (simp add: error_view_def)
qed

text \<open>
  C19. \<open>POST /api/subscribe\<close>: what the status says about the registry. 200: the account was not
  there and is there now, unconfirmed; 409: it was there already; 400: the repository name has
  the wrong form; 404 and 503: nothing changed; 500: nothing changed, or the account was added
  although the acknowledgement was lost. A panic anywhere below is a 500 too.
\<close>

theorem subscribe_status_tells:
  assumes "app_platform P tables bus answered entries" and "api_world env tables"
    and "app_api P parse_ok base_url (app_github P cfg dsn up) env" and "schema_ok (tables w)"
    and "in_method rq = ''POST''" and "in_full_path rq = ''/api/subscribe''" and "authorised key rq"
    and "ae_bind env (in_body rq) = Inr req" and "serve env key rq w = (r, w')"
  shows "schema_ok (tables w') \<and>
    (case r of Return rp \<Rightarrow> web_subscribe req rp (abs_registry (tables w)) (abs_registry (tables w'))
     | Panic p \<Rightarrow> tables w' = tables w)"
proof -
  note env = app_api_env [OF assms(1) app_platform.app_client_ok [OF assms(1)] assms(2,3)]
  have "meets tables (endpoint_of env key (rq\<lparr>in_request_id := i\<rparr>) rp) (replies (http_subscribe req))" for i rp
    using api_service_env.subscribe_endpoint [OF env] assms(5-8)
    by (simp add: endpoint_routes(1) api_key_authorised)
  from serve_run [OF env this assms(9)] assms(4) show ?thesis
    by (auto intro: http_subscribe_schema http_subscribe_web split: outcome.splits)
qed

lemma subscribe_status_tells_witness:
  "\<exists>rp w'. serve demo_api ''k'' (demo_request ''POST'' ''/api/subscribe'' [''X-Api-Key'' \<mapsto> ''k'', ''X-Request-Id'' \<mapsto> ''r1'']
      ''ann@example.org golang/go'') (demo_world demo_db []) = (Return rp, w') \<and>
    rp_status rp = 409 \<and>
    web_subscribe \<lparr>req_email = ''ann@example.org'', req_repo = ''golang/go''\<rparr> rp (abs_registry demo_db) (abs_registry (tables w'))"
proof -
  let ?rq = "demo_request ''POST'' ''/api/subscribe'' [''X-Api-Key'' \<mapsto> ''k'', ''X-Request-Id'' \<mapsto> ''r1'']
      ''ann@example.org golang/go''"
  let ?w = "demo_world demo_db []"
  have bind: "ae_bind demo_api (in_body ?rq) = Inr \<lparr>req_email = ''ann@example.org'', req_repo = ''golang/go''\<rparr>"
    and route: "in_method ?rq = ''POST''" "in_full_path ?rq = ''/api/subscribe''" "authorised ''k'' ?rq"
    by code_simp+
  have "write_error (rev error_view) (Sentinel ErrAlreadySubscribed) rp =
      json_reply 409 (error_response ''email already subscribed to this repository'') rp" for rp
    by (simp add: write_error_def error_view_def)
  then have run: "(case fst (serve demo_api ''k'' ?rq ?w) of Return rp \<Rightarrow> rp_status rp = 409 | Panic p \<Rightarrow> False)"
    using demo_subscribe_again bind canonical_keys
    by (simp del: canonical_key.simps add: demo_request_def serve_def request_id_def metrics_middleware_def recovery_def endpoint_routes
        api_key_auth_def handle_subscribe_def demo_api_def service_api_def fail_with_def call_def with_recover_def
        ret_def sim_uuid_string_def header_get_def request_id_header_def json_reply_def)
  obtain rp w' where s: "serve demo_api ''k'' ?rq ?w = (Return rp, w')" and rp: "rp_status rp = 409"
    using served [OF run] by blast
  have "schema_ok (tables ?w)" by (simp add: demo_world_def schema_ok_demo_db)
  from subscribe_status_tells [OF sim.app_platform_axioms demo_web.api_world_axioms demo_app_api [unfolded demo_client_def]
      this route bind s]
  have "web_subscribe \<lparr>req_email = ''ann@example.org'', req_repo = ''golang/go''\<rparr> rp (abs_registry demo_db) (abs_registry (tables w'))"
    by (simp add: demo_world_def)
  with s rp show ?thesis by blast
qed

text \<open>
  C20. The links of the mails: \<open>GET /api/confirm/:token\<close> and \<open>/api/unsubscribe/:token\<close> (GET or
  POST) need no key; 200 says that the account of this link was confirmed or has left, 404 that
  the link is unknown and nothing changed, 500 that the outcome is one of the two.
\<close>

theorem link_status_tells:
  assumes "app_platform P tables bus answered entries" and "api_world env tables"
    and "app_api P parse_ok base_url (app_github P cfg dsn up) env" and "schema_ok (tables w)"
    and "serve env key rq w = (Return rp, w')"
  shows "(in_method rq = ''GET'' \<and> in_full_path rq = ''/api/confirm/:token'' \<longrightarrow>
      web_link (confirms_link (param rq ''token''))
        (\<lambda>g. param rq ''token'' = [] \<or> confirm_links g (param rq ''token'') = None) rp
        (abs_registry (tables w)) (abs_registry (tables w')) \<and> schema_ok (tables w')) \<and>
    (in_method rq \<in> {''GET'', ''POST''} \<and> in_full_path rq = ''/api/unsubscribe/:token'' \<longrightarrow>
      web_link (leaves_by_link (param rq ''token''))
        (\<lambda>g. param rq ''token'' = [] \<or> unsub_links g (param rq ''token'') = None) rp
        (abs_registry (tables w)) (abs_registry (tables w')) \<and> schema_ok (tables w'))"
proof (intro conjI impI)
  note env = app_api_env [OF assms(1) app_platform.app_client_ok [OF assms(1)] assms(2,3)]
  {
    assume rt: "in_method rq = ''GET'' \<and> in_full_path rq = ''/api/confirm/:token''"
    have "meets tables (endpoint_of env key (rq\<lparr>in_request_id := i\<rparr>) rp)
        (replies (http_link (link_confirms (param rq ''token'')) (link_unknown (param rq ''token''))))" for i rp
      using api_service_env.confirm_endpoint [OF env, of "rq\<lparr>in_request_id := i\<rparr>"] rt
      by (simp add: endpoint_routes(3))
    from serve_run [OF env this assms(5)]
    show "web_link (confirms_link (param rq ''token''))
        (\<lambda>g. param rq ''token'' = [] \<or> confirm_links g (param rq ''token'') = None) rp
        (abs_registry (tables w)) (abs_registry (tables w'))" and "schema_ok (tables w')"
      using http_confirm_web [OF assms(4)] by simp_all
  next
    assume rt: "in_method rq \<in> {''GET'', ''POST''} \<and> in_full_path rq = ''/api/unsubscribe/:token''"
    have "meets tables (endpoint_of env key (rq\<lparr>in_request_id := i\<rparr>) rp)
        (replies (http_link (unsubscribed_by (param rq ''token'')) (unsub_unknown (param rq ''token''))))" for i rp
      using api_service_env.unsubscribe_endpoint [OF env, of "rq\<lparr>in_request_id := i\<rparr>"] rt
      by (simp add: endpoint_routes(4))
    from serve_run [OF env this assms(5)]
    show "web_link (leaves_by_link (param rq ''token''))
        (\<lambda>g. param rq ''token'' = [] \<or> unsub_links g (param rq ''token'') = None) rp
        (abs_registry (tables w)) (abs_registry (tables w'))" and "schema_ok (tables w')"
      using http_unsubscribe_web [OF assms(4)] by simp_all
  }
qed

lemma link_status_tells_witness:
  "\<exists>rp w'. serve demo_api ''k'' (demo_request ''GET'' ''/api/confirm/:token'' Map.empty ''yes'') (demo_world demo_db []) = (Return rp, w') \<and>
    rp_status rp = 200 \<and> confirms_link ''yes'' (abs_registry demo_db) (abs_registry (tables w'))"
proof -
  let ?rq = "demo_request ''GET'' ''/api/confirm/:token'' Map.empty ''yes''" and ?w = "demo_world demo_db []"
  have run: "(case fst (serve demo_api ''k'' ?rq ?w) of Return rp \<Rightarrow> rp_status rp = 200 | Panic p \<Rightarrow> False)"
    by code_simp
  obtain rp w' where s: "serve demo_api ''k'' ?rq ?w = (Return rp, w')" and rp: "rp_status rp = 200"
    using served [OF run] by blast
  have "schema_ok (tables ?w)" by (simp add: demo_world_def schema_ok_demo_db)
  from link_status_tells [OF sim.app_platform_axioms demo_web.api_world_axioms demo_app_api [unfolded demo_client_def]
      this s] rp
  have "confirms_link ''yes'' (abs_registry demo_db) (abs_registry (tables w'))"
    by (simp add: demo_world_def demo_request_def param_def web_link_def)
  with s rp show ?thesis by blast
qed

text \<open>
  C21. \<open>GET /api/subscriptions\<close>: the body of a 200 is a JSON array that decodes to exactly the
  subscriptions of the address, in some order; nothing is changed; 400 says that the address is
  empty or does not parse.
\<close>

theorem list_reply_decodes:
  assumes "app_platform P tables bus answered entries" and "api_world env tables"
    and "app_api P parse_ok base_url (app_github P cfg dsn up) env"
    and "in_method rq = ''GET''" and "in_full_path rq = ''/api/subscriptions''" and "authorised key rq"
    and "serve env key rq w = (Return rp, w')"
  shows "tables w' = tables w \<and> rp_status rp \<in> {200, 400, 500} \<and>
    (rp_status rp = 400 \<longrightarrow> trim_space (query_value rq ''email'') = [] \<or> \<not> parse_ok (trim_space (query_value rq ''email''))) \<and>
    (rp_status rp = 200 \<longrightarrow> (\<exists>rs. whole_value (rp_body rp) = Some (JArray (map subscription_value rs)) \<and>
       mset rs = mset (map to_subscription_response
         (filter (\<lambda>s. sub_email s = trim_space (query_value rq ''email'')) (subs (tables w))))))"
proof -
  note env = app_api_env [OF assms(1) app_platform.app_client_ok [OF assms(1)] assms(2,3)]
  have "meets tables (endpoint_of env key (rq\<lparr>in_request_id := i\<rparr>) rp)
      (replies (http_list parse_ok (query_value rq ''email'')))" for i rp
    using api_service_env.list_endpoint [OF env, of "rq\<lparr>in_request_id := i\<rparr>"] assms(4-6)
    by (simp add: endpoint_routes(2) api_key_authorised)
  from serve_run [OF env this assms(7)] read_subscriptions_json show ?thesis
    by (auto simp: http_list_def simp del: mset_map mset_filter)
qed

lemma list_reply_decodes_witness:
  "\<exists>rp w'. serve demo_api [] (demo_request ''GET'' ''/api/subscriptions'' Map.empty ''ann@example.org'') (demo_world demo_db []) = (Return rp, w') \<and>
    rp_status rp = 200 \<and> (\<exists>rs. whole_value (rp_body rp) = Some (JArray (map subscription_value rs)) \<and>
      mset rs = {#to_subscription_response demo_sub#})"
proof -
  let ?rq = "demo_request ''GET'' ''/api/subscriptions'' Map.empty ''ann@example.org''" and ?w = "demo_world demo_db []"
  have run: "(case fst (serve demo_api [] ?rq ?w) of Return rp \<Rightarrow> rp_status rp = 200 | Panic p \<Rightarrow> False)"
    and "authorised [] ?rq" and t: "trim_space (query_value ?rq ''email'') = ''ann@example.org''"
    and "in_method ?rq = ''GET''" and "in_full_path ?rq = ''/api/subscriptions''"
    by code_simp+
  moreover obtain rp w' where s: "serve demo_api [] ?rq ?w = (Return rp, w')" and rp: "rp_status rp = 200"
    using served [OF run] by blast
  ultimately have "\<exists>rs. whole_value (rp_body rp) = Some (JArray (map subscription_value rs)) \<and>
      mset rs = {#to_subscription_response demo_sub#}"
    using list_reply_decodes [OF sim.app_platform_axioms demo_web.api_world_axioms demo_app_api [unfolded demo_client_def]
      _ _ _ s] by (simp add: demo_world_def demo_db_def) (simp add: demo_sub_def)
  with s rp show ?thesis by blast
qed

text \<open>
  C22. With an API key configured, a request to a protected route that does not carry it changes
  nothing and is answered 401 when it carries none and 403 when it carries another.
\<close>

theorem key_guards_protected_routes:
  assumes "api_world env tables" and "protected_route rq" and "\<not> authorised key rq"
    and "serve env key rq w = (r, w')"
  shows "tables w' = tables w \<and>
    (\<forall>rp. r = Return rp \<longrightarrow> rp_status rp = (if header_get (in_headers rq) ''X-API-Key'' = [] then 401 else 403))"
proof -
  let ?C = "\<lambda>rp (d :: db) d'. d' = d \<and> rp_status rp = (if header_get (in_headers rq) ''X-API-Key'' = [] then 401 else 403 :: int)"
  have "meets tables (endpoint_of env key (rq\<lparr>in_request_id := i\<rparr>) rp) (replies ?C)" for i rp
    using assms(2,3)
    by (auto simp: protected_route_def endpoint_of_def routes_def api_key_auth_def authorised_def Let_def meets_def
        ret_def replies_def)
  from meetsD [OF api_world.serve_meets [OF assms(1) this] assms(4)] show ?thesis
    by (auto split: outcome.splits)
qed

lemma key_guards_protected_routes_witness:
  "tables (snd (serve demo_api ''k'' (demo_request ''POST'' ''/api/subscribe'' [''X-Api-Key'' \<mapsto> ''j''] ''bob@example.org golang/go'')
     (demo_world demo_db []))) = demo_db"
proof -
  let ?rq = "demo_request ''POST'' ''/api/subscribe'' [''X-Api-Key'' \<mapsto> ''j''] ''bob@example.org golang/go''"
  have "protected_route ?rq" "\<not> authorised ''k'' ?rq" by code_simp+
  from key_guards_protected_routes [OF demo_web.api_world_axioms this prod.collapse [symmetric], of "demo_world demo_db []"]
  show ?thesis by (simp add: demo_world_def)
qed

text \<open>What the endpoints keep of the headers of the reply under construction.\<close>

definition keeps_header :: "reply \<Rightarrow> reply outcome \<Rightarrow> bool" where
  "keeps_header rp r \<longleftrightarrow>
     (\<forall>rp'. r = Return rp' \<longrightarrow> header_get (rp_headers rp') request_id_header = header_get (rp_headers rp) request_id_header)"

lemma keeps_header_simps [simp]: "keeps_header rp (Panic p)" "keeps_header rp (Return (json_reply code body rp))"
  by (simp_all add: keeps_header_def json_reply_def)

lemma yields_ret: "T (Return a) \<Longrightarrow> yields T (ret a)"
  by (simp add: meets_def ret_def)

lemma yields_true: "yields (\<lambda>r. \<forall>a. r = Return a \<longrightarrow> True) m"
  by (simp add: meets_def)

lemma fail_keeps_header: "yields (keeps_header rp) (fail_with env err rp)"
  by (auto simp: meets_def fail_with_def ret_def keeps_header_def write_error_def json_reply_def split: option.split)

lemma handlers_keep_header:
  "yields (keeps_header rp) (handle_subscribe env rq rp)" "yields (keeps_header rp) (handle_confirm env rq rp)"
  "yields (keeps_header rp) (handle_unsubscribe env rq rp)" "yields (keeps_header rp) (handle_get_subscriptions env rq rp)"
  "yields (keeps_header rp) (handle_health rq rp)" "yields (keeps_header rp) (subscribe_page env rq rp)"
  by (auto simp: handle_subscribe_def handle_confirm_def handle_unsubscribe_def handle_get_subscriptions_def
      handle_health_def subscribe_page_def keeps_header_def [of _ "Return (rp\<lparr>rp_status := _, rp_content_type := _, rp_body := _\<rparr>)"]
      intro!: yields_call [OF yields_true] yields_ret fail_keeps_header split: sum.split option.split)

lemma auth_keeps_header:
  "(\<And>rp. yields (keeps_header rp) (rest rq rp)) \<Longrightarrow> yields (keeps_header rp) (api_key_auth key rest rq rp)"
  by (auto simp: api_key_auth_def Let_def intro!: yields_ret)

context api_world
begin

lemma builtins_keep_header:
  "yields (keeps_header rp) (ae_prometheus env rq rp)" "yields (keeps_header rp) (ae_fallback env rq rp)"
  unfolding meets_def keeps_header_def using builtin_headers by blast+

lemma endpoints_keep_header: "yields (keeps_header rp) (endpoint_of env key rq rp)"
proof (cases "map_of (routes env key) (in_method rq, in_full_path rq)")
  case None
  then show ?thesis by (simp add: endpoint_of_def builtins_keep_header)
next
  case (Some h)
  have "h \<in> snd ` set (routes env key)" using map_of_SomeD [OF Some] by force
  then have "yields (keeps_header rp) (h rq rp)"
    by (auto simp: routes_def intro!: handlers_keep_header auth_keeps_header builtins_keep_header)
  with Some show ?thesis by (simp add: endpoint_of_def)
qed

lemma chain_replies:
  "\<exists>rp'. fst (metrics_middleware env (recovery (endpoint_of env key)) rq rp w) = Return rp' \<and>
     header_get (rp_headers rp') request_id_header = header_get (rp_headers rp) request_id_header"
proof -
  obtain r1 w1 where run: "endpoint_of env key rq rp w = (r1, w1)" by fastforce
  have h: "keeps_header rp r1" using endpoints_keep_header [where rp = rp and key = key and rq = rq] run by (simp add: meets_def) (metis fst_conv)
  have o: "fst (ae_observe env m rt c w2) = Return ()" for m rt c w2
    using observe [of m rt c] by (simp add: meets_def)
  obtain rp' where rec: "recovery (endpoint_of env key) rq rp w = (Return rp', w1)"
      "header_get (rp_headers rp') request_id_header = header_get (rp_headers rp) request_id_header"
    using run h by (cases r1) (auto simp: recovery_def with_recover_def keeps_header_def ret_def)
  then show ?thesis
    using o [of "method_label rq" "route_label rq" "rp_status rp'" w1]
    by (cases "ae_observe env (method_label rq) (route_label rq) (rp_status rp') w1")
       (simp add: metrics_middleware_def call_def ret_def)
qed

end



end
