(* ===== verification/Notifier.thy ===== *)
theory Notifier imports Bus begin

text \<open>
  The second process, \<open>internal/notifier\<close>: \<open>handler.go\<close> turns a message of the stream into a
  mail, \<open>mailer.go\<close> hands it to the SMTP server, and \<open>subscriber.go\<close> settles the message
  with JetStream. \<open>net/smtp\<close>, the context and the methods of \<open>jetstream.Msg\<close> are parameters.
\<close>

section \<open>Configuration\<close>

record smtp_config =
  sp_host :: string
  sp_port :: string
  sp_username :: string
  sp_password :: string

definition smtp_validate :: "smtp_config \<Rightarrow> error option" where
  "smtp_validate c =
     (if sp_host c = [] \<or> sp_port c = [] \<or> sp_username c = [] \<or> sp_password c = []
      then Some (Extern ''SMTP_HOST, SMTP_PORT, SMTP_USERNAME, and SMTP_PASSWORD are required'')
      else None)"

section \<open>The mailer\<close>

text \<open>
  The message as it goes out. \<open>crlf\<close> ends a header line; the blank line ends the header.
\<close>

definition crlf :: string where "crlf = [CHR 13, CHR 10]"

definition build_mime :: "string \<Rightarrow> string \<Rightarrow> string \<Rightarrow> string \<Rightarrow> string" where
  "build_mime sender to subject html_body =
     ''From: '' @ sender @ crlf @
     ''To: '' @ to @ crlf @
     ''Subject: '' @ subject @ crlf @
     ''MIME-Version: 1.0'' @ crlf @
     ''Content-Type: text/html; charset=UTF-8'' @ crlf @
     ''Content-Transfer-Encoding: 8bit'' @ crlf @ crlf @
     html_body @ crlf"

text \<open>
  \<open>net/smtp\<close> and the context. \<open>mt_race\<close> is the goroutine that runs \<open>smtp.SendMail\<close> (server
  address, user, sender, recipients, body) together with the \<open>select\<close> on it and on
  \<open>ctx.Done()\<close>: \<open>Inl\<close> the context's error when the context ended first, \<open>Inr\<close> the result of
  \<open>SendMail\<close> otherwise.
\<close>

record smtp_call =
  mc_addr :: string
  mc_auth :: "string \<times> string \<times> string"
  mc_from :: string
  mc_to :: "string list"
  mc_body :: string

record 'w mail_transport =
  mt_ctx_err :: "('w, error option) io"
  mt_race :: "smtp_call \<Rightarrow> ('w, error + error option) io"

definition smtp_call_for :: "smtp_config \<Rightarrow> string \<Rightarrow> string \<Rightarrow> string \<Rightarrow> smtp_call" where
  "smtp_call_for m to subject html_body =
     \<lparr>mc_addr = sp_host m @ '':'' @ sp_port m, mc_auth = (sp_username m, sp_password m, sp_host m),
      mc_from = sp_username m, mc_to = [to], mc_body = build_mime (sp_username m) to subject html_body\<rparr>"

type_synonym 'w mailer = "string \<Rightarrow> string \<Rightarrow> string \<Rightarrow> ('w, error option) io"

definition smtp_send :: "'w mail_transport \<Rightarrow> smtp_config \<Rightarrow> 'w mailer" where
  "smtp_send mt m to subject html_body =
     call (mt_ctx_err mt) (\<lambda>r. case r of
       Some err \<Rightarrow> ret (Some err)
     | None \<Rightarrow>
     call (mt_race mt (smtp_call_for m to subject html_body)) (\<lambda>r. case r of
       Inl ctx_err \<Rightarrow> ret (Some ctx_err)
     | Inr (Some err) \<Rightarrow> ret (Some (wrapf ''failed to send email'' err))
     | Inr None \<Rightarrow> ret None))"

section \<open>The handler\<close>

type_synonym 'w handler = "string \<Rightarrow> string \<Rightarrow> ('w, error option) io"

definition new_handler :: "'w mailer \<Rightarrow> 'w handler" where
  "new_handler send subject data =
     (case unmarshal_command data of
        Inl err \<Rightarrow>
          ret (Some (Errorf [Wrapped (Sentinel ErrPermanent), Lit '': unmarshal email command: '', Wrapped err]))
      | Inr cmd \<Rightarrow>
        if ec_recipient cmd = []
        then ret (Some (Errorf [Wrapped (Sentinel ErrPermanent), Lit '': empty recipient'']))
        else
        call (send (ec_recipient cmd) (ec_subject cmd) (ec_html_body cmd)) (\<lambda>r. case r of
          Some err \<Rightarrow> ret (Some (wrapf ''send email'' err))
        | None \<Rightarrow> ret None))"

section \<open>Settling a message\<close>

datatype action = ActionAck | ActionNak | ActionTerm

definition action_label :: "action \<Rightarrow> string" where
  "action_label a = (case a of ActionNak \<Rightarrow> ''nak'' | ActionTerm \<Rightarrow> ''term'' | _ \<Rightarrow> ''ack'')"

definition classify :: "error option \<Rightarrow> int \<Rightarrow> int \<Rightarrow> action" where
  "classify err num_delivered max_deliver =
     (case err of
        None \<Rightarrow> ActionAck
      | Some e \<Rightarrow>
          if errors_is e ErrPermanent then ActionTerm
          else if num_delivered \<ge> max_deliver then ActionTerm
          else ActionNak)"

definition nak_backoff :: int where "nak_backoff = 5 * second"

text \<open>
  One delivery of a message: what \<open>Subject\<close>, \<open>Data\<close> and \<open>Metadata\<close> return (the number of
  deliveries is a \<open>uint64\<close>), and the settling methods, whose errors the program drops.
\<close>

record delivery =
  dl_subject :: string
  dl_data :: string
  dl_metadata :: "error + nat"

record 'w acker =
  ak_ack :: "delivery \<Rightarrow> ('w, error option) io"
  ak_nak_with_delay :: "delivery \<Rightarrow> int \<Rightarrow> ('w, error option) io"
  ak_term :: "delivery \<Rightarrow> ('w, error option) io"

definition num_delivered :: "delivery \<Rightarrow> int" where
  "num_delivered msg =
     (case dl_metadata msg of
        Inr n \<Rightarrow> if int n \<le> max_int64 then int n else 1
      | Inl err \<Rightarrow> 1)"

text \<open>The counter \<open>notify_messages_total\<close>, by subject and outcome.\<close>

type_synonym 'w counter = "string \<Rightarrow> string \<Rightarrow> ('w, unit) io"

definition consume ::
  "'w jetstream \<Rightarrow> 'w acker \<Rightarrow> 'w counter \<Rightarrow> int \<Rightarrow> 'w handler \<Rightarrow> delivery \<Rightarrow> ('w, unit) io" where
  "consume js ak messages_total max_deliver h msg =
     call (h (dl_subject msg) (dl_data msg)) (\<lambda>herr.
     let act = classify herr (num_delivered msg) max_deliver in
     call (messages_total (dl_subject msg) (action_label act)) (\<lambda>_.
     case act of
       ActionAck \<Rightarrow> call (ak_ack ak msg) (\<lambda>_. ret ())
     | ActionNak \<Rightarrow> call (ak_nak_with_delay ak msg nak_backoff) (\<lambda>_. ret ())
     | ActionTerm \<Rightarrow>
         call (js_publish js dlq_subject (dl_data msg) None) (\<lambda>derr. case derr of
           Some err \<Rightarrow> call (ak_nak_with_delay ak msg nak_backoff) (\<lambda>_. ret ())
         | None \<Rightarrow> call (ak_term ak msg) (\<lambda>_. ret ()))))"

text \<open>The consumer that \<open>Subscribe\<close> asks for; \<open>start\<close> begins to deliver to the callback.\<close>

record consumer_config =
  cn_durable :: string
  cn_explicit_ack :: bool
  cn_filter_subject :: string
  cn_max_deliver :: int
  cn_ack_wait :: int

record ('w, 'c, 'cc) consumer_api =
  ca_create :: "string \<Rightarrow> consumer_config \<Rightarrow> ('w, error + 'c) io"
  ca_consume :: "'c \<Rightarrow> (delivery \<Rightarrow> ('w, unit) io) \<Rightarrow> ('w, error + 'cc) io"

definition subscribe_consumer ::
  "('w, 'c, 'cc) consumer_api \<Rightarrow> 'w jetstream \<Rightarrow> 'w acker \<Rightarrow> 'w counter \<Rightarrow> int \<Rightarrow> int \<Rightarrow> 'w handler \<Rightarrow>
   ('w, error + 'cc) io" where
  "subscribe_consumer api js ak messages_total max_deliver ack_wait h =
     call (ca_create api stream_name
       \<lparr>cn_durable = durable_consumer, cn_explicit_ack = True, cn_filter_subject = stream_subject,
        cn_max_deliver = max_deliver, cn_ack_wait = ack_wait\<rparr>) (\<lambda>r. case r of
       Inl err \<Rightarrow> ret (Inl (wrapf (''create consumer '' @ durable_consumer) err))
     | Inr cons \<Rightarrow> ca_consume api cons (consume js ak messages_total max_deliver h))"

section \<open>What a handler does\<close>

text \<open>
  The SMTP server, as the list of mails it has accepted. When \<open>SendMail\<close> fails, or the context
  ends first, the mail may have been accepted all the same.
\<close>

locale smtp_server =
  fixes mt :: "'w mail_transport" and mailbox :: "'w \<Rightarrow> smtp_call list"
  assumes ctx_err: "meets mailbox (mt_ctx_err mt) (\<lambda>d r d'. d' = d \<and> (\<forall>e. r = Return (Some e) \<longrightarrow> foreign e))"
    and race: "meets mailbox (mt_race mt x) (\<lambda>d r d'.
      (d' = d \<or> d' = d @ [x]) \<and> (r = Return (Inr None) \<longrightarrow> d' = d @ [x]) \<and>
      (\<forall>e. r = Return (Inl e) \<or> r = Return (Inr (Some e)) \<longrightarrow> foreign e))"

definition command_call :: "smtp_config \<Rightarrow> email_command \<Rightarrow> smtp_call" where
  "command_call cfg cmd = smtp_call_for cfg (ec_recipient cmd) (ec_subject cmd) (ec_html_body cmd)"

definition readable :: "string \<Rightarrow> email_command \<Rightarrow> bool" where
  "readable data cmd \<longleftrightarrow> unmarshal_command data = Inr cmd \<and> ec_recipient cmd \<noteq> []"

definition handler_contract :: "smtp_config \<Rightarrow> string \<Rightarrow> (smtp_call list, error option) contract" where
  "handler_contract cfg data d r d' \<longleftrightarrow>
     (d' = d \<or> (\<exists>cmd. readable data cmd \<and> d' = d @ [command_call cfg cmd])) \<and>
     (case r of
        Return None \<Rightarrow> \<exists>cmd. readable data cmd \<and> d' = d @ [command_call cfg cmd]
      | Return (Some e) \<Rightarrow>
          (errors_is e ErrPermanent \<longleftrightarrow> (\<nexists>cmd. readable data cmd)) \<and> (errors_is e ErrPermanent \<longrightarrow> d' = d)
      | Panic p \<Rightarrow> True)"

context smtp_server
begin

lemma send_meets:
  "meets mailbox (smtp_send mt cfg to subject body) (\<lambda>d r d'.
     (d' = d \<or> d' = d @ [smtp_call_for cfg to subject body]) \<and>
     (r = Return None \<longrightarrow> d' = d @ [smtp_call_for cfg to subject body]) \<and>
     (\<forall>e. r = Return (Some e) \<longrightarrow> foreign e))"
  unfolding smtp_send_def
  by (rule meets_run_ok)
     (auto intro!: run_ok_call [OF ctx_err] run_ok_call [OF race] split: option.splits sum.splits)

lemma handler_meets: "meets mailbox (new_handler (smtp_send mt cfg) subject data) (handler_contract cfg data)"
proof (cases "unmarshal_command data")
  case (Inl err)
  then show ?thesis
    by (simp add: new_handler_def meets_def handler_contract_def readable_def)
next
  case (Inr cmd)
  then have r: "readable data c \<longleftrightarrow> c = cmd \<and> ec_recipient cmd \<noteq> []" for c
    by (auto simp: readable_def)
  show ?thesis
    unfolding new_handler_def Inr sum.case
    by (rule meets_run_ok)
       (auto simp: handler_contract_def r command_call_def intro!: run_ok_call [OF send_meets] split: option.splits)
qed

end

section \<open>How a message is settled\<close>

datatype settlement = Acked | Naked int | Termed | Parked string

text \<open>
  The calls that settle one message, in the order they are made. They return; a publication to
  the dead-letter subject that reports an error may have been stored.
\<close>

locale settling =
  fixes js :: "'w jetstream" and ak :: "'w acker" and counter :: "'w counter" and h :: "'w handler"
    and settled :: "'w \<Rightarrow> settlement list"
  assumes ack: "meets settled (ak_ack ak msg) (\<lambda>d r d'. (\<exists>x. r = Return x) \<and> d' = d @ [Acked])"
    and nak: "meets settled (ak_nak_with_delay ak msg t) (\<lambda>d r d'. (\<exists>x. r = Return x) \<and> d' = d @ [Naked t])"
    and terminated: "meets settled (ak_term ak msg) (\<lambda>d r d'. (\<exists>x. r = Return x) \<and> d' = d @ [Termed])"
    and park: "meets settled (js_publish js dlq_subject data None) (\<lambda>d r d'.
      r = Return None \<and> d' = d @ [Parked data] \<or>
      (\<exists>e. r = Return (Some e)) \<and> (d' = d \<or> d' = d @ [Parked data]))"
    and counted: "meets settled (counter subject lbl) (\<lambda>d r d'. r = Return () \<and> d' = d)"
    and handled: "keeps settled (h subject data)"

text \<open>The calls that a handler's result must lead to.\<close>

definition settles :: "action \<Rightarrow> string \<Rightarrow> settlement list \<Rightarrow> bool" where
  "settles act data xs \<longleftrightarrow>
     (case act of
        ActionAck \<Rightarrow> xs = [Acked]
      | ActionNak \<Rightarrow> xs = [Naked nak_backoff]
      | ActionTerm \<Rightarrow> xs \<in> {[Parked data, Termed], [Naked nak_backoff], [Parked data, Naked nak_backoff]})"

context settling
begin

lemma consume_settles:
  assumes "h (dl_subject msg) (dl_data msg) w = (Return herr, w1)"
    and "consume js ak counter max_deliver h msg w = (r, w')"
  shows "r = Return () \<and>
    (\<exists>xs. settled w' = settled w @ xs \<and> settles (classify herr (num_delivered msg) max_deliver) (dl_data msg) xs)"
proof -
  let ?act = "classify herr (num_delivered msg) max_deliver"
  have k: "settled w1 = settled w" using keepsD [OF handled assms(1)] .
  have "run_ok (call (counter (dl_subject msg) (action_label ?act)) (\<lambda>_.
     case ?act of
       ActionAck \<Rightarrow> call (ak_ack ak msg) (\<lambda>_. ret ())
     | ActionNak \<Rightarrow> call (ak_nak_with_delay ak msg nak_backoff) (\<lambda>_. ret ())
     | ActionTerm \<Rightarrow>
         call (js_publish js dlq_subject (dl_data msg) None) (\<lambda>derr. case derr of
           Some err \<Rightarrow> call (ak_nak_with_delay ak msg nak_backoff) (\<lambda>_. ret ())
         | None \<Rightarrow> call (ak_term ak msg) (\<lambda>_. ret ()))))
     (\<lambda>r w'. r = Return () \<and> (\<exists>xs. settled w' = settled w @ xs \<and> settles ?act (dl_data msg) xs)) w1"
    by (rule run_ok_call [OF counted], simp)
       (cases ?act; auto simp: settles_def k split: option.splits
         intro!: run_ok_call [OF ack] run_ok_call [OF nak] run_ok_call [OF terminated] run_ok_call [OF park])
  with assms show ?thesis by (simp add: consume_def call_def Let_def run_ok_def)
qed

lemma consume_panics:
  "h (dl_subject msg) (dl_data msg) w = (Panic p, w1) \<Longrightarrow>
   consume js ak counter max_deliver h msg w = (Panic p, w1) \<and> settled w1 = settled w"
  using keepsD [OF handled] by (simp add: consume_def call_def)

end

end
