(* ===== verification/Desk.thy ===== *)
theory Desk imports Notifier RepoFormat begin

text \<open>
  The notifier at work: how a receiver reads the mails it builds, an SMTP server and a consumer
  in memory that keep the contracts of \<open>Notifier\<close>, and what the handler and the callback do.
\<close>

section \<open>Reading a mail\<close>





definition one_line :: "string \<Rightarrow> bool" where
  "one_line s \<longleftrightarrow> CHR 13 \<notin> set s \<and> CHR 10 \<notin> set s"

lemma one_line_append [simp]: "one_line (s @ t) \<longleftrightarrow> one_line s \<and> one_line t"
  by (auto simp: one_line_def)







section \<open>A notifier in memory\<close>

text \<open>What becomes of one send: accepted, refused, or cut off by the deadline, accepted or not.\<close>

datatype fate = Accepted | Refused | Late | Lost_late

record desk =
  dk_mails :: "smtp_call list"
  dk_settled :: "settlement list"
  dk_fates :: "fate list"
  dk_counts :: "(string \<times> string) list"
  dk_dlq_up :: bool

definition next_fate :: "desk \<Rightarrow> fate" where
  "next_fate d = (case dk_fates d of [] \<Rightarrow> Accepted | f # fs \<Rightarrow> f)"

definition desk_race :: "smtp_call \<Rightarrow> (desk, error + error option) io" where
  "desk_race x d =
     (let d0 = d\<lparr>dk_fates := tl (dk_fates d)\<rparr>; d1 = d0\<lparr>dk_mails := dk_mails d @ [x]\<rparr> in
      case next_fate d of
        Accepted \<Rightarrow> (Return (Inr None), d1)
      | Refused \<Rightarrow> (Return (Inr (Some (Extern ''550 mailbox unavailable''))), d0)
      | Late \<Rightarrow> (Return (Inl (Sentinel DeadlineExceeded)), d1)
      | Lost_late \<Rightarrow> (Return (Inl (Sentinel DeadlineExceeded)), d0))"

definition desk_transport :: "desk mail_transport" where
  "desk_transport = \<lparr>mt_ctx_err = ret None, mt_race = desk_race\<rparr>"

definition desk_settle :: "settlement \<Rightarrow> (desk, error option) io" where
  "desk_settle x d = (Return None, d\<lparr>dk_settled := dk_settled d @ [x]\<rparr>)"

definition desk_acker :: "desk acker" where
  "desk_acker =
     \<lparr>ak_ack = (\<lambda>msg. desk_settle Acked), ak_nak_with_delay = (\<lambda>msg t. desk_settle (Naked t)),
      ak_term = (\<lambda>msg. desk_settle Termed)\<rparr>"

definition desk_publish :: "string \<Rightarrow> string \<Rightarrow> string option \<Rightarrow> (desk, error option) io" where
  "desk_publish subj data i d =
     (if dk_dlq_up d then desk_settle (Parked data) d
      else (Return (Some (Extern ''nats: no response from stream'')), d))"

definition desk_jetstream :: "desk jetstream" where
  "desk_jetstream =
     \<lparr>js_publish = desk_publish, js_create_stream = (\<lambda>cfg. ret None),
      js_create_or_update_stream = (\<lambda>cfg. ret None)\<rparr>"

definition desk_counter :: "desk counter" where
  "desk_counter subject lbl d = (Return (), d\<lparr>dk_counts := (subject, lbl) # dk_counts d\<rparr>)"

interpretation desk_smtp: smtp_server desk_transport dk_mails
  by unfold_locales
     (auto simp: meets_def desk_transport_def desk_race_def Let_def split: fate.split)

lemma desk_handler_keeps: "keeps dk_settled (new_handler (smtp_send desk_transport cfg) subject data)"
proof -
  have "keeps dk_settled (desk_race x)" for x
    by (auto simp: keeps_def desk_race_def Let_def split: fate.split)
  then show ?thesis
    by (auto simp: new_handler_def smtp_send_def desk_transport_def intro!: frame_rules
        split: sum.split option.split)
qed

interpretation desk_settling: settling desk_jetstream desk_acker desk_counter
  "new_handler (smtp_send desk_transport cfg)" dk_settled for cfg
  by unfold_locales
     (auto simp: meets_def desk_acker_def desk_settle_def desk_jetstream_def desk_publish_def desk_counter_def
        desk_handler_keeps)

definition desk_config :: smtp_config where
  "desk_config = \<lparr>sp_host = ''smtp.example.org'', sp_port = ''587'', sp_username = ''bot@example.org'', sp_password = ''pw''\<rparr>"

definition desk_command :: email_command where
  "desk_command = \<lparr>ec_event_id = ''e1'', ec_recipient = ''ann@example.org'', ec_subject = ''Hi'', ec_html_body = ''<p>v2</p>''\<rparr>"

definition desk_start :: "fate list \<Rightarrow> bool \<Rightarrow> desk" where
  "desk_start fs up = \<lparr>dk_mails = [], dk_settled = [], dk_fates = fs, dk_counts = [], dk_dlq_up = up\<rparr>"

definition desk_delivery :: "string \<Rightarrow> nat \<Rightarrow> delivery" where
  "desk_delivery data n = \<lparr>dl_subject = subject_release, dl_data = data, dl_metadata = Inr n\<rparr>"

section \<open>What goes out\<close>



text \<open>
  C17. Over any SMTP server: the handler reports success only after exactly this mail of exactly
  this message was accepted; a permanent failure is reported exactly for data that does not
  decode or names no recipient, and then nothing was sent; any other error may hide one
  accepted mail.
\<close>

theorem handler_mails_once:
  assumes "smtp_server mt mailbox" and "new_handler (smtp_send mt cfg) subject data w = (r, w')"
  shows "handler_contract cfg data (mailbox w) r (mailbox w')"
  using meetsD [OF smtp_server.handler_meets [OF assms(1)] assms(2)] .

lemma handler_mails_once_witness:
  "fst (new_handler (smtp_send desk_transport desk_config) subject_release (marshal_command desk_command) (desk_start [Late] True)) =
     Return (Some (wrapf ''send email'' (Sentinel DeadlineExceeded))) \<and>
   handler_contract desk_config (marshal_command desk_command) [] (Return (Some (wrapf ''send email'' (Sentinel DeadlineExceeded))))
     (dk_mails (snd (new_handler (smtp_send desk_transport desk_config) subject_release (marshal_command desk_command) (desk_start [Late] True))))"
proof -
  have "valid_command desk_command = desk_command" by code_simp
  then have "fst (new_handler (smtp_send desk_transport desk_config) subject_release (marshal_command desk_command) (desk_start [Late] True)) =
     Return (Some (wrapf ''send email'' (Sentinel DeadlineExceeded)))"
    by (simp add: new_handler_def read_marshal_command smtp_send_def desk_transport_def desk_race_def next_fate_def
        desk_start_def Let_def call_def desk_command_def ret_def)
  with handler_mails_once [OF desk_smtp.smtp_server_axioms prod.collapse [symmetric],
      where cfg = desk_config and subject = subject_release and data = "marshal_command desk_command"
        and w = "desk_start [Late] True"]
  show ?thesis by (simp add: desk_start_def)
qed

text \<open>
  C16. Every message is settled by exactly one call, decided by the result of the handler and
  the number of deliveries: acknowledged on success; terminated on a permanent failure or at the
  last delivery, but only after a copy was stored under the dead-letter subject; otherwise, and
  when the copy could not be stored, given back for another delivery after the backoff.
\<close>

theorem callback_settles_once:
  assumes "settling js ak counter h settled" and "h (dl_subject msg) (dl_data msg) w = (Return herr, w1)"
    and "consume js ak counter max_deliver h msg w = (r, w')"
  shows "r = Return () \<and> (\<exists>xs. settled w' = settled w @ xs \<and>
    (if herr = None then xs = [Acked]
     else if errors_is (the herr) ErrPermanent \<or> max_deliver \<le> num_delivered msg
     then xs \<in> {[Parked (dl_data msg), Termed], [Naked (5 * second)], [Parked (dl_data msg), Naked (5 * second)]}
     else xs = [Naked (5 * second)]))"
  using settling.consume_settles [OF assms]
  by (cases herr; cases "errors_is (the herr) ErrPermanent"; cases "max_deliver \<le> num_delivered msg")
     (simp_all add: settles_def classify_def nak_backoff_def)

lemma callback_settles_once_witness:
  "dk_settled (snd (consume desk_jetstream desk_acker desk_counter 5 (new_handler (smtp_send desk_transport desk_config))
      (desk_delivery ''not json'' 1) (desk_start [] True))) = [Parked ''not json'', Termed] \<and>
   dk_settled (snd (consume desk_jetstream desk_acker desk_counter 5 (new_handler (smtp_send desk_transport desk_config))
      (desk_delivery ''not json'' 1) (desk_start [] False))) = [Naked (5 * second)] \<and>
   (\<exists>xs. dk_settled (snd (consume desk_jetstream desk_acker desk_counter 5 (new_handler (smtp_send desk_transport desk_config))
      (desk_delivery ''not json'' 1) (desk_start [] False))) = [] @ xs \<and>
      xs \<in> {[Parked ''not json'', Termed], [Naked (5 * second)], [Parked ''not json'', Naked (5 * second)]})"
proof -
  let ?h = "new_handler (smtp_send desk_transport desk_config)"
  let ?run = "consume desk_jetstream desk_acker desk_counter 5 ?h (desk_delivery ''not json'' 1)"
  have up: "dk_settled (snd (?run (desk_start [] True))) = [Parked ''not json'', Termed]"
    and down: "dk_settled (snd (?run (desk_start [] False))) = [Naked (5 * second)]"
    by code_simp+
  have "?h subject_release ''not json'' (desk_start [] False) =
      (Return (Some (Errorf [Wrapped (Sentinel ErrPermanent), Lit '': unmarshal email command: '', Wrapped syntax_error])),
       desk_start [] False)"
    by code_simp
  then have h: "?h (dl_subject (desk_delivery ''not json'' 1)) (dl_data (desk_delivery ''not json'' 1)) (desk_start [] False) =
      (Return (Some (Errorf [Wrapped (Sentinel ErrPermanent), Lit '': unmarshal email command: '', Wrapped syntax_error])),
       desk_start [] False)"
    by (simp add: desk_delivery_def)
  from callback_settles_once [OF desk_settling.settling_axioms h prod.collapse [symmetric], of 5] up down
  show ?thesis by (simp add: desk_delivery_def desk_start_def)
qed

text \<open>
  C18. From the composer to the SMTP server: a release announcement that the application
  published is never dead-lettered as malformed, and when the notifier has handled it, exactly
  one more mail was accepted, to the subscriber, with the composed subject and body (bytes that
  are not UTF-8 replaced).
\<close>

theorem announcement_reaches_smtp:
  assumes "smtp_server mt mailbox" and "release_mail tmpl c email repo tag ut cmd" and "email \<noteq> []"
    and "new_handler (smtp_send mt cfg) subject_release (marshal_command cmd) w = (r, w')"
  shows "(\<forall>e. r = Return (Some e) \<longrightarrow> \<not> errors_is e ErrPermanent) \<and>
    (r = Return None \<longrightarrow> (\<exists>msg. compose_release tmpl c email repo tag ut = Inr msg \<and>
       mailbox w' = mailbox w @ [smtp_call_for cfg (to_valid_utf8 email)
         (to_valid_utf8 (ms_subject msg)) (to_valid_utf8 (ms_html_body msg))]))"
proof -
  obtain msg where msg: "compose_release tmpl c email repo tag ut = Inr msg" "cmd = command_of (ec_event_id cmd) msg"
    using assms(2) unfolding release_mail_def by blast
  have to: "ms_to msg = email" using msg(1) by (auto simp: compose_release_def Let_def split: sum.splits)
  have fields: "ec_recipient cmd = email" "ec_subject cmd = ms_subject msg" "ec_html_body cmd = ms_html_body msg"
    by (subst msg(2), simp only: command_of_def email_command.select_convs to)+
  have "to_valid_utf8 email \<noteq> []"
    using assms(3) by (cases email) (auto simp: Let_def replacement_def utf8_def)
  with fields have readable: "readable (marshal_command cmd) x \<longleftrightarrow> x = valid_command cmd" for x
    by (auto simp: readable_def read_marshal_command valid_command_def)
  have call: "command_call cfg (valid_command cmd) = smtp_call_for cfg (to_valid_utf8 email)
         (to_valid_utf8 (ms_subject msg)) (to_valid_utf8 (ms_html_body msg))"
    by (simp add: command_call_def valid_command_def fields)
  have "handler_contract cfg (marshal_command cmd) (mailbox w) r (mailbox w')"
    using meetsD [OF smtp_server.handler_meets [OF assms(1)] assms(4)] .
  then show ?thesis
    using msg(1) unfolding handler_contract_def readable by (auto simp: call)
qed

lemma desk_handler_accepts:
  "readable data cmd \<Longrightarrow> new_handler (smtp_send desk_transport cfg) subject data (desk_start [] up) =
     (Return None, (desk_start [] up)\<lparr>dk_mails := [command_call cfg cmd]\<rparr>)"
  by (simp add: readable_def new_handler_def smtp_send_def desk_transport_def desk_race_def next_fate_def
      desk_start_def Let_def call_def ret_def command_call_def)

lemma announcement_reaches_smtp_witness:
  "\<exists>cmd w'. release_mail (\<lambda>name data. Inr ''<p>v2</p>'') \<lparr>co_base_url = []\<rparr> ''ann@example.org'' ''golang/go'' ''v2'' ''bye'' cmd \<and>
     new_handler (smtp_send desk_transport desk_config) subject_release (marshal_command cmd) (desk_start [] True) = (Return None, w') \<and>
     (\<exists>msg :: message. dk_mails w' = [smtp_call_for desk_config ''ann@example.org'' (to_valid_utf8 (ms_subject msg)) (to_valid_utf8 (ms_html_body msg))])"
proof -
  let ?tmpl = "\<lambda>name data. Inr ''<p>v2</p>''" and ?c = "\<lparr>co_base_url = []\<rparr>"
  obtain msg where msg: "compose_release ?tmpl ?c ''ann@example.org'' ''golang/go'' ''v2'' ''bye'' = Inr msg"
    and to: "ms_to msg = ''ann@example.org''"
    by (simp add: compose_release_def render_email_def Let_def)
  let ?cmd = "command_of ''e1'' msg"
  have mail: "release_mail ?tmpl ?c ''ann@example.org'' ''golang/go'' ''v2'' ''bye'' ?cmd"
    unfolding release_mail_def by (intro exI [of _ msg] conjI msg) (simp add: command_of_def)
  have v: "to_valid_utf8 ''ann@example.org'' = ''ann@example.org''" by code_simp
  have "ec_recipient (valid_command ?cmd) = ''ann@example.org''"
    unfolding valid_command_def command_of_def email_command.select_convs to v ..
  then have "readable (marshal_command ?cmd) (valid_command ?cmd)"
    by (simp add: readable_def read_marshal_command)
  note run = desk_handler_accepts [OF this, where cfg = desk_config and subject = subject_release and up = True]
  have "\<exists>msg :: message. dk_mails ((desk_start [] True)\<lparr>dk_mails := [command_call desk_config (valid_command ?cmd)]\<rparr>) =
      dk_mails (desk_start [] True) @
        [smtp_call_for desk_config (to_valid_utf8 ''ann@example.org'') (to_valid_utf8 (ms_subject msg)) (to_valid_utf8 (ms_html_body msg))]"
    using announcement_reaches_smtp [OF desk_smtp.smtp_server_axioms mail list.distinct(2) run, THEN conjunct2, THEN mp, OF refl]
    by blast
  then have "\<exists>msg :: message. dk_mails ((desk_start [] True)\<lparr>dk_mails := [command_call desk_config (valid_command ?cmd)]\<rparr>) =
      [smtp_call_for desk_config ''ann@example.org'' (to_valid_utf8 (ms_subject msg)) (to_valid_utf8 (ms_html_body msg))]"
    unfolding v by (simp only: desk_start_def desk.select_convs append_Nil)
  with mail run show ?thesis by blast
qed

end
