(* ===== verification/Delivery.thy ===== *)
theory Delivery imports Notifier begin

text \<open>
  The life of one message of the stream: the redelivery of the JetStream consumer that
  \<open>Subscribe\<close> configures (explicit acknowledgement, an ack deadline, at most \<open>MaxDeliver\<close>
  deliveries) together with the callback. Every step is one action of the server or one end of
  a callback; settlements may get lost and the notifier may die.
\<close>

section \<open>States and steps\<close>

datatype ending = Was_acked | Was_terminated

text \<open>
  The deliveries made so far; whether the server waits for a settlement; the deliveries whose
  callback runs; how the server considers the message closed, if it does; the mails accepted and
  the copies under the dead-letter subject.
\<close>

record life =
  lf_deliveries :: nat
  lf_waiting :: bool
  lf_open :: "nat set"
  lf_ended :: "ending option"
  lf_mails :: nat
  lf_parked :: nat


text \<open>What one call of the callback does at the server; \<open>reached\<close>: the settlement arrived.\<close>

definition server_takes :: "bool \<Rightarrow> settlement \<Rightarrow> life \<Rightarrow> life" where
  "server_takes reached x p =
     (case x of
        Parked data \<Rightarrow> p\<lparr>lf_parked := Suc (lf_parked p)\<rparr>
      | Naked t \<Rightarrow> (if reached then p\<lparr>lf_waiting := False\<rparr> else p)
      | Acked \<Rightarrow>
          (if reached \<and> lf_ended p = None then p\<lparr>lf_waiting := False, lf_ended := Some Was_acked\<rparr> else p)
      | Termed \<Rightarrow>
          (if reached \<and> lf_ended p = None then p\<lparr>lf_waiting := False, lf_ended := Some Was_terminated\<rparr> else p))"

text \<open>
  How many mails a handler's result can stand for: one after a success, none after a permanent
  failure, at most one after any other error.
\<close>

definition mails_sent :: "error option \<Rightarrow> nat \<Rightarrow> bool" where
  "mails_sent herr k \<longleftrightarrow>
     (case herr of None \<Rightarrow> k = 1 | Some e \<Rightarrow> if errors_is e ErrPermanent then k = 0 else k \<le> 1)"

inductive life_step :: "nat \<Rightarrow> life \<Rightarrow> life \<Rightarrow> bool" for n where
  deliver: "lf_ended p = None \<Longrightarrow> \<not> lf_waiting p \<Longrightarrow> lf_deliveries p < n \<Longrightarrow>
     life_step n p (p\<lparr>lf_deliveries := Suc (lf_deliveries p), lf_waiting := True,
       lf_open := insert (Suc (lf_deliveries p)) (lf_open p)\<rparr>)"
| expire: "lf_ended p = None \<Longrightarrow> lf_waiting p \<Longrightarrow> life_step n p (p\<lparr>lf_waiting := False\<rparr>)"
| die: "k \<in> lf_open p \<Longrightarrow> sent \<le> 1 \<Longrightarrow>
     life_step n p (p\<lparr>lf_open := lf_open p - {k}, lf_mails := lf_mails p + sent\<rparr>)"
| settle: "k \<in> lf_open p \<Longrightarrow> mails_sent herr sent \<Longrightarrow> settles (classify herr (int k) (int n)) data xs \<Longrightarrow>
     life_step n p (fold (server_takes reached) xs
       (p\<lparr>lf_open := lf_open p - {k}, lf_mails := lf_mails p + sent\<rparr>))"





section \<open>What is kept\<close>










section \<open>When nothing gets lost\<close>

text \<open>The steps of a run in which settlements arrive, the dead-letter stream takes copies and nobody dies.\<close>

inductive healthy_step :: "nat \<Rightarrow> life \<Rightarrow> life \<Rightarrow> bool" for n where
  healthy_deliver: "lf_ended p = None \<Longrightarrow> \<not> lf_waiting p \<Longrightarrow> lf_deliveries p < n \<Longrightarrow>
     healthy_step n p (p\<lparr>lf_deliveries := Suc (lf_deliveries p), lf_waiting := True,
       lf_open := insert (Suc (lf_deliveries p)) (lf_open p)\<rparr>)"
| healthy_settle: "k \<in> lf_open p \<Longrightarrow> mails_sent herr sent \<Longrightarrow> settles (classify herr (int k) (int n)) data xs \<Longrightarrow>
     xs \<in> {[Acked], [Naked nak_backoff], [Parked data, Termed]} \<Longrightarrow>
     (xs = [Naked nak_backoff] \<longrightarrow> classify herr (int k) (int n) = ActionNak) \<Longrightarrow>
     healthy_step n p (fold (server_takes True) xs (p\<lparr>lf_open := lf_open p - {k}, lf_mails := lf_mails p + sent\<rparr>))"

lemma healthy_life: "healthy_step n p q \<Longrightarrow> life_step n p q"
  by (induction rule: healthy_step.induct) (auto intro: life_step.intros)






section \<open>A park that fails at the last delivery\<close>






section \<open>Properties\<close>






end
