(* ===== verification/GoTime.thy ===== *)
theory GoTime imports GoErrors GoStrings GoInt begin

text \<open>
  What the configuration uses of Go's \<open>strconv\<close> and \<open>time\<close>: \<open>Atoi\<close>, \<open>ParseDuration\<close> with its
  floating-point fractions, and \<open>Duration.String\<close>. \<open>strconv.Quote\<close>, which needs the Unicode
  tables of printable characters, is an argument.
\<close>

type_synonym quoter = "string \<Rightarrow> string"

section \<open>strconv.Atoi\<close>

datatype num_error = Syntax | Range

fun scan_uint :: "int \<Rightarrow> string \<Rightarrow> num_error + int" where
  "scan_uint n [] = Inr n"
| "scan_uint n (c # s) =
     (if \<not> is_digit c then Inl Syntax
      else let n' = 10 * n + digit_value c in
           if 2 ^ 64 \<le> n' then Inl Range else scan_uint n' s)"

definition take_sign :: "string \<Rightarrow> bool \<times> string" where
  "take_sign s = (if s \<noteq> [] \<and> (hd s = CHR ''-'' \<or> hd s = CHR ''+'') then (hd s = CHR ''-'', tl s) else (False, s))"

definition scan_int :: "string \<Rightarrow> num_error + int" where
  "scan_int s =
     (let (neg, r) = take_sign s in
      if r = [] then Inl Syntax else
      case scan_uint 0 r of
        Inl e \<Rightarrow> Inl e
      | Inr n \<Rightarrow>
          if \<not> neg \<and> 2 ^ 63 \<le> n then Inl Range
          else if neg \<and> 2 ^ 63 < n then Inl Range
          else Inr (if neg then - n else n))"

definition atoi :: "quoter \<Rightarrow> string \<Rightarrow> error + int" where
  "atoi quote s =
     (case scan_int s of
        Inl e \<Rightarrow> Inl (Extern (''strconv.Atoi: parsing '' @ quote s @ '': '' @
          (case e of Syntax \<Rightarrow> ''invalid syntax'' | Range \<Rightarrow> ''value out of range'')))
      | Inr n \<Rightarrow> Inr n)"

lemma scan_uint_nonneg: "0 \<le> m \<Longrightarrow> scan_uint m s = Inr n \<Longrightarrow> 0 \<le> n"
  by (induction m s rule: scan_uint.induct) (auto simp: Let_def is_digit_def digit_value_def split: if_splits)

lemma scan_int_range: "scan_int s = Inr n \<Longrightarrow> in_int64 n"
  by (auto simp: scan_int_def Let_def in_int64_def min_int64_def max_int64_def
      split: prod.splits if_splits sum.splits dest!: scan_uint_nonneg [rotated])

section \<open>float64\<close>

text \<open>
  A non-negative binary fraction, as numerator and denominator. \<open>fl_round\<close> rounds to 53
  significant bits, ties to even. The exponent is not bounded: the fractions of a duration lose
  all their digits long before a \<open>float64\<close> would overflow or become subnormal.
\<close>

type_synonym fl = "int \<times> int"

function bits :: "int \<Rightarrow> int" where
  "bits n = (if n \<le> 0 then 0 else 1 + bits (n div 2))"
  by pat_completeness auto
termination by (relation "measure nat") auto

declare bits.simps [simp del]

definition half_even :: "int \<Rightarrow> int \<Rightarrow> int" where
  "half_even p q =
     (let m = p div q; r = 2 * (p mod q)
      in if q < r \<or> r = q \<and> odd m then m + 1 else m)"

definition pow2 :: "int \<Rightarrow> int" where
  "pow2 e = 2 ^ nat e"

definition fl_round :: "int \<Rightarrow> int \<Rightarrow> fl" where
  "fl_round p q =
     (let e = bits p - bits q;
          e' = (if q * pow2 e \<le> p * pow2 (- e) then e + 1 else e);
          s = 53 - e'
      in (half_even (p * pow2 s) (q * pow2 (- s)) * pow2 (- s), pow2 s))"

definition fl_of :: "int \<Rightarrow> fl" where
  "fl_of n = fl_round n 1"

definition fl_mult :: "fl \<Rightarrow> fl \<Rightarrow> fl" where
  "fl_mult a b = fl_round (fst a * fst b) (snd a * snd b)"

definition fl_divide :: "fl \<Rightarrow> fl \<Rightarrow> fl" where
  "fl_divide a b = fl_round (fst a * snd b) (snd a * fst b)"

definition fl_trunc :: "fl \<Rightarrow> int" where
  "fl_trunc a = fst a div snd a"

section \<open>time.ParseDuration\<close>

definition unit_map :: "(string \<times> int) list" where
  "unit_map =
     [(''ns'', 1), (''us'', 1000), ([CHR 0xC2, CHR 0xB5, CHR ''s''], 1000),
      ([CHR 0xCE, CHR 0xBC, CHR ''s''], 1000), (''ms'', 1000000), (''s'', 1000000000),
      (''m'', 60000000000), (''h'', 3600000000000)]"

fun leading_int :: "int \<Rightarrow> string \<Rightarrow> (int \<times> string) option" where
  "leading_int x [] = Some (x, [])"
| "leading_int x (c # s) =
     (if \<not> is_digit c then Some (x, c # s)
      else if 2 ^ 63 div 10 < x then None
      else let x' = 10 * x + digit_value c in
           if 2 ^ 63 < x' then None else leading_int x' s)"

fun leading_fraction :: "int \<Rightarrow> fl \<Rightarrow> bool \<Rightarrow> string \<Rightarrow> int \<times> fl \<times> string" where
  "leading_fraction x scale overflow [] = (x, scale, [])"
| "leading_fraction x scale overflow (c # s) =
     (if \<not> is_digit c then (x, scale, c # s)
      else if overflow then leading_fraction x scale overflow s
      else if (2 ^ 63 - 1) div 10 < x then leading_fraction x scale True s
      else let y = 10 * x + digit_value c in
           if 2 ^ 63 < y then leading_fraction x scale True s
           else leading_fraction y (fl_mult scale (10, 1)) overflow s)"

datatype duration_error = Invalid | Missing_unit | Unknown_unit string

text \<open>One number with its unit: the nanoseconds it stands for, and what follows.\<close>

definition parse_fraction :: "string \<Rightarrow> int \<times> fl \<times> bool \<times> string" where
  "parse_fraction s =
     (if s \<noteq> [] \<and> hd s = CHR ''.'' then
        (let (f, scale, r) = leading_fraction 0 (1, 1) False (tl s)
         in (f, scale, length r \<noteq> length (tl s), r))
      else (0, (1, 1), False, s))"

definition unit_char :: "char \<Rightarrow> bool" where
  "unit_char c \<longleftrightarrow> c \<noteq> CHR ''.'' \<and> \<not> is_digit c"

definition parse_term :: "string \<Rightarrow> duration_error + int \<times> string" where
  "parse_term s =
     (if \<not> (hd s = CHR ''.'' \<or> is_digit (hd s)) then Inl Invalid else
      case leading_int 0 s of
        None \<Rightarrow> Inl Invalid
      | Some (v, s1) \<Rightarrow>
        (let (f, scale, post, s2) = parse_fraction s1;
             u = takeWhile unit_char s2; s3 = dropWhile unit_char s2 in
         if length s1 = length s \<and> \<not> post then Inl Invalid
         else if u = [] then Inl Missing_unit
         else case map_of unit_map u of
           None \<Rightarrow> Inl (Unknown_unit u)
         | Some unit \<Rightarrow>
             if 2 ^ 63 div unit < v then Inl Invalid
             else let v1 = v * unit;
                      v2 = (if 0 < f then v1 + fl_trunc (fl_mult (fl_of f) (fl_divide (fl_of unit) scale)) else v1)
                  in if 2 ^ 63 < v2 then Inl Invalid else Inr (v2, s3)))"

lemma leading_int_length: "leading_int x s = Some (v, r) \<Longrightarrow> length r \<le> length s"
  by (induction x s rule: leading_int.induct) (auto simp: Let_def split: if_splits)

lemma leading_fraction_length: "leading_fraction x c b s = (f, c', r) \<Longrightarrow> length r \<le> length s"
  by (induction x c b s rule: leading_fraction.induct) (auto simp: Let_def split: if_splits)

lemma parse_fraction_length: "parse_fraction s = (f, c, p, r) \<Longrightarrow> length r \<le> length s"
  by (auto simp: parse_fraction_def split: if_splits prod.splits dest!: leading_fraction_length)

lemma parse_term_length:
  assumes "parse_term s = Inr (v, r)"
  shows "length r < length s"
proof -
  obtain n s1 where 1: "leading_int 0 s = Some (n, s1)"
    using assms by (auto simp: parse_term_def split: if_splits option.splits)
  obtain f c p s2 where 2: "parse_fraction s1 = (f, c, p, s2)" by (metis prod.exhaust)
  from assms 1 2 have r: "r = dropWhile unit_char s2" and u: "takeWhile unit_char s2 \<noteq> []"
    by (auto simp: parse_term_def Let_def split: if_splits option.splits)
  have "length (takeWhile unit_char s2) + length (dropWhile unit_char s2) = length s2"
    by (metis length_append takeWhile_dropWhile_id)
  with r u have "length r < length s2" by (metis length_greater_0_conv less_add_same_cancel2)
  with leading_int_length [OF 1] parse_fraction_length [OF 2] show ?thesis by simp
qed

lemma parse_term_bound: "parse_term s = Inr (v, r) \<Longrightarrow> v \<le> 2 ^ 63"
  by (auto simp: parse_term_def Let_def split: if_splits option.splits prod.splits)

text \<open>The loop; the sum \<open>d\<close> is a \<open>uint64\<close>.\<close>

function parse_terms :: "int \<Rightarrow> string \<Rightarrow> duration_error + int" where
  "parse_terms d s =
     (if s = [] then Inr d else
      case parse_term s of
        Inl e \<Rightarrow> Inl e
      | Inr (v, r) \<Rightarrow>
          let d' = (d + v) mod 2 ^ 64 in
          if 2 ^ 63 < d' then Inl Invalid else parse_terms d' r)"
  by pat_completeness auto
termination
  by (relation "measure (\<lambda>(d, s). length s)") (auto dest: parse_term_length)

declare parse_terms.simps [simp del]

text \<open>\<open>time.quote\<close>: escapes control characters and whatever is not ASCII byte by byte.\<close>

definition time_quote :: quoter where
  "time_quote s =
     [CHR 34] @ concat (map (\<lambda>c.
        let a = char_code c in
        if 128 \<le> a \<or> a < 32 then CHR 92 # CHR ''x'' # [hex_digit (a div 16), hex_digit (a mod 16)]
        else if c = CHR 34 \<or> c = CHR 92 then [CHR 92, c] else [c]) s) @ [CHR 34]"

definition duration_message :: "string \<Rightarrow> duration_error \<Rightarrow> string" where
  "duration_message orig e =
     (case e of
        Invalid \<Rightarrow> ''time: invalid duration '' @ time_quote orig
      | Missing_unit \<Rightarrow> ''time: missing unit in duration '' @ time_quote orig
      | Unknown_unit u \<Rightarrow> ''time: unknown unit '' @ time_quote u @ '' in duration '' @ time_quote orig)"

definition scan_duration :: "string \<Rightarrow> duration_error + int" where
  "scan_duration s =
     (let (neg, r) = take_sign s in
      if r = ''0'' then Inr 0
      else if r = [] then Inl Invalid
      else case parse_terms 0 r of
        Inl e \<Rightarrow> Inl e
      | Inr d \<Rightarrow>
          if neg then Inr (int64 (- int64 d))
          else if 2 ^ 63 - 1 < d then Inl Invalid
          else Inr (int64 d))"

definition parse_duration :: "string \<Rightarrow> error + int" where
  "parse_duration s =
     (case scan_duration s of Inl e \<Rightarrow> Inl (Extern (duration_message s e)) | Inr d \<Rightarrow> Inr d)"

lemma scan_duration_range: "scan_duration s = Inr d \<Longrightarrow> in_int64 d"
  by (auto simp: scan_duration_def Let_def split: prod.splits if_splits sum.splits)
     (simp add: in_int64_def min_int64_def max_int64_def)

section \<open>time.Duration.String\<close>

definition rstrip_zeros :: "string \<Rightarrow> string" where
  "rstrip_zeros s = rev (dropWhile (\<lambda>c. c = CHR ''0'') (rev s))"

definition frac_text :: "nat \<Rightarrow> int \<Rightarrow> string" where
  "frac_text prec n =
     (if n = 0 then []
      else CHR ''.'' # rstrip_zeros (replicate (prec - length (decimal_int n)) (CHR ''0'') @ decimal_int n))"

definition clock_text :: "int \<Rightarrow> string" where
  "clock_text secs =
     (if secs < 60 then []
      else (if secs < 3600 then [] else decimal_int (secs div 3600) @ ''h'') @ decimal_int (secs div 60 mod 60) @ ''m'')"

definition magnitude_text :: "int \<Rightarrow> string" where
  "magnitude_text u =
     (if u = 0 then ''0s''
      else if u < 1000 then decimal_int u @ ''ns''
      else if u < 1000000 then decimal_int (u div 1000) @ frac_text 3 (u mod 1000) @ [CHR 0xC2, CHR 0xB5, CHR ''s'']
      else if u < 1000000000 then decimal_int (u div 1000000) @ frac_text 6 (u mod 1000000) @ ''ms''
      else clock_text (u div 1000000000) @ decimal_int (u div 1000000000 mod 60) @
        frac_text 9 (u mod 1000000000) @ ''s'')"

definition duration_text :: "int \<Rightarrow> string" where
  "duration_text d = (if d < 0 then CHR ''-'' # magnitude_text (- d) else magnitude_text d)"

text \<open>Durations of the defaults and the examples, as they are written and read.\<close>

lemma duration_samples:
  "scan_duration ''5m'' = Inr (5 * minute)" "scan_duration ''0'' = Inr 0"
  "scan_duration ''-1.5s'' = Inr (- 1500000000)" "scan_duration ''1h0.1s'' = Inr 3600100000000"
  "scan_duration ''10'' = Inl Missing_unit" "scan_duration ''1d'' = Inl (Unknown_unit ''d'')"
  by code_simp+

lemma duration_text_samples:
  "duration_text (5 * minute) = ''5m0s''" "duration_text (-15000000) = ''-15ms''" "duration_text 0 = ''0s''"
  by code_simp+

end
