(* ===== verification/Config.thy ===== *)
theory Config imports GoTime Notifier App begin

text \<open>
  How the two processes are configured: \<open>internal/shared/config\<close>, the \<open>Config\<close> type of every
  package with its \<open>LoadConfig\<close> and \<open>Validate\<close>, the connection strings of Postgres and Redis,
  and \<open>loadCfg\<close> of both \<open>main\<close> packages. The environment and \<open>godotenv\<close> are parameters.
\<close>

section \<open>Reading the environment\<close>

text \<open>\<open>os.Getenv\<close>, where an unset variable is the empty string, and \<open>godotenv.Load\<close>.\<close>

record 'w process =
  ps_getenv :: "string \<Rightarrow> ('w, string) io"
  ps_dotenv :: "string \<Rightarrow> ('w, error option) io"

definition get_env_or_default :: "'w process \<Rightarrow> string \<Rightarrow> string \<Rightarrow> ('w, string) io" where
  "get_env_or_default ps key fallback =
     call (ps_getenv ps key) (\<lambda>v. if v \<noteq> [] then ret v else ret fallback)"

definition bad_setting :: "quoter \<Rightarrow> string \<Rightarrow> string \<Rightarrow> error \<Rightarrow> string" where
  "bad_setting quote key v err =
     ''config: invalid '' @ key @ '' '' @ quote v @ '': '' @ error_text err"

definition get_env_duration :: "quoter \<Rightarrow> 'w process \<Rightarrow> string \<Rightarrow> int \<Rightarrow> ('w, int) io" where
  "get_env_duration quote ps key fallback =
     call (ps_getenv ps key) (\<lambda>v.
       if v = [] then ret fallback
       else case parse_duration v of
         Inl err \<Rightarrow> raise_panic (bad_setting quote key v err)
       | Inr d \<Rightarrow> ret d)"

definition get_env_int :: "quoter \<Rightarrow> 'w process \<Rightarrow> string \<Rightarrow> int \<Rightarrow> ('w, int) io" where
  "get_env_int quote ps key fallback =
     call (ps_getenv ps key) (\<lambda>v.
       if v = [] then ret fallback
       else case atoi quote v of
         Inl err \<Rightarrow> raise_panic (bad_setting quote key v err)
       | Inr n \<Rightarrow> ret n)"

text \<open>\<open>ValidateAll\<close>, given what each \<open>Validate\<close> says; a nil is dropped by \<open>errors.Join\<close>.\<close>

definition validate_all :: "error option list \<Rightarrow> error option" where
  "validate_all vs = errors_join vs"

section \<open>The packages\<close>

subsection \<open>Postgres\<close>

record db_config =
  dbc_url :: string
  dbc_host :: string
  dbc_port :: string
  dbc_user :: string
  dbc_password :: string
  dbc_name :: string
  dbc_sslmode :: string

definition db_validate :: "db_config \<Rightarrow> error option" where
  "db_validate c =
     (if dbc_url c \<noteq> [] then None
      else if dbc_host c = [] \<or> dbc_port c = [] \<or> dbc_user c = [] \<or> dbc_name c = []
      then Some (Extern ''db config: either DATABASE_URL or DB_HOST+DB_PORT+DB_USER+DB_NAME must be set'')
      else None)"

definition db_load :: "'w process \<Rightarrow> ('w, db_config) io" where
  "db_load ps =
     call (get_env_or_default ps ''DATABASE_URL'' []) (\<lambda>url.
     call (get_env_or_default ps ''DB_HOST'' ''localhost'') (\<lambda>host.
     call (get_env_or_default ps ''DB_PORT'' ''5432'') (\<lambda>port.
     call (get_env_or_default ps ''DB_USER'' []) (\<lambda>user.
     call (get_env_or_default ps ''DB_PASSWORD'' []) (\<lambda>password.
     call (get_env_or_default ps ''DB_NAME'' []) (\<lambda>name.
     call (get_env_or_default ps ''DB_SSLMODE'' ''disable'') (\<lambda>sslmode.
     ret \<lparr>dbc_url = url, dbc_host = host, dbc_port = port, dbc_user = user, dbc_password = password,
          dbc_name = name, dbc_sslmode = sslmode\<rparr>)))))))"

definition db_dsn :: "db_config \<Rightarrow> string" where
  "db_dsn c =
     (if dbc_url c \<noteq> [] then dbc_url c
      else ''host='' @ dbc_host c @ '' port='' @ dbc_port c @ '' user='' @ dbc_user c @
        '' password='' @ dbc_password c @ '' dbname='' @ dbc_name c @ '' sslmode='' @ dbc_sslmode c)"

subsection \<open>Redis\<close>

record redis_config =
  rdc_url :: string
  rdc_host :: string
  rdc_port :: string
  rdc_password :: string
  rdc_db :: string

definition redis_validate :: "redis_config \<Rightarrow> error option" where
  "redis_validate c =
     (if rdc_url c \<noteq> [] \<or> rdc_host c = [] then None
      else if rdc_port c = [] then Some (Extern ''cache config: REDIS_PORT required when REDIS_HOST is set'')
      else None)"

definition redis_load :: "'w process \<Rightarrow> ('w, redis_config) io" where
  "redis_load ps =
     call (get_env_or_default ps ''REDIS_URL'' []) (\<lambda>url.
     call (get_env_or_default ps ''REDIS_HOST'' []) (\<lambda>host.
     call (get_env_or_default ps ''REDIS_PORT'' ''6379'') (\<lambda>port.
     call (get_env_or_default ps ''REDIS_PASSWORD'' []) (\<lambda>password.
     call (get_env_or_default ps ''REDIS_DB'' ''0'') (\<lambda>rdb.
     ret \<lparr>rdc_url = url, rdc_host = host, rdc_port = port, rdc_password = password, rdc_db = rdb\<rparr>)))))"

text \<open>
  \<open>net/url\<close>'s escaping, with the bytes each part of a URL may keep; \<open>upper_hex\<close> is its
  table of digits.
\<close>

definition upper_hex :: "nat \<Rightarrow> char" where
  "upper_hex n = (if n < 10 then char_of (48 + n) else char_of (55 + n))"

definition alnum :: "char \<Rightarrow> bool" where
  "alnum c \<longleftrightarrow> (let a = char_code c in 48 \<le> a \<and> a \<le> 57 \<or> 65 \<le> a \<and> a \<le> 90 \<or> 97 \<le> a \<and> a \<le> 122)"

definition url_host_char :: "char \<Rightarrow> bool" where
  "url_host_char c \<longleftrightarrow> alnum c \<or> c \<in> set ''!$&()*+,;=:[]<>-_.~'' \<or> c = CHR 39 \<or> c = CHR 34"

definition url_path_char :: "char \<Rightarrow> bool" where
  "url_path_char c \<longleftrightarrow> alnum c \<or> c \<in> set ''-_.~$&+,/:;=@''"

definition url_userinfo_char :: "char \<Rightarrow> bool" where
  "url_userinfo_char c \<longleftrightarrow> alnum c \<or> c \<in> set ''-_.~$&+,;=''"

definition url_escape :: "(char \<Rightarrow> bool) \<Rightarrow> string \<Rightarrow> string" where
  "url_escape ok s =
     concat (map (\<lambda>c. if ok c then [c]
       else [CHR ''%'', upper_hex (char_code c div 16), upper_hex (char_code c mod 16)]) s)"

text \<open>\<open>url.URL.String\<close> for the fields that are set here; the path begins with a slash.\<close>

definition redis_dsn :: "redis_config \<Rightarrow> string" where
  "redis_dsn c =
     (if rdc_url c \<noteq> [] then rdc_url c
      else if rdc_host c = [] then []
      else ''redis://'' @
        (if rdc_password c \<noteq> [] then '':'' @ url_escape url_userinfo_char (rdc_password c) @ ''@'' else []) @
        url_escape url_host_char (rdc_host c @ '':'' @ rdc_port c) @
        url_escape url_path_char (''/'' @ rdc_db c))"

subsection \<open>GitHub and the scanner\<close>

definition github_load :: "quoter \<Rightarrow> 'w process \<Rightarrow> ('w, github_config) io" where
  "github_load quote ps =
     call (get_env_or_default ps ''GITHUB_TOKEN'' []) (\<lambda>token.
     call (get_env_duration quote ps ''GITHUB_REQUEST_TIMEOUT'' (10 * second)) (\<lambda>timeout.
     ret \<lparr>gc_token = token, gc_request_timeout = timeout\<rparr>))"

definition github_validate :: "github_config \<Rightarrow> error option" where
  "github_validate c =
     (if gc_request_timeout c \<le> 0
      then Some (Extern (''github config: GITHUB_REQUEST_TIMEOUT must be > 0, got '' @
        duration_text (gc_request_timeout c)))
      else None)"

definition scanner_validate :: "scanner_config \<Rightarrow> error option" where
  "scanner_validate c =
     (if sf_interval c < 0
      then Some (Extern (''scanner config: SCAN_INTERVAL must not be negative, got '' @ duration_text (sf_interval c)))
      else if sf_concurrency c < 1
      then Some (Extern (''scanner config: SCAN_CONCURRENCY must be >= 1, got '' @ decimal_int (sf_concurrency c)))
      else None)"

definition scanner_load :: "quoter \<Rightarrow> 'w process \<Rightarrow> ('w, scanner_config) io" where
  "scanner_load quote ps =
     call (get_env_duration quote ps ''SCAN_INTERVAL'' (5 * minute)) (\<lambda>interval.
     call (get_env_int quote ps ''SCAN_CONCURRENCY'' 8) (\<lambda>concurrency.
     ret \<lparr>sf_interval = interval, sf_concurrency = concurrency\<rparr>))"

subsection \<open>Logging\<close>

record log_config =
  lc_level :: string
  lc_format :: string

definition level_debug :: string where "level_debug = ''debug''"
definition level_info :: string where "level_info = ''info''"
definition level_warn :: string where "level_warn = ''warn''"
definition level_error :: string where "level_error = ''error''"
definition format_json :: string where "format_json = ''json''"
definition format_text :: string where "format_text = ''text''"

lemmas log_names = level_debug_def level_info_def level_warn_def level_error_def format_json_def format_text_def

definition log_load :: "(string \<Rightarrow> string) \<Rightarrow> 'w process \<Rightarrow> ('w, log_config) io" where
  "log_load uni ps =
     call (get_env_or_default ps ''LOG_LEVEL'' ''info'') (\<lambda>level.
     call (get_env_or_default ps ''LOG_FORMAT'' ''text'') (\<lambda>format.
     ret \<lparr>lc_level = to_lower uni level, lc_format = to_lower uni format\<rparr>))"

definition log_validate :: "quoter \<Rightarrow> log_config \<Rightarrow> error option" where
  "log_validate quote c =
     (if lc_level c \<notin> set [level_debug, level_info, level_warn, level_error]
      then Some (Extern (''logging: invalid LOG_LEVEL '' @ quote (lc_level c) @ '' (want debug|info|warn|error)''))
      else if lc_format c \<notin> set [format_json, format_text]
      then Some (Extern (''logging: invalid LOG_FORMAT '' @ quote (lc_format c) @ '' (want json|text)''))
      else None)"

text \<open>\<open>slog\<close>'s levels are -4, 0, 4 and 8.\<close>

definition add_source :: "log_config \<Rightarrow> bool" where
  "add_source c \<longleftrightarrow> lc_level c = level_debug"

definition slog_level :: "log_config \<Rightarrow> int" where
  "slog_level c =
     (if lc_level c = level_debug then - 4
      else if lc_level c = level_warn then 4
      else if lc_level c = level_error then 8
      else 0)"

subsection \<open>SMTP\<close>

definition smtp_load :: "'w process \<Rightarrow> ('w, smtp_config) io" where
  "smtp_load ps =
     call (get_env_or_default ps ''SMTP_HOST'' []) (\<lambda>host.
     call (get_env_or_default ps ''SMTP_PORT'' ''587'') (\<lambda>port.
     call (get_env_or_default ps ''SMTP_USERNAME'' []) (\<lambda>username.
     call (get_env_or_default ps ''SMTP_PASSWORD'' []) (\<lambda>password.
     ret \<lparr>sp_host = host, sp_port = port, sp_username = username, sp_password = password\<rparr>))))"

section \<open>The application's settings\<close>

record app_config =
  ac_db :: db_config
  ac_redis :: redis_config
  ac_github :: github_config
  ac_scanner :: scanner_config
  ac_log :: log_config
  ac_port :: string
  ac_read_timeout :: int
  ac_write_timeout :: int
  ac_api_key :: string
  ac_base_url :: string
  ac_nats_url :: string

definition app_validate :: "quoter \<Rightarrow> app_config \<Rightarrow> error option" where
  "app_validate quote c =
     (if dbc_url (ac_db c) = [] \<and> (dbc_user (ac_db c) = [] \<or> dbc_name (ac_db c) = [])
      then Some (Extern (''either DATABASE_URL or DB_USER+DB_NAME (with DB_HOST/DB_PORT/DB_PASSWORD) must be set''))
      else case log_validate quote (ac_log c) of
        Some err \<Rightarrow> Some err
      | None \<Rightarrow> None)"

definition load_dotenv :: "'w process \<Rightarrow> string \<Rightarrow> ('w, error option) io" where
  "load_dotenv ps env_file =
     call (ps_dotenv ps env_file) (\<lambda>r. case r of
       Some err \<Rightarrow> if \<not> errors_is err ErrNotExist then ret (Some (wrapf (''failed to load '' @ env_file) err)) else ret None
     | None \<Rightarrow> ret None)"

definition app_settings :: "quoter \<Rightarrow> 'w process \<Rightarrow> db_config \<Rightarrow> redis_config \<Rightarrow> github_config \<Rightarrow>
    scanner_config \<Rightarrow> log_config \<Rightarrow> ('w, app_config) io" where
  "app_settings quote ps db_cfg redis_cfg github_cfg scanner_cfg log_cfg =
     call (get_env_or_default ps ''PORT'' ''8080'') (\<lambda>port.
     call (get_env_duration quote ps ''READ_TIMEOUT'' (10 * second)) (\<lambda>rt.
     call (get_env_duration quote ps ''WRITE_TIMEOUT'' (10 * second)) (\<lambda>wt.
     call (get_env_or_default ps ''API_KEY'' []) (\<lambda>api_key.
     call (get_env_or_default ps ''BASE_URL'' ''http://localhost:8080'') (\<lambda>base_url.
     call (get_env_or_default ps ''NATS_URL'' ''nats://localhost:4222'') (\<lambda>nats_url.
     ret \<lparr>ac_db = db_cfg, ac_redis = redis_cfg, ac_github = github_cfg, ac_scanner = scanner_cfg,
          ac_log = log_cfg, ac_port = port, ac_read_timeout = rt, ac_write_timeout = wt,
          ac_api_key = api_key, ac_base_url = base_url, ac_nats_url = nats_url\<rparr>))))))"

definition app_load_cfg :: "quoter \<Rightarrow> (string \<Rightarrow> string) \<Rightarrow> 'w process \<Rightarrow> ('w, error + app_config) io" where
  "app_load_cfg quote uni ps =
     call (load_dotenv ps ''.env'') (\<lambda>r. case r of
       Some err \<Rightarrow> ret (Inl err)
     | None \<Rightarrow>
     call (db_load ps) (\<lambda>db_cfg.
     call (redis_load ps) (\<lambda>redis_cfg.
     call (scanner_load quote ps) (\<lambda>scanner_cfg.
     call (github_load quote ps) (\<lambda>github_cfg.
     call (log_load uni ps) (\<lambda>log_cfg.
     case validate_all [db_validate db_cfg, redis_validate redis_cfg, scanner_validate scanner_cfg,
            github_validate github_cfg, log_validate quote log_cfg] of
       Some err \<Rightarrow> ret (Inl err)
     | None \<Rightarrow>
     call (app_settings quote ps db_cfg redis_cfg github_cfg scanner_cfg log_cfg) (\<lambda>cfg.
     case app_validate quote cfg of
       Some err \<Rightarrow> ret (Inl err)
     | None \<Rightarrow> ret (Inr cfg))))))))"

section \<open>The notifier's settings\<close>

record notifier_config =
  nc_smtp :: smtp_config
  nc_log :: log_config
  nc_admin_addr :: string
  nc_nats_url :: string
  nc_max_deliver :: int
  nc_ack_wait :: int

definition notifier_validate :: "notifier_config \<Rightarrow> error option" where
  "notifier_validate c =
     (if nc_nats_url c = [] then Some (Extern ''NATS_URL must be set'')
      else if nc_max_deliver c < 1
      then Some (Extern (''NATS_MAX_DELIVER must be >= 1, got '' @ decimal_int (nc_max_deliver c)))
      else if nc_ack_wait c \<le> 0
      then Some (Extern (''NATS_ACK_WAIT must be > 0, got '' @ duration_text (nc_ack_wait c)))
      else None)"

definition notifier_settings :: "quoter \<Rightarrow> 'w process \<Rightarrow> smtp_config \<Rightarrow> log_config \<Rightarrow> ('w, notifier_config) io" where
  "notifier_settings quote ps smtp_cfg log_cfg =
     call (get_env_or_default ps ''ADMIN_ADDR'' '':9091'') (\<lambda>admin_addr.
     call (get_env_or_default ps ''NATS_URL'' ''nats://localhost:4222'') (\<lambda>nats_url.
     call (get_env_int quote ps ''NATS_MAX_DELIVER'' 5) (\<lambda>max_deliver.
     call (get_env_duration quote ps ''NATS_ACK_WAIT'' (30 * second)) (\<lambda>ack_wait.
     ret \<lparr>nc_smtp = smtp_cfg, nc_log = log_cfg, nc_admin_addr = admin_addr, nc_nats_url = nats_url,
          nc_max_deliver = max_deliver, nc_ack_wait = ack_wait\<rparr>))))"

definition notifier_load_cfg ::
  "quoter \<Rightarrow> (string \<Rightarrow> string) \<Rightarrow> 'w process \<Rightarrow> ('w, error + notifier_config) io" where
  "notifier_load_cfg quote uni ps =
     call (load_dotenv ps ''.env.notifier'') (\<lambda>r. case r of
       Some err \<Rightarrow> ret (Inl err)
     | None \<Rightarrow>
     call (smtp_load ps) (\<lambda>smtp_cfg.
     call (log_load uni ps) (\<lambda>log_cfg.
     case validate_all [smtp_validate smtp_cfg, log_validate quote log_cfg] of
       Some err \<Rightarrow> ret (Inl err)
     | None \<Rightarrow>
     call (notifier_settings quote ps smtp_cfg log_cfg) (\<lambda>cfg.
     case notifier_validate cfg of
       Some err \<Rightarrow> ret (Inl err)
     | None \<Rightarrow> ret (Inr cfg)))))"

section \<open>What the loaders promise\<close>

text \<open>
  The environment of the process. A variable that is set keeps its value when a file is loaded;
  \<open>godotenv\<close> only adds variables that are not set.
\<close>

locale os_process =
  fixes ps :: "'w process" and environ :: "'w \<Rightarrow> (string \<rightharpoonup> string)"
  assumes getenv: "ps_getenv ps key w = (Return (case environ w key of None \<Rightarrow> [] | Some v \<Rightarrow> v), w)"
    and dotenv: "meets environ (ps_dotenv ps env_file) (\<lambda>d r d'. d \<subseteq>\<^sub>m d' \<and> (\<forall>p. r \<noteq> Panic p))"

definition setting :: "(string \<rightharpoonup> string) \<Rightarrow> string \<Rightarrow> string \<Rightarrow> string" where
  "setting d key fallback = (case d key of None \<Rightarrow> fallback | Some v \<Rightarrow> if v = [] then fallback else v)"

text \<open>The value of a duration or a number: the fallback, the text read, or nothing.\<close>

definition read_setting :: "(string \<Rightarrow> error + int) \<Rightarrow> (string \<rightharpoonup> string) \<Rightarrow> string \<Rightarrow> int \<Rightarrow> error + int" where
  "read_setting parse d key fallback =
     (case d key of None \<Rightarrow> Inr fallback | Some v \<Rightarrow> if v = [] then Inr fallback else parse v)"

text \<open>The settings that are only text, as functions of the environment.\<close>

definition db_of :: "(string \<rightharpoonup> string) \<Rightarrow> db_config" where
  "db_of d =
     \<lparr>dbc_url = setting d ''DATABASE_URL'' [], dbc_host = setting d ''DB_HOST'' ''localhost'',
      dbc_port = setting d ''DB_PORT'' ''5432'', dbc_user = setting d ''DB_USER'' [],
      dbc_password = setting d ''DB_PASSWORD'' [], dbc_name = setting d ''DB_NAME'' [],
      dbc_sslmode = setting d ''DB_SSLMODE'' ''disable''\<rparr>"

definition redis_of :: "(string \<rightharpoonup> string) \<Rightarrow> redis_config" where
  "redis_of d =
     \<lparr>rdc_url = setting d ''REDIS_URL'' [], rdc_host = setting d ''REDIS_HOST'' [],
      rdc_port = setting d ''REDIS_PORT'' ''6379'', rdc_password = setting d ''REDIS_PASSWORD'' [],
      rdc_db = setting d ''REDIS_DB'' ''0''\<rparr>"

definition log_of :: "(string \<Rightarrow> string) \<Rightarrow> (string \<rightharpoonup> string) \<Rightarrow> log_config" where
  "log_of uni d =
     \<lparr>lc_level = to_lower uni (setting d ''LOG_LEVEL'' ''info''),
      lc_format = to_lower uni (setting d ''LOG_FORMAT'' ''text'')\<rparr>"

definition smtp_of :: "(string \<rightharpoonup> string) \<Rightarrow> smtp_config" where
  "smtp_of d =
     \<lparr>sp_host = setting d ''SMTP_HOST'' [], sp_port = setting d ''SMTP_PORT'' ''587'',
      sp_username = setting d ''SMTP_USERNAME'' [], sp_password = setting d ''SMTP_PASSWORD'' []\<rparr>"

text \<open>A variable that is set to a text that is no duration, or no number.\<close>

definition bad_duration :: "(string \<rightharpoonup> string) \<Rightarrow> string \<Rightarrow> bool" where
  "bad_duration d key \<longleftrightarrow> (\<exists>v err. d key = Some v \<and> v \<noteq> [] \<and> parse_duration v = Inl err)"

definition bad_int :: "quoter \<Rightarrow> (string \<rightharpoonup> string) \<Rightarrow> string \<Rightarrow> bool" where
  "bad_int quote d key \<longleftrightarrow> (\<exists>v err. d key = Some v \<and> v \<noteq> [] \<and> atoi quote v = Inl err)"

lemma read_setting_bad:
  "read_setting parse_duration d key fallback = Inl err \<Longrightarrow> bad_duration d key"
  "read_setting (atoi quote) d key fallback = Inl err \<Longrightarrow> bad_int quote d key"
  by (auto simp: read_setting_def bad_duration_def bad_int_def split: option.splits if_splits)

lemma read_setting_range:
  "read_setting parse_duration d key fallback = Inr n \<Longrightarrow> in_int64 fallback \<Longrightarrow> in_int64 n"
  by (auto simp: read_setting_def parse_duration_def dest: scan_duration_range split: option.splits if_splits sum.splits)

context os_process
begin

lemma run_get_env [run_simps]: "get_env_or_default ps key fallback w = (Return (setting (environ w) key fallback), w)"
  by (simp add: get_env_or_default_def call_def getenv setting_def split: option.split)

lemma run_get_duration:
  "get_env_duration quote ps key fallback w =
     (case read_setting parse_duration (environ w) key fallback of
        Inr d \<Rightarrow> (Return d, w)
      | Inl err \<Rightarrow> (Panic (bad_setting quote key (setting (environ w) key []) err), w))"
  by (simp add: get_env_duration_def call_def getenv read_setting_def setting_def split: option.split sum.split)

lemma run_get_int:
  "get_env_int quote ps key fallback w =
     (case read_setting (atoi quote) (environ w) key fallback of
        Inr n \<Rightarrow> (Return n, w)
      | Inl err \<Rightarrow> (Panic (bad_setting quote key (setting (environ w) key []) err), w))"
  by (simp add: get_env_int_def call_def getenv read_setting_def setting_def split: option.split sum.split)

lemma run_db_load: "db_load ps w = (Return (db_of (environ w)), w)"
  by (simp add: db_load_def call_def run_get_env db_of_def)

lemma run_redis_load: "redis_load ps w = (Return (redis_of (environ w)), w)"
  by (simp add: redis_load_def call_def run_get_env redis_of_def)

lemma run_log_load: "log_load uni ps w = (Return (log_of uni (environ w)), w)"
  by (simp add: log_load_def call_def run_get_env log_of_def)

lemma run_smtp_load: "smtp_load ps w = (Return (smtp_of (environ w)), w)"
  by (simp add: smtp_load_def call_def run_get_env smtp_of_def)

lemma duration_run:
  obtains (ok) n where "read_setting parse_duration (environ w) key fallback = Inr n"
      "get_env_duration quote ps key fallback w = (Return n, w)"
  | (bad) p where "bad_duration (environ w) key" "get_env_duration quote ps key fallback w = (Panic p, w)"
  by (cases "read_setting parse_duration (environ w) key fallback")
     (simp_all add: run_get_duration read_setting_bad(1))

lemma int_run:
  obtains (ok) n where "read_setting (atoi quote) (environ w) key fallback = Inr n"
      "get_env_int quote ps key fallback w = (Return n, w)"
  | (bad) p where "bad_int quote (environ w) key" "get_env_int quote ps key fallback w = (Panic p, w)"
  by (cases "read_setting (atoi quote) (environ w) key fallback")
     (simp_all add: run_get_int read_setting_bad(2))

lemma scanner_run:
  obtains (ok) c where "read_setting parse_duration (environ w) ''SCAN_INTERVAL'' (5 * minute) = Inr (sf_interval c)"
      "read_setting (atoi quote) (environ w) ''SCAN_CONCURRENCY'' 8 = Inr (sf_concurrency c)"
      "scanner_load quote ps w = (Return c, w)"
  | (bad) p where "bad_duration (environ w) ''SCAN_INTERVAL'' \<or> bad_int quote (environ w) ''SCAN_CONCURRENCY''"
      "scanner_load quote ps w = (Panic p, w)"
proof (cases rule: duration_run [of w "''SCAN_INTERVAL''" "5 * minute" quote])
  case (ok i)
  show ?thesis
  proof (cases rule: int_run [of quote w "''SCAN_CONCURRENCY''" 8])
    case ok': (ok n)
    show ?thesis
      by (rule that(1) [of "\<lparr>sf_interval = i, sf_concurrency = n\<rparr>"])
         (simp_all add: ok ok' scanner_load_def call_def)
  next
    case (bad p)
    show ?thesis by (rule that(2) [of p]) (simp_all add: ok bad scanner_load_def call_def)
  qed
next
  case (bad p)
  show ?thesis by (rule that(2) [of p]) (simp_all add: bad scanner_load_def call_def)
qed

lemma github_run:
  obtains (ok) c where "read_setting parse_duration (environ w) ''GITHUB_REQUEST_TIMEOUT'' (10 * second) = Inr (gc_request_timeout c)"
      "github_load quote ps w = (Return c, w)"
  | (bad) p where "bad_duration (environ w) ''GITHUB_REQUEST_TIMEOUT''" "github_load quote ps w = (Panic p, w)"
proof (cases rule: duration_run [of w "''GITHUB_REQUEST_TIMEOUT''" "10 * second" quote])
  case (ok t)
  show ?thesis
    by (rule that(1) [of "\<lparr>gc_token = setting (environ w) ''GITHUB_TOKEN'' [], gc_request_timeout = t\<rparr>"])
       (simp_all add: ok github_load_def call_def run_get_env)
next
  case (bad p)
  show ?thesis by (rule that(2) [of p]) (simp_all add: bad github_load_def call_def run_get_env)
qed

lemma app_settings_run:
  obtains (ok) cfg where
      "cfg = \<lparr>ac_db = db_cfg, ac_redis = redis_cfg, ac_github = github_cfg, ac_scanner = scanner_cfg, ac_log = log_cfg,
        ac_port = setting (environ w) ''PORT'' ''8080'', ac_read_timeout = ac_read_timeout cfg,
        ac_write_timeout = ac_write_timeout cfg, ac_api_key = setting (environ w) ''API_KEY'' [],
        ac_base_url = setting (environ w) ''BASE_URL'' ''http://localhost:8080'',
        ac_nats_url = setting (environ w) ''NATS_URL'' ''nats://localhost:4222''\<rparr>"
      "read_setting parse_duration (environ w) ''READ_TIMEOUT'' (10 * second) = Inr (ac_read_timeout cfg)"
      "read_setting parse_duration (environ w) ''WRITE_TIMEOUT'' (10 * second) = Inr (ac_write_timeout cfg)"
      "app_settings quote ps db_cfg redis_cfg github_cfg scanner_cfg log_cfg w = (Return cfg, w)"
  | (bad) p where "bad_duration (environ w) ''READ_TIMEOUT'' \<or> bad_duration (environ w) ''WRITE_TIMEOUT''"
      "app_settings quote ps db_cfg redis_cfg github_cfg scanner_cfg log_cfg w = (Panic p, w)"
proof (cases rule: duration_run [of w "''READ_TIMEOUT''" "10 * second" quote])
  case (ok rt)
  show ?thesis
  proof (cases rule: duration_run [of w "''WRITE_TIMEOUT''" "10 * second" quote])
    case ok': (ok wt)
    show ?thesis
      by (rule that(1) [of "\<lparr>ac_db = db_cfg, ac_redis = redis_cfg, ac_github = github_cfg, ac_scanner = scanner_cfg,
            ac_log = log_cfg, ac_port = setting (environ w) ''PORT'' ''8080'', ac_read_timeout = rt,
            ac_write_timeout = wt, ac_api_key = setting (environ w) ''API_KEY'' [],
            ac_base_url = setting (environ w) ''BASE_URL'' ''http://localhost:8080'',
            ac_nats_url = setting (environ w) ''NATS_URL'' ''nats://localhost:4222''\<rparr>"])
         (simp_all add: ok ok' app_settings_def call_def run_get_env)
  next
    case (bad p)
    show ?thesis by (rule that(2) [of p]) (simp_all add: ok bad app_settings_def call_def run_get_env)
  qed
next
  case (bad p)
  show ?thesis by (rule that(2) [of p]) (simp_all add: bad app_settings_def call_def run_get_env)
qed

end

text \<open>
  The numbers of the application's configuration as they were read, what the five \<open>Validate\<close>
  methods say, and the configuration that results.
\<close>

definition app_numbers :: "quoter \<Rightarrow> (string \<rightharpoonup> string) \<Rightarrow> scanner_config \<Rightarrow> github_config \<Rightarrow> bool" where
  "app_numbers quote d sc gc \<longleftrightarrow>
     read_setting parse_duration d ''SCAN_INTERVAL'' (5 * minute) = Inr (sf_interval sc) \<and>
     read_setting (atoi quote) d ''SCAN_CONCURRENCY'' 8 = Inr (sf_concurrency sc) \<and>
     read_setting parse_duration d ''GITHUB_REQUEST_TIMEOUT'' (10 * second) = Inr (gc_request_timeout gc)"

definition app_verdicts ::
  "quoter \<Rightarrow> (string \<Rightarrow> string) \<Rightarrow> (string \<rightharpoonup> string) \<Rightarrow> scanner_config \<Rightarrow> github_config \<Rightarrow> error option list" where
  "app_verdicts quote uni d sc gc =
     [db_validate (db_of d), redis_validate (redis_of d), scanner_validate sc, github_validate gc,
      log_validate quote (log_of uni d)]"

definition app_reads :: "quoter \<Rightarrow> (string \<Rightarrow> string) \<Rightarrow> (string \<rightharpoonup> string) \<Rightarrow> app_config \<Rightarrow> bool" where
  "app_reads quote uni d cfg \<longleftrightarrow>
     ac_db cfg = db_of d \<and> ac_redis cfg = redis_of d \<and> ac_log cfg = log_of uni d \<and>
     app_numbers quote d (ac_scanner cfg) (ac_github cfg) \<and>
     read_setting parse_duration d ''READ_TIMEOUT'' (10 * second) = Inr (ac_read_timeout cfg) \<and>
     read_setting parse_duration d ''WRITE_TIMEOUT'' (10 * second) = Inr (ac_write_timeout cfg) \<and>
     ac_port cfg = setting d ''PORT'' ''8080'' \<and> ac_api_key cfg = setting d ''API_KEY'' [] \<and>
     ac_base_url cfg = setting d ''BASE_URL'' ''http://localhost:8080'' \<and>
     ac_nats_url cfg = setting d ''NATS_URL'' ''nats://localhost:4222''"

definition app_bad_number :: "quoter \<Rightarrow> (string \<rightharpoonup> string) \<Rightarrow> bool" where
  "app_bad_number quote d \<longleftrightarrow>
     bad_duration d ''SCAN_INTERVAL'' \<or> bad_int quote d ''SCAN_CONCURRENCY'' \<or>
     bad_duration d ''GITHUB_REQUEST_TIMEOUT'' \<or> bad_duration d ''READ_TIMEOUT'' \<or> bad_duration d ''WRITE_TIMEOUT''"

text \<open>The check at the end of \<open>loadCfg\<close> can no longer fail: \<open>ValidateAll\<close> has said the same before.\<close>

lemma app_validate_redundant:
  "validate_all (app_verdicts quote uni d sc gc) = None \<Longrightarrow> ac_db cfg = db_of d \<Longrightarrow> ac_log cfg = log_of uni d \<Longrightarrow>
   app_validate quote cfg = None"
  by (auto simp: validate_all_def app_verdicts_def app_validate_def db_validate_def split: if_splits)

context os_process
begin

lemma dotenv_run:
  obtains (ok) w1 where "environ w \<subseteq>\<^sub>m environ w1" "load_dotenv ps env_file w = (Return None, w1)"
  | (bad) err w1 where "environ w \<subseteq>\<^sub>m environ w1" "\<not> errors_is err ErrNotExist"
      "load_dotenv ps env_file w = (Return (Some (wrapf (''failed to load '' @ env_file) err)), w1)"
proof -
  obtain r w1 where run: "ps_dotenv ps env_file w = (r, w1)" by fastforce
  with meetsD [OF dotenv run] obtain x where r: "r = Return x" and le: "environ w \<subseteq>\<^sub>m environ w1"
    by (cases r) auto
  show ?thesis
  proof (cases x)
    case None
    with run r le show ?thesis by (intro ok) (simp_all add: load_dotenv_def call_def)
  next
    case (Some err)
    with run r le show ?thesis
      by (cases "errors_is err ErrNotExist") (auto simp: load_dotenv_def call_def intro: ok bad)
  qed
qed

lemma app_load_run:
  obtains (dotenv) err w' where "app_load_cfg quote uni ps w = (Return (Inl (wrapf ''failed to load .env'' err)), w')"
      "environ w \<subseteq>\<^sub>m environ w'" "\<not> errors_is err ErrNotExist"
  | (number) p w' where "app_load_cfg quote uni ps w = (Panic p, w')" "environ w \<subseteq>\<^sub>m environ w'"
      "app_bad_number quote (environ w')"
  | (invalid) sc gc e w' where "app_load_cfg quote uni ps w = (Return (Inl e), w')" "environ w \<subseteq>\<^sub>m environ w'"
      "app_numbers quote (environ w') sc gc" "validate_all (app_verdicts quote uni (environ w') sc gc) = Some e"
  | (ok) cfg w' where "app_load_cfg quote uni ps w = (Return (Inr cfg), w')" "environ w \<subseteq>\<^sub>m environ w'"
      "app_reads quote uni (environ w') cfg"
      "validate_all (app_verdicts quote uni (environ w') (ac_scanner cfg) (ac_github cfg)) = None"
proof (cases rule: dotenv_run [of w "''.env''"])
  case (bad err w1)
  then show ?thesis by (intro dotenv [of err w1]) (simp_all add: app_load_cfg_def call_def)
next
  case (ok w1)
  note start = ok
  show ?thesis
  proof (cases rule: scanner_run [of w1 quote])
    case (bad p)
    with start show ?thesis
      by (intro number [of p w1])
         (auto simp: app_load_cfg_def call_def run_db_load run_redis_load app_bad_number_def)
  next
    case sc: (ok sc)
    show ?thesis
    proof (cases rule: github_run [of w1 quote])
      case (bad p)
      with start sc show ?thesis
        by (intro number [of p w1])
           (auto simp: app_load_cfg_def call_def run_db_load run_redis_load app_bad_number_def)
    next
      case gc: (ok gc)
      have nums: "app_numbers quote (environ w1) sc gc" using sc gc by (simp add: app_numbers_def)
      note front = app_load_cfg_def call_def start sc gc run_db_load run_redis_load run_log_load
        app_verdicts_def [symmetric]
      show ?thesis
      proof (cases "validate_all (app_verdicts quote uni (environ w1) sc gc)")
        case (Some e)
        with start(1) nums show ?thesis
          by (intro invalid [of e w1 sc gc]) (simp_all add: front)
      next
        case None
        show ?thesis
        proof (cases rule: app_settings_run [of "db_of (environ w1)" "redis_of (environ w1)" gc sc
              "log_of uni (environ w1)" w1 quote])
          case (bad p)
          with None start(1) show ?thesis
            by (intro number [of p w1]) (auto simp: front app_bad_number_def)
        next
          case (ok cfg)
          have "app_validate quote cfg = None"
            by (rule app_validate_redundant [OF None]; subst ok(1)) simp_all
          with None start(1) ok(4) have "app_load_cfg quote uni ps w = (Return (Inr cfg), w1)"
            by (simp add: front)
          moreover have "ac_scanner cfg = sc" "ac_github cfg = gc" "app_reads quote uni (environ w1) cfg"
            using ok(2,3) nums unfolding app_reads_def by (subst ok(1), simp)+
          ultimately show ?thesis using start(1) None by (intro that(4) [of cfg w1]) (simp_all only: simp_thms)
        qed
      qed
    qed
  qed
qed

end

section \<open>A process in memory\<close>

text \<open>An environment and one file; \<open>godotenv\<close> adds what the environment does not have.\<close>

definition mem_process :: "(string \<rightharpoonup> string) \<Rightarrow> (string \<rightharpoonup> string) process" where
  "mem_process dotfile =
     \<lparr>ps_getenv = (\<lambda>key d. (Return (case d key of None \<Rightarrow> [] | Some v \<Rightarrow> v), d)),
      ps_dotenv = (\<lambda>env_file d. (Return None, dotfile ++ d))\<rparr>"

interpretation mem: os_process "mem_process dotfile" id
  by unfold_locales (auto simp: mem_process_def meets_def map_le_def)

definition demo_environment :: "string \<rightharpoonup> string" where
  "demo_environment = [''DB_USER'' \<mapsto> ''app'', ''DB_NAME'' \<mapsto> ''releases'', ''SCAN_INTERVAL'' \<mapsto> ''0'']"

definition demo_dotenv :: "string \<rightharpoonup> string" where
  "demo_dotenv = [''SCAN_INTERVAL'' \<mapsto> ''1m'', ''LOG_LEVEL'' \<mapsto> ''WARN'']"

definition demo_settings :: "(error + app_config) outcome" where
  "demo_settings = fst (app_load_cfg id id (mem_process demo_dotenv) demo_environment)"

section \<open>What a loaded configuration is\<close>

text \<open>The readings of a configuration as the rest of the program needs them.\<close>

definition app_usable :: "app_config \<Rightarrow> bool" where
  "app_usable cfg \<longleftrightarrow>
     (dbc_url (ac_db cfg) \<noteq> [] \<or>
        dbc_host (ac_db cfg) \<noteq> [] \<and> dbc_port (ac_db cfg) \<noteq> [] \<and> dbc_user (ac_db cfg) \<noteq> [] \<and> dbc_name (ac_db cfg) \<noteq> []) \<and>
     (rdc_url (ac_redis cfg) \<noteq> [] \<or> rdc_host (ac_redis cfg) = [] \<or> rdc_port (ac_redis cfg) \<noteq> []) \<and>
     0 \<le> sf_interval (ac_scanner cfg) \<and> sf_interval (ac_scanner cfg) \<le> max_int64 \<and>
     1 \<le> sf_concurrency (ac_scanner cfg) \<and> 0 < gc_request_timeout (ac_github cfg) \<and>
     lc_level (ac_log cfg) \<in> {''debug'', ''info'', ''warn'', ''error''} \<and> lc_format (ac_log cfg) \<in> {''json'', ''text''}"

lemma validate_all_None: "validate_all vs = None \<longleftrightarrow> (\<forall>v \<in> set vs. v = None)"
  by (simp add: validate_all_def)

lemma validate_all_Some:
  assumes "validate_all vs = Some e"
  shows "e = Joined (List.map_filter id vs)" and "\<exists>err. Some err \<in> set vs"
proof -
  show "e = Joined (List.map_filter id vs)"
    using assms by (auto simp: validate_all_def errors_join_def Let_def split: if_splits)
  show "\<exists>err. Some err \<in> set vs"
    using assms validate_all_None [of vs] by (cases "\<forall>v \<in> set vs. v = None") auto
qed

lemma verdicts_usable:
  assumes "app_reads quote uni d cfg"
    and "validate_all (app_verdicts quote uni d (ac_scanner cfg) (ac_github cfg)) = None"
  shows "app_usable cfg"
proof -
  have v: "db_validate (ac_db cfg) = None" "redis_validate (ac_redis cfg) = None"
      "scanner_validate (ac_scanner cfg) = None" "github_validate (ac_github cfg) = None"
      "log_validate quote (ac_log cfg) = None"
    using assms by (simp_all add: app_reads_def validate_all_None app_verdicts_def)
  have "in_int64 (sf_interval (ac_scanner cfg))"
    by (rule read_setting_range [where d = d and key = "''SCAN_INTERVAL''" and fallback = "5 * minute"])
       (use assms(1) in \<open>simp_all add: app_reads_def app_numbers_def in_int64_def min_int64_def max_int64_def minute_def\<close>)
  with v show ?thesis
    unfolding app_usable_def
    by (simp add: db_validate_def redis_validate_def scanner_validate_def github_validate_def
        log_validate_def log_names in_int64_def split: if_splits)
qed

end
