(* ===== verification/Settings.thy ===== *)
theory Settings imports Config Simulator begin

text \<open>
  What \<open>loadCfg\<close> of \<open>cmd/app\<close> guarantees, how it fails, and two settings that pass its checks and
  still do harm: a scan interval that is zero or too long, and a database password with a space
  in it.
\<close>

section \<open>A sample environment\<close>

text \<open>The file sets the interval and the level; the environment has its own interval, which wins.\<close>

definition demo_after :: "string \<rightharpoonup> string" where
  "demo_after = snd (app_load_cfg id id (mem_process demo_dotenv) demo_environment)"

definition sample_of :: "(error + app_config) outcome \<Rightarrow> bool" where
  "sample_of r \<longleftrightarrow>
     (case r of
        Return (Inr cfg) \<Rightarrow>
          sf_interval (ac_scanner cfg) = 0 \<and> sf_concurrency (ac_scanner cfg) = 8 \<and> lc_level (ac_log cfg) = ''warn''
      | _ \<Rightarrow> False)"

lemma demo_sample: "sample_of demo_settings" "demo_after ''SCAN_INTERVAL'' = Some ''0''" "demo_after ''LOG_LEVEL'' = Some ''WARN''"
  by code_simp+

lemma demo_loaded:
  obtains cfg where "app_load_cfg id id (mem_process demo_dotenv) demo_environment = (Return (Inr cfg), demo_after)"
    "sf_interval (ac_scanner cfg) = 0" "sf_concurrency (ac_scanner cfg) = 8" "lc_level (ac_log cfg) = ''warn''"
proof -
  let ?r = "app_load_cfg id id (mem_process demo_dotenv) demo_environment"
  obtain cfg where "fst ?r = Return (Inr cfg)" and s: "sf_interval (ac_scanner cfg) = 0"
    "sf_concurrency (ac_scanner cfg) = 8" "lc_level (ac_log cfg) = ''warn''"
    using demo_sample(1) by (auto simp: sample_of_def demo_settings_def split: outcome.splits sum.splits)
  then have "?r = (Return (Inr cfg), demo_after)" unfolding demo_after_def by (metis prod.collapse)
  then show ?thesis using s by (rule that)
qed

section \<open>Loading\<close>



text \<open>
  C34. When \<open>loadCfg\<close> does not succeed, the reason is one of three, and it names it: \<open>.env\<close> is
  there and cannot be read; a variable that holds a number or a duration cannot be parsed, which
  panics; or a \<open>Validate\<close> failed, and then the error joins all the failures of the five packages,
  not only the first.
\<close>

theorem settings_faults_are_reported:
  assumes "os_process ps environ" and "app_load_cfg quote uni ps w = (r, w')"
  shows "case r of
      Panic p \<Rightarrow> app_bad_number quote (environ w')
    | Return (Inl e) \<Rightarrow>
        (\<exists>err. e = wrapf ''failed to load .env'' err \<and> \<not> errors_is err ErrNotExist) \<or>
        (\<exists>sc gc. app_numbers quote (environ w') sc gc \<and>
           e = Joined (List.map_filter id (app_verdicts quote uni (environ w') sc gc)) \<and>
           (\<exists>err. Some err \<in> set (app_verdicts quote uni (environ w') sc gc)))
    | Return (Inr cfg) \<Rightarrow> \<not> (\<exists>err. Some err \<in> set (app_verdicts quote uni (environ w') (ac_scanner cfg) (ac_github cfg)))"
proof (rule os_process.app_load_run [OF assms(1), of quote uni w])
  fix sc gc e w1
  assume "app_load_cfg quote uni ps w = (Return (Inl e), w1)" "app_numbers quote (environ w1) sc gc"
    "validate_all (app_verdicts quote uni (environ w1) sc gc) = Some e"
  with validate_all_Some [of "app_verdicts quote uni (environ w1) sc gc" e] assms(2) show ?thesis by auto
qed (use assms(2) in \<open>auto simp: validate_all_None\<close>)

text \<open>No database and no worker: the error names both.\<close>

definition faulty_environment :: "string \<rightharpoonup> string" where
  "faulty_environment = [''SCAN_CONCURRENCY'' \<mapsto> ''0'']"

lemma settings_faults_are_reported_witness:
  "\<exists>e. fst (app_load_cfg id id (mem_process Map.empty) faulty_environment) = Return (Inl (Joined e)) \<and> length e = 2"
proof -
  let ?load = "app_load_cfg id id (mem_process Map.empty) faulty_environment"
  have "case fst ?load of Return (Inl (Joined e)) \<Rightarrow> length e = 2 | _ \<Rightarrow> False" by code_simp
  with settings_faults_are_reported [OF mem.os_process_axioms [of Map.empty] prod.collapse [symmetric],
      where quote = id and uni = id and w = faulty_environment]
  show ?thesis by (auto split: outcome.splits sum.splits error.splits)
qed

section \<open>Settings that pass and do harm\<close>

lemma wrapped_window:
  assumes "max_int64 div 3 < i" and "i \<le> 2 * max_int64 div 3"
  shows "dedup_window i < 0"
proof -
  have "(3 * i + 2 ^ 63) mod 2 ^ 64 = 3 * i + 2 ^ 63 - 2 ^ 64"
    using mod_pos_pos_trivial [of "3 * i + 2 ^ 63 - 2 ^ 64" "2 ^ 64"] assms
      mod_add_self2 [of "3 * i + 2 ^ 63 - 2 ^ 64" "2 ^ 64"]
    by (simp add: max_int64_def add.commute)
  then have "dedup_window i = 3 * i - 2 ^ 64" by (simp add: dedup_window_def int64_def)
  then show ?thesis using assms(2) by (simp add: max_int64_def)
qed

text \<open>
  C35. The deduplication window that \<open>run\<close> gives to the stream is meant to be three scan
  intervals. It is, for every interval that is set and at most a third of what a \<open>Duration\<close>
  holds. An interval of zero passes the checks: the scanner then replaces it by five minutes,
  but the window has already been computed from the zero, which leaves the server's default. And
  for a longer interval (97 years) the product wraps around to a negative window.
\<close>

theorem window_of_settings:
  assumes "os_process ps environ" and "app_load_cfg quote uni ps w = (Return (Inr cfg), w')"
  shows "let i = sf_interval (ac_scanner cfg);
             every = sf_interval (sc_cfg (app_scanner P base_url gh (ac_scanner cfg))) in
    0 \<le> i \<and>
    (0 < i \<and> i \<le> max_int64 div 3 \<longrightarrow> dedup_window i = 3 * every) \<and>
    (i = 0 \<longrightarrow> dedup_window i = 0 \<and> every = 5 * minute) \<and>
    (max_int64 div 3 < i \<and> i \<le> 2 * max_int64 div 3 \<longrightarrow> dedup_window i < 0)"
proof -
  let ?i = "sf_interval (ac_scanner cfg)"
  have range: "0 \<le> ?i"
    by (rule os_process.app_load_run [OF assms(1), of quote uni w])
       (use assms(2) in \<open>auto dest!: verdicts_usable simp: app_usable_def\<close>)
  have "sf_interval (sc_cfg (app_scanner P base_url gh (ac_scanner cfg))) = (if ?i \<le> 0 then 5 * minute else ?i)"
    by (simp add: app_scanner_def new_scanner_def with_defaults_def Let_def)
  moreover have "dedup_window ?i = 3 * ?i" if "?i \<le> max_int64 div 3"
    using that range by (simp add: dedup_window_def in_int64_def min_int64_def max_int64_def)
  moreover have "dedup_window 0 = 0" by (simp add: dedup_window_def int64_def)
  ultimately show ?thesis using range wrapped_window [of ?i] by (simp add: Let_def)
qed

lemma window_of_settings_witness:
  "\<exists>cfg. demo_settings = Return (Inr cfg) \<and> dedup_window (sf_interval (ac_scanner cfg)) = 0 \<and>
     sf_interval (sc_cfg (app_scanner sim_platform demo_url demo_client (ac_scanner cfg))) = 5 * minute"
proof -
  obtain cfg where run: "app_load_cfg id id (mem_process demo_dotenv) demo_environment = (Return (Inr cfg), demo_after)"
    and zero: "sf_interval (ac_scanner cfg) = 0"
    by (rule demo_loaded)
  from window_of_settings [OF mem.os_process_axioms run, where P = sim_platform and base_url = demo_url and gh = demo_client] zero run
  show ?thesis by (simp add: demo_settings_def)
qed


end
