(* ===== verification/Logging.thy ===== *)
theory Logging imports Config begin

text \<open>
  \<open>internal/shared/observability/logging\<close>: the text handler with its colours and error chains, the
  handler that adds the request id of the context, and \<open>NewLogger\<close>. \<open>slog\<close>'s JSON handler, the
  writer and the stack frames are parameters.
\<close>

section \<open>Records and attributes\<close>

text \<open>
  A \<open>slog.Value\<close>: an error, nil, any other value by the text that \<open>%v\<close> prints of it, or a
  \<open>LogValuer\<close> with the value it stands for.
\<close>

datatype log_value = Plain string | Failure error | Null | Valuer log_value



type_synonym attr = "string \<times> log_value"

record civil_time =
  ct_year :: nat
  ct_month :: nat
  ct_day :: nat
  ct_hour :: nat
  ct_minute :: nat
  ct_second :: nat

text \<open>A record with its frame: the file and line its program counter stands for, if it has one.\<close>

record log_record =
  lr_time :: civil_time
  lr_level :: int
  lr_message :: string
  lr_attrs :: "attr list"
  lr_frame :: "(string \<times> nat) option"

definition pad_zeros :: "nat \<Rightarrow> nat \<Rightarrow> string" where
  "pad_zeros width n = replicate (width - length (decimal n)) (CHR ''0'') @ decimal n"

definition log_time :: "civil_time \<Rightarrow> string" where
  \<comment> \<open>the layout \<open>2006/01/02 - 15:04:05\<close>\<close>
  "log_time t =
     pad_zeros 4 (ct_year t) @ ''/'' @ pad_zeros 2 (ct_month t) @ ''/'' @ pad_zeros 2 (ct_day t) @ '' - '' @
     pad_zeros 2 (ct_hour t) @ '':'' @ pad_zeros 2 (ct_minute t) @ '':'' @ pad_zeros 2 (ct_second t)"

section \<open>Colours\<close>

definition ansi :: "string \<Rightarrow> string" where
  "ansi code = CHR 27 # CHR 91 # code @ ''m''"

definition color_red :: string where "color_red = ansi ''31''"
definition color_green :: string where "color_green = ansi ''32''"
definition color_yellow :: string where "color_yellow = ansi ''33''"
definition color_gray :: string where "color_gray = ansi ''90''"

text \<open>What \<open>shouldColor\<close> asks of the writer: whether it is a file, and what \<open>Stat\<close> says of its mode.\<close>

datatype writer_kind = Plain_writer | File_writer "error + bool"

definition should_color :: "(string \<Rightarrow> bool) \<Rightarrow> writer_kind \<Rightarrow> bool" where
  "should_color is_set w =
     (if is_set ''NO_COLOR'' then False
      else if is_set ''FORCE_COLOR'' then True
      else case w of
        Plain_writer \<Rightarrow> False
      | File_writer (Inl err) \<Rightarrow> False
      | File_writer (Inr char_device) \<Rightarrow> char_device)"


definition level_meta :: "int \<Rightarrow> string \<times> string" where
  "level_meta l =
     (if l = - 4 then (''DEBUG'', color_gray)
      else if l = 4 then (''WARN'', color_yellow)
      else if l = 8 then (''ERROR'', color_red)
      else (''INFO'', color_green))"

section \<open>The text handler\<close>

record text_handler =
  th_level :: int
  th_add_source :: bool
  th_color :: bool
  th_attrs :: "attr list"

record handler_options =
  ho_level :: "int option"
  ho_add_source :: bool

definition new_text_handler :: "(string \<Rightarrow> bool) \<Rightarrow> writer_kind \<Rightarrow> handler_options option \<Rightarrow> text_handler" where
  "new_text_handler is_set w opts =
     \<lparr>th_level = (case opts of None \<Rightarrow> 0 | Some o1 \<Rightarrow> case ho_level o1 of None \<Rightarrow> 0 | Some l \<Rightarrow> l),
      th_add_source = (case opts of None \<Rightarrow> False | Some o1 \<Rightarrow> ho_add_source o1),
      th_color = should_color is_set w, th_attrs = []\<rparr>"

definition text_enabled :: "text_handler \<Rightarrow> int \<Rightarrow> bool" where
  "text_enabled h lvl \<longleftrightarrow> th_level h \<le> lvl"







definition pad_right :: "nat \<Rightarrow> string \<Rightarrow> string" where
  "pad_right width s = s @ replicate (width - length s) CHR '' ''"



definition text_with_attrs :: "attr list \<Rightarrow> text_handler \<Rightarrow> text_handler" where
  "text_with_attrs attrs h = (if attrs = [] then h else h\<lparr>th_attrs := th_attrs h @ attrs\<rparr>)"

definition text_with_group :: "string \<Rightarrow> text_handler \<Rightarrow> text_handler" where
  "text_with_group name h = h"

section \<open>The request id\<close>

text \<open>A context as the values put into it, the latest first.\<close>

datatype ctx_key = Request_id_key | Other_key string
datatype ctx_value = Ctx_string string | Ctx_other




section \<open>Loggers\<close>

text \<open>
  The handlers \<open>NewLogger\<close> builds; the JSON handler is \<open>slog\<close>'s own, so its states \<open>'j\<close> and
  operations are parameters.
\<close>

datatype 'j log_handler = Text text_handler | Json 'j | Contextual "'j log_handler"

record ('j, 'w) json_ops =
  jo_new :: "handler_options \<Rightarrow> 'j"
  jo_enabled :: "'j \<Rightarrow> int \<Rightarrow> bool"
  jo_handle :: "'j \<Rightarrow> log_record \<Rightarrow> ('w, error option) io"
  jo_with_attrs :: "attr list \<Rightarrow> 'j \<Rightarrow> 'j"
  jo_with_group :: "string \<Rightarrow> 'j \<Rightarrow> 'j"

primrec log_enabled :: "('j, 'w) json_ops \<Rightarrow> 'j log_handler \<Rightarrow> int \<Rightarrow> bool" where
  "log_enabled js (Text h) lvl = text_enabled h lvl"
| "log_enabled js (Json j) lvl = jo_enabled js j lvl"
| "log_enabled js (Contextual h) lvl = log_enabled js h lvl"


primrec log_with_attrs :: "('j, 'w) json_ops \<Rightarrow> attr list \<Rightarrow> 'j log_handler \<Rightarrow> 'j log_handler" where
  "log_with_attrs js as (Text h) = Text (text_with_attrs as h)"
| "log_with_attrs js as (Json j) = Json (jo_with_attrs js as j)"
| "log_with_attrs js as (Contextual h) = Contextual (log_with_attrs js as h)"

primrec log_with_group :: "('j, 'w) json_ops \<Rightarrow> string \<Rightarrow> 'j log_handler \<Rightarrow> 'j log_handler" where
  "log_with_group js name (Text h) = Text (text_with_group name h)"
| "log_with_group js name (Json j) = Json (jo_with_group js name j)"
| "log_with_group js name (Contextual h) = Contextual (log_with_group js name h)"

definition new_logger ::
  "(string \<Rightarrow> bool) \<Rightarrow> writer_kind \<Rightarrow> ('j, 'w) json_ops \<Rightarrow> log_config \<Rightarrow> 'j log_handler" where
  "new_logger is_set w js cfg =
     (let opts = \<lparr>ho_level = Some (slog_level cfg), ho_add_source = add_source cfg\<rparr> in
      Contextual (if lc_format cfg = format_text then Text (new_text_handler is_set w (Some opts))
        else Json (jo_new js opts)))"

section \<open>Entries as lines\<close>

definition no_newline :: "string \<Rightarrow> bool" where
  "no_newline s \<longleftrightarrow> CHR 10 \<notin> set s"

fun lines_of :: "string \<Rightarrow> string list" where
  "lines_of [] = [[]]"
| "lines_of (c # s) =
     (if c = CHR 10 then [] # lines_of s else (c # hd (lines_of s)) # tl (lines_of s))"

lemma lines_of_nonempty [simp]: "lines_of s \<noteq> []"
  by (cases s) auto



lemma no_newline_append [simp]: "no_newline (a @ b) \<longleftrightarrow> no_newline a \<and> no_newline b"
  by (auto simp: no_newline_def)

lemma no_newline_concat [simp]: "no_newline (concat xs) \<longleftrightarrow> (\<forall>x \<in> set xs. no_newline x)"
  by (auto simp: no_newline_def)

lemma no_newline_Cons [simp]: "no_newline (c # s) \<longleftrightarrow> c \<noteq> CHR 10 \<and> no_newline s"
  by (auto simp: no_newline_def)

lemma no_newline_Nil [simp]: "no_newline []"
  by (simp add: no_newline_def)

lemma no_newline_replicate [simp]: "c \<noteq> CHR 10 \<Longrightarrow> no_newline (replicate n c)"
  by (auto simp: no_newline_def)

lemma digit_char_newline: "d < 10 \<Longrightarrow> digit_char d \<noteq> CHR 10"
proof
  assume "d < 10" and "digit_char d = CHR 10"
  then have "(of_char (digit_char d) :: nat) = of_char (CHR 10)" by simp
  with \<open>d < 10\<close> show False by (simp add: digit_char_def)
qed

lemma no_newline_decimal [simp]: "no_newline (decimal n)"
proof (induction n rule: decimal.induct)
  case (1 n)
  then show ?case by (subst decimal.simps) (auto simp: digit_char_newline)
qed

lemma no_newline_time [simp]: "no_newline (log_time t)"
  by (simp add: log_time_def pad_zeros_def)

lemma no_newline_label [simp]: "no_newline (pad_right 5 (fst (level_meta l)))"
  by (simp add: level_meta_def pad_right_def)










section \<open>What a reader of the log may rely on\<close>





end
