(* ===== verification/Startup.thy ===== *)
theory Startup imports Settings Logging ScanLoop Api begin

text \<open>
  How the two processes come up and go down: \<open>internal/shared/natsbus\<close>, \<open>NewPostgres\<close> and \<open>Migrate\<close>
  of \<open>internal/app/db\<close>, \<open>cache.NewRedis\<close>, and \<open>run\<close> and \<open>main\<close> of \<open>cmd/app\<close> and \<open>cmd/notifier\<close>.
  What these functions call outside the repository is a record of functions, the host.
\<close>

section \<open>NATS\<close>

text \<open>\<open>nats.Connect\<close> with its reconnect options, \<open>jetstream.New\<close>, \<open>Close\<close> and \<open>Drain\<close> of a connection.\<close>

record ('w, 'n) nats_client =
  nt_connect :: "string \<Rightarrow> ('w, error + 'n) io"
  nt_jetstream :: "'n \<Rightarrow> ('w, error + 'w jetstream) io"
  nt_close :: "'n \<Rightarrow> ('w, unit) io"
  nt_drain :: "'n \<Rightarrow> ('w, error option) io"

definition nats_connect :: "quoter \<Rightarrow> ('w, 'n) nats_client \<Rightarrow> string \<Rightarrow> ('w, error + 'n \<times> 'w jetstream) io" where
  "nats_connect quote nt url =
     call (nt_connect nt url) (\<lambda>r. case r of
       Inl err \<Rightarrow> ret (Inl (wrapf (''nats connect '' @ quote url) err))
     | Inr nc \<Rightarrow>
     call (nt_jetstream nt nc) (\<lambda>r. case r of
       Inl err \<Rightarrow> call (nt_close nt nc) (\<lambda>_. ret (Inl (wrapf ''jetstream init'' err)))
     | Inr js \<Rightarrow> ret (Inr (nc, js))))"

text \<open>The streams; a field that the code does not set is zero, and the storage of all is a file.\<close>

definition main_stream :: "int \<Rightarrow> stream_config" where
  "main_stream window = \<lparr>st_name = stream_name, st_subjects = [stream_subject], st_duplicates = window\<rparr>"

definition dlq_stream :: stream_config where
  "dlq_stream = \<lparr>st_name = dlq_stream_name, st_subjects = [dlq_subject], st_duplicates = 0\<rparr>"

definition ensure_streams :: "'w jetstream \<Rightarrow> ('w, error option) io" where
  "ensure_streams js =
     call (js_create_stream js (main_stream 0)) (\<lambda>r.
     if (case r of None \<Rightarrow> False | Some err \<Rightarrow> \<not> errors_is err ErrStreamNameAlreadyInUse)
     then ret (Some (wrapf (''ensure stream '' @ stream_name) (the r)))
     else
     call (js_create_or_update_stream js dlq_stream) (\<lambda>r. case r of
       Some err \<Rightarrow> ret (Some (wrapf (''ensure stream '' @ dlq_stream_name) err))
     | None \<Rightarrow> ret None))"

definition set_dedup_window :: "'w jetstream \<Rightarrow> int \<Rightarrow> ('w, error option) io" where
  "set_dedup_window js window =
     call (js_create_or_update_stream js (main_stream window)) (\<lambda>r. case r of
       Some err \<Rightarrow> ret (Some (wrapf (''set dedup window on '' @ stream_name) err))
     | None \<Rightarrow> ret None)"

section \<open>The databases\<close>

text \<open>
  \<open>gorm.Open\<close>, the three calls of \<open>golang-migrate\<close> (the driver on the open database, the migrator
  on the embedded files, \<open>Up\<close>), and the Redis driver, by the address: whether \<open>ParseURL\<close> takes it, the
  client that \<open>NewClient\<close> makes of it, its \<open>Ping\<close> and \<open>Close\<close>.
\<close>

record ('w, 'd, 'm) database_drivers =
  dd_gorm_open :: "string \<Rightarrow> ('w, error + 'w gorm) io"
  dd_migrate_driver :: "'w gorm \<Rightarrow> ('w, error + 'd) io"
  dd_migrate_new :: "'d \<Rightarrow> ('w, error + 'm) io"
  dd_migrate_up :: "'m \<Rightarrow> ('w, error option) io"
  dd_redis_parse :: "string \<Rightarrow> error option"
  dd_redis_client :: "string \<Rightarrow> 'w redis"
  dd_redis_ping :: "string \<Rightarrow> ('w, error option) io"
  dd_redis_close :: "string \<Rightarrow> ('w, error option) io"

definition new_postgres :: "('w, 'd, 'm) database_drivers \<Rightarrow> db_config \<Rightarrow> ('w, error + 'w gorm) io" where
  "new_postgres dd cfg =
     call (dd_gorm_open dd (db_dsn cfg)) (\<lambda>r. case r of
       Inl err \<Rightarrow> ret (Inl (wrapf ''connect postgres'' err))
     | Inr db \<Rightarrow> ret (Inr db))"

definition migrate :: "('w, 'd, 'm) database_drivers \<Rightarrow> 'w gorm \<Rightarrow> ('w, error option) io" where
  "migrate dd db =
     call (dd_migrate_driver dd db) (\<lambda>r. case r of
       Inl err \<Rightarrow> ret (Some err)
     | Inr driver \<Rightarrow>
     call (dd_migrate_new dd driver) (\<lambda>r. case r of
       Inl err \<Rightarrow> ret (Some err)
     | Inr m \<Rightarrow>
     call (dd_migrate_up dd m) (\<lambda>r. case r of
       Some err \<Rightarrow> if \<not> errors_is err ErrNoChange then ret (Some err) else ret None
     | None \<Rightarrow> ret None)))"

definition new_redis :: "('w, 'd, 'm) database_drivers \<Rightarrow> redis_config \<Rightarrow> ('w, error + 'w cache_store) io" where
  "new_redis dd cfg =
     (let dsn = redis_dsn cfg in
      case dd_redis_parse dd dsn of
        Some err \<Rightarrow> ret (Inl err)
      | None \<Rightarrow>
        call (dd_redis_ping dd dsn) (\<lambda>r. case r of
          Some err \<Rightarrow> call (dd_redis_close dd dsn) (\<lambda>_. ret (Inl err))
        | None \<Rightarrow> ret (Inr (redis_store (dd_redis_client dd dsn)))))"

text \<open>\<open>buildGitHubClient\<close>, which asks for Redis only when there is a DSN.\<close>

definition start_github_client ::
  "'w transport \<Rightarrow> ('w, 'd, 'm) database_drivers \<Rightarrow> app_config \<Rightarrow> ('w, 'w github_client) io" where
  "start_github_client tp dd cfg =
     (if redis_dsn (ac_redis cfg) = [] then ret (plain_client tp (new_client (ac_github cfg) []))
      else
      call (new_redis dd (ac_redis cfg)) (\<lambda>r.
        ret (build_github_client tp (ac_github cfg) (redis_dsn (ac_redis cfg)) r)))"

section \<open>The application process\<close>

text \<open>A deferred call: it runs after the body, also when the body panics.\<close>

definition deferring :: "('w, unit) io \<Rightarrow> ('w, 'a) io \<Rightarrow> ('w, 'a) io" where
  "deferring d m = (\<lambda>w. case m w of (r, w1) \<Rightarrow>
     (case d w1 of (Return _, w2) \<Rightarrow> (r, w2) | (Panic p, w2) \<Rightarrow> (Panic p, w2)))"

record server_config =
  sv_addr :: string
  sv_read_timeout :: int
  sv_write_timeout :: int

text \<open>
  The rest of the host of \<open>cmd/app\<close>: the default logger, the HTTP and template engines and
  identifiers, \<open>mail.ParseAddress\<close>, the environment of the router (but its service), starting a goroutine with the scan loop, and
  \<open>ListenAndServe\<close>, with the goroutine that shuts it down when the process is told to stop.
\<close>

record ('w, 'n, 'd, 'm) app_host =
  ah_process :: "'w process"
  ah_set_logger :: "log_config \<Rightarrow> ('w, unit) io"
  ah_drivers :: "('w, 'd, 'm) database_drivers"
  ah_nats :: "('w, 'n) nats_client"
  ah_transport :: "'w transport"
  ah_templates :: template_engine
  ah_uuid_new :: "('w, error + string) io"
  ah_uuid_string :: "('w, string) io"
  ah_parse_address :: "string \<Rightarrow> bool"
  ah_api_env :: "'w api_env"
  ah_go_scan :: "'w scanner \<Rightarrow> ('w, unit) io"
  ah_listen :: "server_config \<Rightarrow> (http_in \<Rightarrow> ('w, reply) io) \<Rightarrow> ('w, error option) io"

text \<open>The platform the components run on.\<close>

definition host_platform :: "('w, 'n, 'd, 'm) app_host \<Rightarrow> app_config \<Rightarrow> 'w gorm \<Rightarrow> 'w jetstream \<Rightarrow> 'w platform" where
  "host_platform h cfg db js =
     \<lparr>pf_gorm = db, pf_transport = ah_transport h,
      pf_redis = dd_redis_client (ah_drivers h) (redis_dsn (ac_redis cfg)), pf_jetstream = js,
      pf_templates = ah_templates h, pf_uuid_new = ah_uuid_new h, pf_uuid_string = ah_uuid_string h\<rparr>"

text \<open>The client that \<open>buildGitHubClient\<close> hands out is the one the properties of the components speak of.\<close>

lemma start_github_client_app:
  assumes "start_github_client (ah_transport h) (ah_drivers h) cfg w = (Return gh, w')"
  shows "\<exists>up. gh = app_github (host_platform h cfg db js) (ac_github cfg) (redis_dsn (ac_redis cfg)) up"
proof -
  have "gh = app_github (host_platform h cfg db js) (ac_github cfg) (redis_dsn (ac_redis cfg)) True \<or>
      gh = app_github (host_platform h cfg db js) (ac_github cfg) (redis_dsn (ac_redis cfg)) False"
    using assms
    by (auto simp: start_github_client_def new_redis_def build_github_client_def app_github_def host_platform_def
        call_def Let_def split: if_splits sum.splits prod.splits outcome.splits option.splits)
  then show ?thesis by blast
qed

definition app_server :: "app_config \<Rightarrow> server_config" where
  "app_server cfg =
     \<lparr>sv_addr = '':'' @ ac_port cfg, sv_read_timeout = ac_read_timeout cfg, sv_write_timeout = ac_write_timeout cfg\<rparr>"

text \<open>\<open>NewHandler\<close>: the router's handlers on the service.\<close>

definition wired_env :: "('w, 'n, 'd, 'm) app_host \<Rightarrow> 'w service \<Rightarrow> 'w api_env" where
  "wired_env h svc = (ah_api_env h)\<lparr>ae_service := service_api (ah_parse_address h) svc\<rparr>"

text \<open>From the streams to the end of \<open>run\<close>.\<close>

definition app_online ::
  "('w, 'n, 'd, 'm) app_host \<Rightarrow> app_config \<Rightarrow> 'w gorm \<Rightarrow> 'w github_client \<Rightarrow> 'w jetstream \<Rightarrow> ('w, error option) io" where
  "app_online h cfg db gh js =
     call (ensure_streams js) (\<lambda>r. case r of
       Some err \<Rightarrow> ret (Some (wrapf ''ensure streams'' err))
     | None \<Rightarrow>
     call (set_dedup_window js (dedup_window (sf_interval (ac_scanner cfg)))) (\<lambda>r. case r of
       Some err \<Rightarrow> ret (Some (wrapf ''set dedup window'' err))
     | None \<Rightarrow>
     let P = host_platform h cfg db js;
         svc = app_service P (ac_base_url cfg) gh;
         scan = app_scanner P (ac_base_url cfg) gh (ac_scanner cfg) in
     call (ah_go_scan h scan) (\<lambda>_.
     call (ah_listen h (app_server cfg) (serve (wired_env h svc) (ac_api_key cfg))) (\<lambda>r. case r of
       Some err \<Rightarrow> if \<not> errors_is err ErrServerClosed then ret (Some (wrapf ''app'' err)) else ret None
     | None \<Rightarrow> ret None))))"

definition app_main :: "quoter \<Rightarrow> ('w, 'n, 'd, 'm) app_host \<Rightarrow> app_config \<Rightarrow> ('w, error option) io" where
  "app_main quote h cfg =
     call (ah_set_logger h (ac_log cfg)) (\<lambda>_.
     call (new_postgres (ah_drivers h) (ac_db cfg)) (\<lambda>r. case r of
       Inl err \<Rightarrow> ret (Some (wrapf ''connect db'' err))
     | Inr db \<Rightarrow>
     call (migrate (ah_drivers h) db) (\<lambda>r. case r of
       Some err \<Rightarrow> ret (Some (wrapf ''migrate'' err))
     | None \<Rightarrow>
     call (start_github_client (ah_transport h) (ah_drivers h) cfg) (\<lambda>gh.
     call (nats_connect quote (ah_nats h) (ac_nats_url cfg)) (\<lambda>r. case r of
       Inl err \<Rightarrow> ret (Some (wrapf ''connect nats'' err))
     | Inr (nc, js) \<Rightarrow>
       deferring (call (nt_drain (ah_nats h) nc) (\<lambda>_. ret ())) (app_online h cfg db gh js))))))"

definition app_run :: "quoter \<Rightarrow> (string \<Rightarrow> string) \<Rightarrow> ('w, 'n, 'd, 'm) app_host \<Rightarrow> ('w, error option) io" where
  "app_run quote uni h =
     call (app_load_cfg quote uni (ah_process h)) (\<lambda>r. case r of
       Inl err \<Rightarrow> ret (Some (wrapf ''load config'' err))
     | Inr cfg \<Rightarrow> app_main quote h cfg)"

text \<open>\<open>main\<close> of both processes, with the text it writes to the standard error and its exit status.\<close>

definition process_main :: "(string \<Rightarrow> ('w, unit) io) \<Rightarrow> ('w, error option) io \<Rightarrow> ('w, int) io" where
  "process_main stderr run =
     call run (\<lambda>r. case r of
       Some err \<Rightarrow> call (stderr (''fatal: '' @ error_text err @ nl)) (\<lambda>_. ret 1)
     | None \<Rightarrow> ret 0)"

section \<open>The notifier process\<close>

text \<open>
  The host of \<open>cmd/notifier\<close>: the admin server's goroutine and its shutdown, JetStream's consumers,
  waiting for the signal, and \<open>Drain\<close>, \<open>Stop\<close> and the closing of the consumer, which is awaited at
  most for the given time.
\<close>

record ('w, 'n, 'c, 'cc) notifier_host =
  nh_process :: "'w process"
  nh_set_logger :: "log_config \<Rightarrow> ('w, unit) io"
  nh_mail :: "'w mail_transport"
  nh_acker :: "'w acker"
  nh_messages_total :: "'w counter"
  nh_go_admin :: "string \<Rightarrow> ('w, unit) io"
  nh_nats :: "('w, 'n) nats_client"
  nh_consumers :: "'w jetstream \<Rightarrow> ('w, 'c, 'cc) consumer_api"
  nh_wait :: "('w, unit) io"
  nh_drain :: "'cc \<Rightarrow> ('w, unit) io"
  nh_closed :: "'cc \<Rightarrow> int \<Rightarrow> ('w, bool) io"
  nh_stop :: "'cc \<Rightarrow> ('w, unit) io"
  nh_admin_shutdown :: "('w, error option) io"

definition drain_timeout :: int where "drain_timeout = 10 * second"

text \<open>From the streams to the end of \<open>run\<close>.\<close>

definition notifier_online ::
  "('w, 'n, 'c, 'cc) notifier_host \<Rightarrow> notifier_config \<Rightarrow> 'w jetstream \<Rightarrow> ('w, error option) io" where
  "notifier_online h cfg js =
     call (ensure_streams js) (\<lambda>r. case r of
       Some err \<Rightarrow> ret (Some (wrapf ''ensure streams'' err))
     | None \<Rightarrow>
     call (subscribe_consumer (nh_consumers h js) js (nh_acker h) (nh_messages_total h)
         (nc_max_deliver cfg) (nc_ack_wait cfg) (new_handler (smtp_send (nh_mail h) (nc_smtp cfg)))) (\<lambda>r. case r of
       Inl err \<Rightarrow> ret (Some (wrapf ''subscribe'' err))
     | Inr cc \<Rightarrow>
       deferring (nh_stop h cc)
         (call (nh_wait h) (\<lambda>_.
          call (nh_drain h cc) (\<lambda>_.
          call (nh_closed h cc drain_timeout) (\<lambda>closed. \<comment> \<open>a timeout is logged only\<close>
          call (nh_admin_shutdown h) (\<lambda>_.
          ret None)))))))"

definition notifier_main :: "quoter \<Rightarrow> ('w, 'n, 'c, 'cc) notifier_host \<Rightarrow> notifier_config \<Rightarrow> ('w, error option) io" where
  "notifier_main quote h cfg =
     call (nh_set_logger h (nc_log cfg)) (\<lambda>_.
     call (nh_go_admin h (nc_admin_addr cfg)) (\<lambda>_.
     call (nats_connect quote (nh_nats h) (nc_nats_url cfg)) (\<lambda>r. case r of
       Inl err \<Rightarrow> ret (Some (wrapf ''connect nats'' err))
     | Inr (nc, js) \<Rightarrow>
       deferring (call (nt_drain (nh_nats h) nc) (\<lambda>_. ret ())) (notifier_online h cfg js))))"

definition notifier_run :: "quoter \<Rightarrow> (string \<Rightarrow> string) \<Rightarrow> ('w, 'n, 'c, 'cc) notifier_host \<Rightarrow> ('w, error option) io" where
  "notifier_run quote uni h =
     call (notifier_load_cfg quote uni (nh_process h)) (\<lambda>r. case r of
       Inl err \<Rightarrow> ret (Some (wrapf ''load config'' err))
     | Inr cfg \<Rightarrow> notifier_main quote h cfg)"

section \<open>What the infrastructure promises\<close>

text \<open>
  What start-up is about: whether the schema is up to date, the streams with their settings, and
  whether a connection to NATS is open.
\<close>

record infra =
  in_migrated :: bool
  in_streams :: "stream_config set"
  in_open :: bool

definition named :: "string \<Rightarrow> infra \<Rightarrow> bool" where
  "named n d \<longleftrightarrow> (\<exists>st \<in> in_streams d. st_name st = n)"

definition other_streams :: "string \<Rightarrow> infra \<Rightarrow> infra \<Rightarrow> bool" where
  "other_streams n d d' \<longleftrightarrow> in_migrated d' = in_migrated d \<and> in_open d' = in_open d \<and>
     (\<forall>st \<in> in_streams d. st_name st \<noteq> n \<longrightarrow> st \<in> in_streams d') \<and> (named n d \<longrightarrow> named n d')"

text \<open>
  JetStream: a stream that is created, or whose name is taken, is there; an update that is
  acknowledged has set what was asked for; neither touches another stream.
\<close>

definition stream_laws :: "('w \<Rightarrow> infra) \<Rightarrow> 'w jetstream \<Rightarrow> bool" where
  "stream_laws infra js \<longleftrightarrow>
     (\<forall>cfg. meets infra (js_create_stream js cfg) (\<lambda>d r d'. other_streams (st_name cfg) d d' \<and>
        (r = Return None \<or> (\<exists>e. r = Return (Some e) \<and> errors_is e ErrStreamNameAlreadyInUse) \<longrightarrow>
           named (st_name cfg) d'))) \<and>
     (\<forall>cfg. meets infra (js_create_or_update_stream js cfg) (\<lambda>d r d'. other_streams (st_name cfg) d d' \<and>
        (r = Return None \<longrightarrow> cfg \<in> in_streams d')))"

locale nats_server =
  fixes nt :: "('w, 'n) nats_client" and infra :: "'w \<Rightarrow> infra"
  assumes connect: "meets infra (nt_connect nt url)
      (\<lambda>d r d'. d' = (case r of Return (Inr nc) \<Rightarrow> d\<lparr>in_open := True\<rparr> | _ \<Rightarrow> d))"
    and jetstream: "meets infra (nt_jetstream nt nc) (\<lambda>d r d'. d' = d \<and> (\<exists>x. r = Return x))"
    and streams: "nt_jetstream nt nc w = (Return (Inr js), w') \<Longrightarrow> stream_laws infra js"
    and close: "meets infra (nt_close nt nc) (\<lambda>d r d'. d' = d\<lparr>in_open := False\<rparr>)"
    and drain: "meets infra (nt_drain nt nc) (\<lambda>d r d'. d' = d\<lparr>in_open := False\<rparr>)"

text \<open>Rewriting a call under what its run says.\<close>

lemma call_cong_run: "(\<And>a w'. m w = (Return a, w') \<Longrightarrow> k a w' = k' a w') \<Longrightarrow> call m k w = call m k' w"
  by (auto simp: call_def split: prod.split outcome.split)

lemma deferring_view:
  assumes "deferring d m w = (r, w')" and "meets v d (\<lambda>x r x'. P x')"
  shows "P (v w')"
proof -
  obtain r1 w1 r2 w2 where "m w = (r1, w1)" "d w1 = (r2, w2)" by fastforce
  with assms(1) meetsD [OF assms(2) this(2)] show ?thesis
    by (auto simp: deferring_def split: outcome.splits)
qed

lemma deferring_cong: "m w = m' w \<Longrightarrow> deferring d m w = deferring d m' w"
  by (simp add: deferring_def)

text \<open>\<open>EnsureStreams\<close> and \<open>SetDedupWindow\<close>.\<close>

lemma stream_names [simp]: "st_name (main_stream window) = stream_name" "st_name dlq_stream = dlq_stream_name"
  "stream_name \<noteq> dlq_stream_name" "dlq_stream_name \<noteq> stream_name"
  by (simp_all add: main_stream_def dlq_stream_def stream_name_def dlq_stream_name_def)

lemma ensure_streams_meets:
  assumes "stream_laws infra js"
  shows "meets infra (ensure_streams js) (\<lambda>d r d'. in_migrated d' = in_migrated d \<and> in_open d' = in_open d \<and>
    (r = Return None \<longrightarrow> named stream_name d' \<and> dlq_stream \<in> in_streams d'))"
proof -
  note laws = assms [unfolded stream_laws_def, THEN conjunct1, rule_format]
    assms [unfolded stream_laws_def, THEN conjunct2, rule_format]
  show ?thesis
    unfolding ensure_streams_def
    by (rule meets_run_ok)
       (auto intro!: run_ok_call [OF laws(1)] run_ok_call [OF laws(2)] simp: other_streams_def named_def
          split: option.splits; fastforce)
qed

lemma set_dedup_window_meets:
  assumes "stream_laws infra js"
  shows "meets infra (set_dedup_window js window) (\<lambda>d r d'. in_migrated d' = in_migrated d \<and> in_open d' = in_open d \<and>
    (dlq_stream \<in> in_streams d \<longrightarrow> dlq_stream \<in> in_streams d') \<and> (r = Return None \<longrightarrow> main_stream window \<in> in_streams d'))"
  unfolding set_dedup_window_def
  by (rule meets_run_ok)
     (auto intro!: run_ok_call [OF assms [unfolded stream_laws_def, THEN conjunct2, rule_format]]
        simp: other_streams_def split: option.splits)

context nats_server
begin

lemma connect_run:
  assumes "nats_connect quote nt url w = (r, w')"
  shows "\<And>nc js. r = Return (Inr (nc, js)) \<Longrightarrow> stream_laws infra js \<and> infra w' = (infra w)\<lparr>in_open := True\<rparr>"
    and "\<And>err. r = Return (Inl err) \<Longrightarrow> infra w' = infra w \<or> \<not> in_open (infra w')"
proof -
  show "stream_laws infra js \<and> infra w' = (infra w)\<lparr>in_open := True\<rparr>" if "r = Return (Inr (nc, js))" for nc js
  proof -
    from assms that obtain w1 where c: "nt_connect nt url w = (Return (Inr nc), w1)"
      and j: "nt_jetstream nt nc w1 = (Return (Inr js), w')"
      by (auto simp: nats_connect_def elim!: call_ReturnE split: sum.splits)
    from streams [OF j] meetsD [OF connect c] meetsD [OF jetstream j] show ?thesis by simp
  qed
  show "infra w' = infra w \<or> \<not> in_open (infra w')" if "r = Return (Inl err)" for err
    using assms that
    by (auto simp: nats_connect_def elim!: call_ReturnE split: sum.splits
        dest!: meetsD [OF connect] meetsD [OF close])
qed

lemma connect_fails:
  assumes "nats_connect quote nt url w = (r, w')" and "\<And>x. r \<noteq> Return (Inr x)" and "\<not> in_open (infra w)"
  shows "\<not> in_open (infra w')"
proof -
  obtain r1 w1 where c: "nt_connect nt url w = (r1, w1)" by fastforce
  note d1 = meetsD [OF connect c]
  show ?thesis
  proof (cases "\<exists>nc. r1 = Return (Inr nc)")
    case False
    then have "w' = w1" using assms(1) c
      by (auto simp: nats_connect_def call_def split: outcome.splits sum.splits)
    with d1 False assms(3) show ?thesis by (auto split: outcome.splits sum.splits)
  next
    case True
    then obtain nc where nc: "r1 = Return (Inr nc)" ..
    obtain r2 w2 where j: "nt_jetstream nt nc w1 = (r2, w2)" by fastforce
    obtain x where x: "r2 = Return x" using meetsD [OF jetstream j] by blast
    show ?thesis
    proof (cases x)
      case (Inl err)
      obtain r3 w3 where d: "nt_close nt nc w2 = (r3, w3)" by fastforce
      have "w' = w3" using assms(1) c nc j x Inl d
        by (cases r3) (auto simp: nats_connect_def call_def)
      with meetsD [OF close d] show ?thesis by simp
    next
      case (Inr js)
      with assms(1) assms(2) [of "(nc, js)"] c nc j x show ?thesis by (auto simp: nats_connect_def call_def)
    qed
  qed
qed

text \<open>Whatever happens on an open connection, it is drained in the end.\<close>

lemma connection_is_drained:
  "maintains (\<lambda>w. \<not> in_open (infra w))
     (call (nats_connect quote nt url) (\<lambda>r. case r of
        Inl err \<Rightarrow> ret (f err)
      | Inr (nc, js) \<Rightarrow> deferring (call (nt_drain nt nc) (\<lambda>_. ret ())) (body nc js)))"
proof (rule maintainsI)
  fix w r w'
  assume closed: "\<not> in_open (infra w)" and run: "call (nats_connect quote nt url) (\<lambda>r. case r of
        Inl err \<Rightarrow> ret (f err)
      | Inr (nc, js) \<Rightarrow> deferring (call (nt_drain nt nc) (\<lambda>_. ret ())) (body nc js)) w = (r, w')"
  obtain x w1 where c: "nats_connect quote nt url w = (x, w1)" by fastforce
  show "\<not> in_open (infra w')"
  proof (cases "\<exists>nc js. x = Return (Inr (nc, js))")
    case True
    then obtain nc js where "x = Return (Inr (nc, js))" by blast
    with run c have d: "deferring (call (nt_drain nt nc) (\<lambda>_. ret ())) (body nc js) w1 = (r, w')"
      by (simp add: call_def)
    have "meets infra (call (nt_drain nt nc) (\<lambda>_. ret ())) (\<lambda>d r d'. \<not> in_open d')"
      by (rule meets_run_ok) (auto intro!: run_ok_call [OF drain])
    from deferring_view [OF d this] show ?thesis .
  next
    case False
    then have "x \<noteq> Return (Inr y)" for y by (cases y) auto
    moreover from this run c have "w' = w1" by (auto simp: call_def split: outcome.splits sum.splits)
    ultimately show ?thesis using connect_fails [OF c _ closed] by simp
  qed
qed

end

section \<open>The application comes online\<close>

locale app_deployment = nats_server "ah_nats h" infra
  for h :: "('w, 'n, 'd, 'm) app_host" and infra :: "'w \<Rightarrow> infra" +
  assumes logger: "keeps infra (ah_set_logger h c)"
    and gorm_open: "keeps infra (dd_gorm_open (ah_drivers h) dsn)"
    and migrate_driver: "keeps infra (dd_migrate_driver (ah_drivers h) db)"
    and migrate_new: "keeps infra (dd_migrate_new (ah_drivers h) driver)"
    and migrate_up: "meets infra (dd_migrate_up (ah_drivers h) m) (\<lambda>d r d'.
        in_streams d' = in_streams d \<and> in_open d' = in_open d \<and>
        (r = Return None \<or> (\<exists>e. r = Return (Some e) \<and> errors_is e ErrNoChange) \<longrightarrow> in_migrated d'))"
    and redis: "keeps infra (dd_redis_ping (ah_drivers h) dsn)" "keeps infra (dd_redis_close (ah_drivers h) dsn)"
    and go_scan: "keeps infra (ah_go_scan h s)"

text \<open>What has to be in place before the scanner runs and the first request is served.\<close>

definition ready :: "app_config \<Rightarrow> infra \<Rightarrow> bool" where
  "ready cfg d \<longleftrightarrow> in_migrated d \<and> in_open d \<and> dlq_stream \<in> in_streams d \<and>
     main_stream (dedup_window (sf_interval (ac_scanner cfg))) \<in> in_streams d"

text \<open>A host that refuses to go online too early.\<close>

definition cautious :: "('w \<Rightarrow> bool) \<Rightarrow> ('w, 'n, 'd, 'm) app_host \<Rightarrow> ('w, 'n, 'd, 'm) app_host" where
  "cautious ok h =
     h\<lparr>ah_go_scan := (\<lambda>s w. if ok w then ah_go_scan h s w else (Panic ''too early'', w)),
       ah_listen := (\<lambda>sv handler w. if ok w then ah_listen h sv handler w else (Panic ''too early'', w))\<rparr>"

lemma cautious_fields [simp]:
  "ah_set_logger (cautious ok h) = ah_set_logger h" "ah_drivers (cautious ok h) = ah_drivers h"
  "ah_nats (cautious ok h) = ah_nats h" "ah_transport (cautious ok h) = ah_transport h"
  "wired_env (cautious ok h) = wired_env h"
  "host_platform (cautious ok h) = host_platform h"
  by (simp_all add: cautious_def host_platform_def wired_env_def fun_eq_iff)

context app_deployment
begin

lemma migrate_meets:
  "meets infra (migrate (ah_drivers h) db) (\<lambda>d r d'. in_open d' = in_open d \<and> (r = Return None \<longrightarrow> in_migrated d'))"
  unfolding migrate_def
  by (rule meets_run_ok)
     (auto intro!: run_ok_call [OF meets_keeps [OF migrate_driver]] run_ok_call [OF meets_keeps [OF migrate_new]]
        run_ok_call [OF migrate_up] split: sum.splits option.splits)

lemma postgres_keeps: "keeps infra (new_postgres (ah_drivers h) c)"
  unfolding new_postgres_def by (rule keeps_call [OF gorm_open]) (simp split: sum.split)

lemma redis_keeps: "keeps infra (new_redis (ah_drivers h) c)"
  by (auto simp: new_redis_def Let_def intro!: keeps_call redis split: option.splits)

lemma github_keeps: "keeps infra (start_github_client (ah_transport h) (ah_drivers h) cfg)"
  by (auto simp: start_github_client_def intro!: keeps_call redis_keeps)

lemma online_tail:
  assumes "ready cfg (infra w)"
  shows "call (ah_go_scan (cautious (\<lambda>w. ready cfg (infra w)) h) s)
      (\<lambda>_. call (ah_listen (cautious (\<lambda>w. ready cfg (infra w)) h) sv ep) k) w =
    call (ah_go_scan h s) (\<lambda>_. call (ah_listen h sv ep) k) w"
proof -
  have "call (ah_go_scan h s) (\<lambda>_. call (ah_listen (cautious (\<lambda>w. ready cfg (infra w)) h) sv ep) k) w =
      call (ah_go_scan h s) (\<lambda>_. call (ah_listen h sv ep) k) w"
    using assms by (intro call_cong_run) (auto simp: cautious_def call_def dest: keepsD [OF go_scan])
  moreover have "call (ah_go_scan (cautious (\<lambda>w. ready cfg (infra w)) h) s) k' w = call (ah_go_scan h s) k' w"
    for k' :: "unit \<Rightarrow> ('w, 'a) io"
    using assms by (simp add: cautious_def call_def)
  ultimately show ?thesis by simp
qed

lemma online_cautious:
  assumes "stream_laws infra js" and "in_migrated (infra w)" and "in_open (infra w)"
  shows "app_online (cautious (\<lambda>w. ready cfg (infra w)) h) cfg db gh js w = app_online h cfg db gh js w"
  unfolding app_online_def cautious_fields
proof (rule call_cong_run, goal_cases)
  case (1 r w1)
  note first = meetsD [OF ensure_streams_meets [OF assms(1)] 1]
  show ?case
  proof (cases r)
    case None
    show ?thesis
      unfolding None option.case
    proof (rule call_cong_run, goal_cases)
      case (1 q w2)
      note second = meetsD [OF set_dedup_window_meets [OF assms(1)] 1]
      show ?case
      proof (cases q)
        case None
        with first second \<open>r = None\<close> assms(2,3) have "ready cfg (infra w2)" by (simp add: ready_def)
        with None show ?thesis by (simp add: Let_def online_tail)
      qed simp
    qed
  qed simp
qed

lemma main_cautious:
  "app_main quote (cautious (\<lambda>w. ready cfg (infra w)) h) cfg w = app_main quote h cfg w"
  unfolding app_main_def cautious_fields
proof (rule call_cong_run, rule call_cong_run, goal_cases)
  case (1 u w1 r w2)
  show ?case
  proof (cases r)
    case (Inr db)
    show ?thesis
      unfolding Inr sum.case
    proof (rule call_cong_run, goal_cases)
      case (1 q w3)
      note up = meetsD [OF migrate_meets 1]
      show ?case
      proof (cases q)
        case None
        show ?thesis
          unfolding None option.case
        proof (rule call_cong_run, rule call_cong_run, goal_cases)
          case (1 gh w4 x w5)
          from keepsD [OF github_keeps 1(1)] up None have m: "in_migrated (infra w4)" by simp
          show ?case
          proof (cases x)
            case (Inr ncjs)
            obtain nc js where "ncjs = (nc, js)" by fastforce
            then have "nats_connect quote (ah_nats h) (ac_nats_url cfg) w4 = (Return (Inr (nc, js)), w5)"
              using 1(2) Inr by simp
            from connect_run(1) [OF this refl] m
            have "stream_laws infra js" "in_migrated (infra w5)" "in_open (infra w5)" by simp_all
            then have "app_online (cautious (\<lambda>w. ready cfg (infra w)) h) cfg db gh js w5 = app_online h cfg db gh js w5"
              by (rule online_cautious)
            then show ?thesis
              unfolding Inr sum.case \<open>ncjs = (nc, js)\<close> prod.case by (rule deferring_cong)
          qed simp
        qed
      qed simp
    qed
  qed simp
qed

lemma main_closes: "maintains (\<lambda>w. \<not> in_open (infra w)) (app_main quote h cfg)"
  unfolding app_main_def
proof (intro maintains_call)
  show "maintains (\<lambda>w. \<not> in_open (infra w)) (ah_set_logger h (ac_log cfg))"
    and "maintains (\<lambda>w. \<not> in_open (infra w)) (new_postgres (ah_drivers h) (ac_db cfg))"
    by (rule keeps_maintains [OF logger], rule keeps_maintains [OF postgres_keeps])
next
  fix u r
  show "maintains (\<lambda>w. \<not> in_open (infra w)) (case r of Inl err \<Rightarrow> ret (Some (wrapf ''connect db'' err))
      | Inr db \<Rightarrow> call (migrate (ah_drivers h) db) (\<lambda>r. case r of
          Some err \<Rightarrow> ret (Some (wrapf ''migrate'' err))
        | None \<Rightarrow> call (start_github_client (ah_transport h) (ah_drivers h) cfg) (\<lambda>gh.
            call (nats_connect quote (ah_nats h) (ac_nats_url cfg)) (\<lambda>r. case r of
              Inl err \<Rightarrow> ret (Some (wrapf ''connect nats'' err))
            | Inr (nc, js) \<Rightarrow> deferring (call (nt_drain (ah_nats h) nc) (\<lambda>_. ret ())) (app_online h cfg db gh js)))))"
    by (auto split: sum.split option.split intro!: maintains_call connection_is_drained
        keeps_maintains [OF github_keeps] meets_maintains [OF migrate_meets])
qed

end

section \<open>The notifier comes online\<close>

locale notifier_deployment = nats_server "nh_nats h" infra
  for h :: "('w, 'n, 'c, 'cc) notifier_host" and infra :: "'w \<Rightarrow> infra" +
  assumes getenv: "keeps infra (ps_getenv (nh_process h) key)"
    and dotenv: "keeps infra (ps_dotenv (nh_process h) env_file)"
    and logger: "keeps infra (nh_set_logger h c)"
    and go_admin: "keeps infra (nh_go_admin h addr)"

text \<open>What a consumer has to be, and what it has to find.\<close>

definition fit :: "consumer_config \<Rightarrow> infra \<Rightarrow> bool" where
  "fit cc d \<longleftrightarrow> 1 \<le> cn_max_deliver cc \<and> 0 < cn_ack_wait cc \<and> cn_explicit_ack cc \<and>
     in_open d \<and> named stream_name d \<and> dlq_stream \<in> in_streams d"

definition wary :: "(consumer_config \<Rightarrow> 'w \<Rightarrow> bool) \<Rightarrow> ('w, 'n, 'c, 'cc) notifier_host \<Rightarrow> ('w, 'n, 'c, 'cc) notifier_host" where
  "wary ok h =
     h\<lparr>nh_consumers := (\<lambda>js. (nh_consumers h js)\<lparr>ca_create := (\<lambda>name cc w.
        if ok cc w then ca_create (nh_consumers h js) name cc w else (Panic ''not fit'', w))\<rparr>)\<rparr>"

lemma wary_fields [simp]:
  "nh_process (wary ok h) = nh_process h" "nh_set_logger (wary ok h) = nh_set_logger h" "nh_mail (wary ok h) = nh_mail h"
  "nh_acker (wary ok h) = nh_acker h" "nh_messages_total (wary ok h) = nh_messages_total h"
  "nh_go_admin (wary ok h) = nh_go_admin h" "nh_nats (wary ok h) = nh_nats h" "nh_wait (wary ok h) = nh_wait h"
  "nh_drain (wary ok h) = nh_drain h" "nh_closed (wary ok h) = nh_closed h" "nh_stop (wary ok h) = nh_stop h"
  "nh_admin_shutdown (wary ok h) = nh_admin_shutdown h"
  by (simp_all add: wary_def)

lemma subscribe_wary:
  assumes "ok \<lparr>cn_durable = durable_consumer, cn_explicit_ack = True, cn_filter_subject = stream_subject,
      cn_max_deliver = n, cn_ack_wait = t\<rparr> w"
  shows "subscribe_consumer (nh_consumers (wary ok h) js) js ak c n t f w = subscribe_consumer (nh_consumers h js) js ak c n t f w"
  using assms by (simp add: subscribe_consumer_def wary_def call_def split: prod.split outcome.split sum.split)

lemma notifier_limits:
  assumes "notifier_load_cfg quote uni ps w = (Return (Inr cfg), w')"
  shows "1 \<le> nc_max_deliver cfg" and "0 < nc_ack_wait cfg"
proof -
  have "notifier_validate cfg = None"
    using assms by (auto simp: notifier_load_cfg_def elim!: call_ReturnE split: option.splits)
  then show "1 \<le> nc_max_deliver cfg" and "0 < nc_ack_wait cfg"
    by (simp_all add: notifier_validate_def split: if_splits)
qed

context notifier_deployment
begin

lemma load_keeps: "keeps infra (notifier_load_cfg quote uni (nh_process h))"
  unfolding notifier_load_cfg_def load_dotenv_def smtp_load_def log_load_def notifier_settings_def
    get_env_or_default_def get_env_duration_def get_env_int_def
  by (auto intro!: keeps_call getenv dotenv split: option.splits sum.splits)

lemma notifier_online_wary:
  assumes "stream_laws infra js" and "in_open (infra w)" and "1 \<le> nc_max_deliver cfg" and "0 < nc_ack_wait cfg"
  shows "notifier_online (wary (\<lambda>cc w. fit cc (infra w)) h) cfg js w = notifier_online h cfg js w"
  unfolding notifier_online_def wary_fields
proof (rule call_cong_run, goal_cases)
  case (1 r w1)
  note first = meetsD [OF ensure_streams_meets [OF assms(1)] 1]
  show ?case
  proof (cases r)
    case None
    with first assms(2-4) have "fit \<lparr>cn_durable = durable_consumer, cn_explicit_ack = True, cn_filter_subject = stream_subject,
        cn_max_deliver = nc_max_deliver cfg, cn_ack_wait = nc_ack_wait cfg\<rparr> (infra w1)"
      by (simp add: fit_def)
    with None show ?thesis by (simp add: call_def subscribe_wary)
  qed simp
qed

lemma notifier_main_wary:
  assumes "1 \<le> nc_max_deliver cfg" and "0 < nc_ack_wait cfg"
  shows "notifier_main quote (wary (\<lambda>cc w. fit cc (infra w)) h) cfg w = notifier_main quote h cfg w"
  unfolding notifier_main_def wary_fields
proof (rule call_cong_run, rule call_cong_run, rule call_cong_run, goal_cases)
  case (1 u w1 v w2 x w3)
  show ?case
  proof (cases x)
    case (Inr ncjs)
    obtain nc js where ncjs: "ncjs = (nc, js)" by fastforce
    then have "nats_connect quote (nh_nats h) (nc_nats_url cfg) w2 = (Return (Inr (nc, js)), w3)"
      using 1(3) Inr by simp
    from connect_run(1) [OF this refl] have "stream_laws infra js" "in_open (infra w3)" by simp_all
    then have "notifier_online (wary (\<lambda>cc w. fit cc (infra w)) h) cfg js w3 = notifier_online h cfg js w3"
      using assms by (rule notifier_online_wary)
    then show ?thesis unfolding Inr sum.case ncjs prod.case by (rule deferring_cong)
  qed simp
qed

lemma notifier_run_wary:
  "notifier_run quote uni (wary (\<lambda>cc w. fit cc (infra w)) h) w = notifier_run quote uni h w"
  unfolding notifier_run_def wary_fields
proof (rule call_cong_run, goal_cases)
  case (1 r w1)
  show ?case
  proof (cases r)
    case (Inr cfg)
    with 1 notifier_limits [of quote uni "nh_process h" w cfg w1] show ?thesis by (simp add: notifier_main_wary)
  qed simp
qed

lemma notifier_closes: "maintains (\<lambda>w. \<not> in_open (infra w)) (notifier_run quote uni h)"
  unfolding notifier_run_def notifier_main_def
  by (auto split: sum.split intro!: maintains_call connection_is_drained keeps_maintains [OF load_keeps]
      keeps_maintains [OF logger] keeps_maintains [OF go_admin])

end

end
