(* ===== verification/Plant.thy ===== *)
theory Plant imports Startup Web begin

text \<open>
  Both processes on hosts in memory: the platform of \<open>Simulator\<close>, a NATS server with its streams, a
  database with its schema, an environment, and a log of what was started. The contracts of
  \<open>Startup\<close> hold of them, and whole runs of the two processes can be evaluated.
\<close>

record plant = world +
  pl_environ :: "string \<rightharpoonup> string"
  pl_infra :: infra
  pl_log :: "string list"

definition plant_do :: "(plant \<Rightarrow> plant) \<Rightarrow> (plant, error option) io" where
  "plant_do f w =
     (case fault_now w of
        Fine \<Rightarrow> (Return None, f (advance w))
      | Lost \<Rightarrow> (Return (Some (Extern ''i/o timeout'')), f (advance w))
      | Fails \<Rightarrow> (Return (Some (Extern ''connection refused'')), advance w)
      | Crash \<Rightarrow> (Panic ''driver'', advance w))"

definition plant_get :: "'a \<Rightarrow> (plant \<Rightarrow> plant) \<Rightarrow> (plant, error + 'a) io" where
  "plant_get a f w =
     (case fault_now w of
        Fine \<Rightarrow> (Return (Inr a), f (advance w))
      | _ \<Rightarrow> (Return (Inl (Extern ''connection refused'')), advance w))"

definition note_event :: "string \<Rightarrow> (plant, unit) io" where
  "note_event s w = (Return (), w\<lparr>pl_log := pl_log w @ [s]\<rparr>)"

lemma plant_advance [simp]: "pl_infra (advance w) = pl_infra w" "pl_environ (advance w) = pl_environ w" "pl_log (advance w) = pl_log w"
  by (simp_all add: advance_def)

section \<open>Streams and connections\<close>

definition put_stream :: "stream_config \<Rightarrow> plant \<Rightarrow> plant" where
  "put_stream cfg w =
     w\<lparr>pl_infra := (pl_infra w)\<lparr>in_streams := insert cfg (Set.filter (\<lambda>st. st_name st \<noteq> st_name cfg) (in_streams (pl_infra w)))\<rparr>\<rparr>"

definition plant_js :: "plant jetstream" where
  "plant_js = sim_jetstream\<lparr>
     js_create_stream := (\<lambda>cfg w. if named (st_name cfg) (pl_infra w)
       then (Return (Some (Sentinel ErrStreamNameAlreadyInUse)), w) else plant_do (put_stream cfg) w),
     js_create_or_update_stream := (\<lambda>cfg. plant_do (put_stream cfg))\<rparr>"

definition open_connection :: "bool \<Rightarrow> plant \<Rightarrow> plant" where
  "open_connection b w = w\<lparr>pl_infra := (pl_infra w)\<lparr>in_open := b\<rparr>\<rparr>"

definition plant_nats :: "(plant, unit) nats_client" where
  "plant_nats =
     \<lparr>nt_connect = (\<lambda>url. plant_get () (open_connection True)), nt_jetstream = (\<lambda>nc. plant_get plant_js id),
      nt_close = (\<lambda>nc w. (Return (), open_connection False w)),
      nt_drain = (\<lambda>nc w. (Return None, open_connection False w))\<rparr>"

lemma put_stream_infra [simp]:
  "in_streams (pl_infra (put_stream cfg w)) = insert cfg {st \<in> in_streams (pl_infra w). st_name st \<noteq> st_name cfg}"
  "in_migrated (pl_infra (put_stream cfg w)) = in_migrated (pl_infra w)"
  "in_open (pl_infra (put_stream cfg w)) = in_open (pl_infra w)"
  by (simp_all add: put_stream_def)

lemma plant_stream_laws: "stream_laws pl_infra plant_js"
  unfolding stream_laws_def
proof (intro conjI allI meetsI)
  fix cfg w r w'
  assume "js_create_stream plant_js cfg w = (r, w')"
  then show "other_streams (st_name cfg) (pl_infra w) (pl_infra w')"
    and "r = Return None \<or> (\<exists>e. r = Return (Some e) \<and> errors_is e ErrStreamNameAlreadyInUse) \<longrightarrow>
      named (st_name cfg) (pl_infra w')"
    by (auto simp: plant_js_def plant_do_def other_streams_def named_def split: if_splits fault.splits)
next
  fix cfg w r w'
  assume "js_create_or_update_stream plant_js cfg w = (r, w')"
  then show "other_streams (st_name cfg) (pl_infra w) (pl_infra w')" and "r = Return None \<longrightarrow> cfg \<in> in_streams (pl_infra w')"
    by (auto simp: plant_js_def plant_do_def other_streams_def named_def split: fault.splits)
qed

interpretation plant: nats_server plant_nats pl_infra
  by unfold_locales
     (auto simp: plant_nats_def plant_get_def open_connection_def meets_def plant_stream_laws split: fault.splits)

section \<open>The application's host\<close>

definition plant_drivers :: "(plant, unit, unit) database_drivers" where
  "plant_drivers =
     \<lparr>dd_gorm_open = (\<lambda>dsn. plant_get mem_gorm id), dd_migrate_driver = (\<lambda>db. plant_get () id),
      dd_migrate_new = (\<lambda>d. plant_get () id),
      dd_migrate_up = (\<lambda>m w. if in_migrated (pl_infra w) then (Return (Some (Sentinel ErrNoChange)), w)
        else plant_do (\<lambda>v. v\<lparr>pl_infra := (pl_infra v)\<lparr>in_migrated := True\<rparr>\<rparr>) w),
      dd_redis_parse = (\<lambda>dsn. None), dd_redis_client = (\<lambda>dsn. sim_redis), dd_redis_ping = (\<lambda>dsn. plant_do id),
      dd_redis_close = (\<lambda>dsn. plant_do id)\<rparr>"

definition plant_process :: "plant process" where
  "plant_process =
     \<lparr>ps_getenv = (\<lambda>key w. (Return (case pl_environ w key of None \<Rightarrow> [] | Some v \<Rightarrow> v), w)),
      ps_dotenv = (\<lambda>env_file w. (Return (Some (Sentinel ErrNotExist)), w))\<rparr>"

definition plant_api :: "plant api_env" where
  "plant_api =
     \<lparr>ae_service = \<lparr>as_subscribe = (\<lambda>req. ret None), as_confirm = (\<lambda>v. ret None), as_unsubscribe = (\<lambda>v. ret None),
        as_get = (\<lambda>v. ret (Inr []))\<rparr>,
      ae_bind = (\<lambda>body. Inl (Extern ''EOF'')), ae_order = (\<lambda>w. error_view), ae_read_page = (\<lambda>name. Inr ''<html>''),
      ae_uuid_string = sim_uuid_string, ae_observe = (\<lambda>m r s. ret ()), ae_prometheus = (\<lambda>rq rp. ret rp),
      ae_fallback = (\<lambda>rq rp. ret (rp\<lparr>rp_status := 404\<rparr>))\<rparr>"

definition plant_host :: "(plant, unit, unit, unit) app_host" where
  "plant_host =
     \<lparr>ah_process = plant_process, ah_set_logger = (\<lambda>c. note_event ''logger''), ah_drivers = plant_drivers,
      ah_nats = plant_nats, ah_transport = sim_transport, ah_templates = sim_templates,
      ah_uuid_new = sim_uuid_new, ah_uuid_string = sim_uuid_string, ah_parse_address = (\<lambda>email. True), ah_api_env = plant_api,
      ah_go_scan = (\<lambda>s. note_event ''scanner''),
      ah_listen = (\<lambda>sv handler w. (Return (Some (Sentinel ErrServerClosed)), w\<lparr>pl_log := pl_log w @ [sv_addr sv]\<rparr>))\<rparr>"


interpretation app_plant: app_deployment plant_host pl_infra
proof unfold_locales
  show "meets pl_infra (dd_migrate_up (ah_drivers plant_host) m) (\<lambda>d r d'.
      in_streams d' = in_streams d \<and> in_open d' = in_open d \<and>
      (r = Return None \<or> (\<exists>e. r = Return (Some e) \<and> errors_is e ErrNoChange) \<longrightarrow> in_migrated d'))" for m
    by (auto simp: plant_host_def plant_drivers_def plant_do_def meets_def split: fault.splits)
qed (auto simp: plant_host_def plant_drivers_def plant_nats_def plant_get_def plant_do_def open_connection_def note_event_def
      keeps_def meets_def plant_stream_laws split: fault.splits)

text \<open>A configuration as \<open>loadCfg\<close> gives it, and a fresh installation.\<close>

definition plant_environ :: "string \<rightharpoonup> string" where
  "plant_environ = [''DB_USER'' \<mapsto> ''app'', ''DB_NAME'' \<mapsto> ''releases'', ''SCAN_INTERVAL'' \<mapsto> ''10m'',
     ''SMTP_HOST'' \<mapsto> ''mail'', ''SMTP_USERNAME'' \<mapsto> ''u'', ''SMTP_PASSWORD'' \<mapsto> ''p'']"

definition plant_start :: "fault list \<Rightarrow> plant" where
  "plant_start fs = world.extend (demo_world demo_db fs)
     \<lparr>pl_environ = plant_environ, pl_infra = \<lparr>in_migrated = False, in_streams = {}, in_open = False\<rparr>, pl_log = []\<rparr>"

definition plant_run :: "plant \<Rightarrow> error option outcome \<times> plant" where
  "plant_run w = app_run id id plant_host w"

section \<open>The notifier's host\<close>

definition plant_consumers :: "plant jetstream \<Rightarrow> (plant, unit, unit) consumer_api" where
  "plant_consumers js =
     \<lparr>ca_create = (\<lambda>name cc. plant_get () (\<lambda>w. w\<lparr>pl_log := pl_log w @ [''consumer '' @ cn_durable cc]\<rparr>)),
      ca_consume = (\<lambda>c callback. plant_get () id)\<rparr>"

definition plant_notifier :: "(plant, unit, unit, unit) notifier_host" where
  "plant_notifier =
     \<lparr>nh_process = plant_process, nh_set_logger = (\<lambda>c. note_event ''logger''),
      nh_mail = \<lparr>mt_ctx_err = ret None, mt_race = (\<lambda>x. ret (Inr None))\<rparr>,
      nh_acker = \<lparr>ak_ack = (\<lambda>d. ret None), ak_nak_with_delay = (\<lambda>d t. ret None), ak_term = (\<lambda>d. ret None)\<rparr>,
      nh_messages_total = (\<lambda>s a. ret ()), nh_go_admin = (\<lambda>addr. note_event (''admin '' @ addr)),
      nh_nats = plant_nats, nh_consumers = plant_consumers, nh_wait = note_event ''signal'',
      nh_drain = (\<lambda>cc. note_event ''drain''), nh_closed = (\<lambda>cc timeout. ret True), nh_stop = (\<lambda>cc. note_event ''stop''),
      nh_admin_shutdown = ret None\<rparr>"

interpretation notifier_plant: notifier_deployment plant_notifier pl_infra
  by unfold_locales
     (auto simp: plant_notifier_def plant_process_def plant_nats_def plant_get_def open_connection_def note_event_def
        keeps_def meets_def ret_def plant_stream_laws split: fault.splits)

section \<open>Coming online\<close>

text \<open>
  C39. \<open>run\<close> of the application starts the scanner and the server only when the schema is up to
  date, the connection to NATS is open, the dead-letter stream exists and the stream of
  notifications has the window of the configuration: a host that panics when it is started any
  earlier behaves like the host itself. However it ends, the connection has been drained.
\<close>

theorem app_online_when_ready:
  assumes "app_deployment h infra" and "app_main quote h cfg w = (r, w')" and "\<not> in_open (infra w)"
  shows "app_main quote (cautious (\<lambda>w. ready cfg (infra w)) h) cfg w = (r, w') \<and> \<not> in_open (infra w')"
  using app_deployment.main_cautious [OF assms(1)] maintainsD [OF app_deployment.main_closes [OF assms(1)] assms(2,3)]
    assms(2) by simp

text \<open>A fresh installation comes up, serves, and goes down.\<close>

definition plant_cfg :: app_config where
  "plant_cfg =
     \<lparr>ac_db = db_of plant_environ, ac_redis = redis_of plant_environ, ac_github = \<lparr>gc_token = [], gc_request_timeout = 10 * second\<rparr>,
      ac_scanner = \<lparr>sf_interval = 10 * minute, sf_concurrency = 8\<rparr>, ac_log = log_of id plant_environ, ac_port = ''8080'',
      ac_read_timeout = 10 * second, ac_write_timeout = 10 * second, ac_api_key = [], ac_base_url = demo_url,
      ac_nats_url = ''nats://localhost:4222''\<rparr>"

lemma app_online_when_ready_witness:
  "\<exists>w'. app_main id (cautious (\<lambda>w. ready plant_cfg (pl_infra w)) plant_host) plant_cfg (plant_start []) = (Return None, w') \<and>
     pl_log w' = [''logger'', ''scanner'', '':8080''] \<and> main_stream (30 * minute) \<in> in_streams (pl_infra w') \<and>
     \<not> in_open (pl_infra w')"
proof -
  let ?r = "app_main id plant_host plant_cfg (plant_start [])"
  have "fst ?r = Return None" and log: "pl_log (snd ?r) = [''logger'', ''scanner'', '':8080'']"
    and window: "main_stream (30 * minute) \<in> in_streams (pl_infra (snd ?r))"
    by code_simp+
  then have run: "?r = (Return None, snd ?r)" by (metis prod.collapse)
  have "\<not> in_open (pl_infra (plant_start []))" by code_simp
  from app_online_when_ready [OF app_plant.app_deployment_axioms run this] log window show ?thesis by blast
qed

text \<open>
  C40. The notifier asks for its consumer only when both streams exist, the connection is open, and
  the limits it asks for make sense: at least one delivery, a positive time to acknowledge, and
  explicit acknowledgements. These are what the life of a message (C14) is shown from. However the
  process ends, the connection has been drained.
\<close>

theorem notifier_consumes_when_fit:
  assumes "notifier_deployment h infra" and "notifier_run quote uni h w = (r, w')" and "\<not> in_open (infra w)"
  shows "notifier_run quote uni (wary (\<lambda>cc w. fit cc (infra w)) h) w = (r, w') \<and> \<not> in_open (infra w')"
  using notifier_deployment.notifier_run_wary [OF assms(1)]
    maintainsD [OF notifier_deployment.notifier_closes [OF assms(1)] assms(2,3)] assms(2) by simp

lemma notifier_consumes_when_fit_witness:
  "\<exists>w'. notifier_run id id (wary (\<lambda>cc w. fit cc (pl_infra w)) plant_notifier) (plant_start []) = (Return None, w') \<and>
     pl_log w' = [''logger'', ''admin :9091'', ''consumer notifier'', ''signal'', ''drain'', ''stop''] \<and>
     \<not> in_open (pl_infra w')"
proof -
  let ?r = "notifier_run id id plant_notifier (plant_start [])"
  have "fst ?r = Return None"
    and log: "pl_log (snd ?r) = [''logger'', ''admin :9091'', ''consumer notifier'', ''signal'', ''drain'', ''stop'']"
    by code_simp+
  then have run: "?r = (Return None, snd ?r)" by (metis prod.collapse)
  have "\<not> in_open (pl_infra (plant_start []))" by code_simp
  from notifier_consumes_when_fit [OF notifier_plant.notifier_deployment_axioms run this] log show ?thesis by blast
qed

text \<open>A migration that fails is fatal, with its reason on the standard error and status 1.\<close>

definition failed_start :: "int outcome \<times> plant" where
  "failed_start = process_main note_event (app_run id id plant_host) (plant_start [Fine, Fails])"

lemma failed_start_reported:
  "fst failed_start = Return 1"
  "pl_log (snd failed_start) = [''logger'', ''fatal: migrate: connection refused'' @ nl]"
  by code_simp+

end
