(* ===== verification/Spec2Isabelle.thy ===== *)
theory Spec2Isabelle imports Mailing Plays Web Desk Delivery Settings Logging ScanLoop Plant begin

text \<open>
  \<^bold>\<open>RelEasely\<close> lets people subscribe to the releases of GitHub repositories by e-mail. It is two Go
  processes. The \<^emph>\<open>application\<close> (\<open>cmd/app\<close>) serves an HTTP API, keeps subscriptions in Postgres,
  and every few minutes asks GitHub for the latest release of every repository with a confirmed
  subscriber; it never sends mail itself but publishes mail commands to a NATS JetStream stream.
  The \<^emph>\<open>notifier\<close> (\<open>cmd/notifier\<close>) consumes that stream and hands each command to an SMTP server.
  This development models both from their sources (\<open>src/internal\<close>, \<open>src/cmd\<close>) and proves what a
  subscriber, an operator and a client of the API may rely on.

  \<^bold>\<open>How code becomes definitions.\<close> A Go function that calls out of the program is a function of a
  state \<open>'w\<close> of the outside world that returns a value or panics (\<open>('w, 'a) io\<close>, theory \<open>Prelude\<close>);
  \<open>call\<close> is a call followed by the rest of the body, \<open>with_recover\<close> a deferred \<open>recover\<close>. A result
  \<open>(T, error)\<close> is \<open>error + 'a\<close>, a result \<open>error\<close> is \<open>error option\<close>; errors are trees
  (\<open>GoErrors\<close>), so \<open>errors.Is\<close>, \<open>%w\<close> and \<open>errors.Join\<close> compute. Strings are lists of bytes, \<open>int\<close> and
  \<open>time.Duration\<close> are integers in the range of 64 bits with their wrap-around written out
  (\<open>GoInt\<close>), structs are records, Go interfaces are records of functions. Log lines are not part of
  any result: a branch that only logs is a comment at its place. Contexts and deadlines appear
  only where the code branches on them; a deadline that passes is a failed call.

  \<^bold>\<open>Code that is not in the repository\<close> (GORM and Postgres, the HTTP transport, Redis, JetStream, SMTP,
  template execution, random identifiers, Gin, Prometheus, \<open>godotenv\<close>, \<open>mail.ParseAddress\<close>) is a
  parameter. What the program relies on is a locale: \<open>gorm_postgres\<close> (each statement is applied in
  full or not at all, but the acknowledgement of a commit may be lost; the unique indexes and the
  cascade of the migrations), \<open>transport\<close> laws of \<open>github_api\<close>, \<open>redis_server\<close>, \<open>jetstream_bus\<close>
  (deduplication by message id within a window), \<open>smtp_server\<close>, \<open>settling\<close>, \<open>os_process\<close>,
  \<open>nats_server\<close>, and what the two processes find where they are deployed (\<open>app_deployment\<close>,
  \<open>notifier_deployment\<close>). Every one of these is interpreted on an executable environment: \<open>Memory\<close>
  and \<open>Simulator\<close> (a whole platform under a script of faults), \<open>Desk\<close> (SMTP and JetStream of the
  notifier), \<open>mem_process\<close>, \<open>Plant\<close> (hosts for both processes). The witnesses evaluate the program
  there; \<open>Plays\<close> holds two longer runs.

  \<^bold>\<open>The theories and the code.\<close>
  \<^item> \<open>Prelude\<close>, \<open>GoErrors\<close>, \<open>GoStrings\<close>, \<open>GoInt\<close>, \<open>GoTime\<close>, \<open>Json\<close>: the language and its standard
    library as far as the sources use them (\<open>strings\<close>, \<open>strconv.Atoi\<close>, \<open>time.ParseDuration\<close> with its
    floating-point fractions, \<open>encoding/json\<close>).
  \<^item> \<open>Domain\<close>, \<open>Schema\<close>: \<open>internal/app/domain\<close> and the tables with the constraints of
    \<open>internal/app/db/migrations\<close> (\<open>schema_ok\<close>).
  \<^item> \<open>Gorm\<close>, \<open>Repository\<close>: \<open>internal/app/repository\<close>, each method as the chain of GORM calls it is.
  \<^item> \<open>Service\<close>, \<open>RepoFormat\<close>, \<open>Registry\<close>: \<open>internal/app/service/service.go\<close>; \<open>Registry\<close> is its
    abstract specification (accounts, links, no identifiers) and the simulation.
  \<^item> \<open>Notify\<close>, \<open>Bus\<close>: \<open>composer.go\<close>, \<open>email_notifier.go\<close>, \<open>natspublisher\<close>, \<open>shared/notify\<close>; \<open>Bus\<close> is the
    stream as the publisher may see it.
  \<^item> \<open>Github\<close>, \<open>Cache\<close>: \<open>internal/app/github\<close> and \<open>internal/app/cache\<close>.
  \<^item> \<open>Scanner\<close>, \<open>WorkerPool\<close>: \<open>internal/app/scanner\<close>; one check, one cycle, and the pool as a step
    relation of its dispatcher and workers.
  \<^item> \<open>App\<close>, \<open>Mailing\<close>: the wiring of \<open>cmd/app/main.go\<close> over one platform, and facts that span it.
  \<^item> \<open>Api\<close>, \<open>Web\<close>: \<open>internal/app/api\<close> (handlers, error table, middleware, routes) and the properties
    of whole HTTP exchanges.
  \<^item> \<open>Notifier\<close>, \<open>Desk\<close>, \<open>Delivery\<close>: \<open>internal/notifier\<close>; one delivery, the mail on the wire, and the
    life of a message under redelivery as a step relation.
  \<^item> \<open>ScanLoop\<close>, \<open>History\<close>: \<open>Run\<close> of the scanner, a step relation in time with its ticker; any sequence of
    requests and cycles on the wired application, with what was asked.
  \<^item> \<open>Config\<close>, \<open>Settings\<close>: \<open>internal/shared/config\<close>, the \<open>Config\<close> of every package, \<open>loadCfg\<close> of both
    processes.
  \<^item> \<open>Logging\<close>: \<open>internal/shared/observability/logging\<close>, its text handler, levels and request ids.
  \<^item> \<open>Startup\<close>, \<open>Plant\<close>: \<open>internal/shared/natsbus\<close>, opening and migrating the database, Redis, and \<open>run\<close>
    and \<open>main\<close> of both processes.

  \<^bold>\<open>What is shown.\<close> C1: nobody is mailed a release without having clicked on the link that was made
  for the account. C2 to C5: the service refines the registry on every branch, lost acknowledgements
  included. C6 to C10: which mails a subscription and a check publish, when the cursor of a
  repository moves, and that the stream never repeats a message within a window. C11, C12:
  the cache only says what GitHub said. C13 to C18: what becomes of a message in the notifier.
  C19 to C24: what an HTTP status tells the client, which routes the key guards, the error
  table. C25 to C28: the pool handles each job once, returns, and stops at the rate limit. C29 to
  C32: round trips and formats. C33 to C36: the configuration. C37: the log. C38: the ticker. C39,
  C40: start-up and shutdown of the two processes.
  Each statement about a sequence of calls is about arbitrary faults between them: a contract of
  an outside call always allows it to fail, and to have been applied when it failed.

  \<^bold>\<open>Bounds and fuel.\<close> No theorem has a fuel parameter of its own. The JSON decoder recurses with as much
  fuel as its input has bytes, which every step consumes at least one of; durations, decimals and
  trimming recurse on the length or the value with a termination proof. Runs of the pool and of a
  message end by a measure that is shown to decrease.

  \<^bold>\<open>Not modelled.\<close> Which log lines the program writes (the logger itself is), the JSON log handler of
  \<open>slog\<close>, histograms other than their labels, the HTTP server itself and the matching of paths by Gin
  (\<open>in_full_path\<close> is the route it matched), the HTML of the templates, the SQL that GORM generates and
  the migration files beyond the constraints they end with, the delivery of signals, generated mocks
  and the end-to-end harness. Concurrent requests interleave one operation at a time (\<open>History\<close>,
  and \<open>ScanLoop\<close> with the requests around a cycle), and each operation is proved from an arbitrary state;
  interleavings inside one operation are modelled for the worker pool alone.
\<close>

section \<open>The whole application\<close>

lemma demo_fields: "tables (demo_world d fs) = d" "sim_bus (demo_world d fs) = demo_bus"
  "pf_templates sim_platform = sim_templates"
  by (simp_all add: demo_world_def sim_platform_def)

lemmas demo_scan_folds = demo_client_def [symmetric] demo_scanner_def [symmetric] demo_fields

lemmas demo_folds = demo_client_def [symmetric] demo_scanner_def [symmetric] demo_service_def [symmetric]

lemma demo_ok: "schema_ok (tables (demo_world demo_db fs))" "0 < bus_window (sim_bus (demo_world d fs))"
  by (simp_all add: demo_world_def schema_ok_demo_db demo_bus_def)

lemma demo_bus_ok: "bus_ok (sim_bus (demo_world d fs))"
  by (simp add: demo_fields demo_bus_def bus_ok_def)

lemmas demo_runs = demo_service_def demo_client_def demo_scanner_def

abbreviation wired_service :: "'w platform \<Rightarrow> string \<Rightarrow> github_config \<Rightarrow> string \<Rightarrow> bool \<Rightarrow> 'w service" where
  "wired_service P base_url gcfg dsn up \<equiv> app_service P base_url (app_github P gcfg dsn up)"

abbreviation wired_scanner ::
  "'w platform \<Rightarrow> string \<Rightarrow> github_config \<Rightarrow> string \<Rightarrow> bool \<Rightarrow> scanner_config \<Rightarrow> 'w scanner" where
  "wired_scanner P base_url gcfg dsn up cfg \<equiv> app_scanner P base_url (app_github P gcfg dsn up) cfg"

text \<open>
  C1. No mail without consent. In every run of the application, in whatever order people subscribe,
  click, leave and list, whenever the scanner runs and whatever fails: each message the run adds to
  the stream either is a confirmation that someone asked for in the run, or announces a release to
  an account that was confirmed before the run or whose own confirmation link was clicked in it.
  In particular an account that left is mailed nothing until it subscribes and clicks again.
\<close>

theorem no_mail_without_consent:
  assumes "app_platform P tables bus answered entries" and "schema_ok (tables w0)"
    and "0 < bus_window (bus w0)" and "bus_ok (bus w0)" and "only_time tables bus E"
    and "app_runs (wired_service P base_url gcfg dsn up) (wired_scanner P base_url gcfg dsn up cfg) E w0 ds w"
  shows "\<exists>ms. bus_msgs (bus w) = bus_msgs (bus w0) @ ms \<and>
    (\<forall>m \<in> set ms. warranted (pf_templates P) \<lparr>co_base_url = base_url\<rparr> tables w0 ds m)"
  using app_platform.run_effect [OF assms(1) app_platform.app_client_ok [OF assms(1)] assms(2-6)] by blast

text \<open>The subscriber clicks, the next cycle mails her a release, and that mail rests on the click.\<close>

lemma no_mail_without_consent_witness:
  "app_runs demo_service demo_scanner (\<lambda>_ _. False) (demo_world demo_db []) play after_news \<and>
   bus_msgs (sim_bus after_news) \<noteq> [] \<and>
   set (bus_msgs (sim_bus after_news)) \<subseteq>
     {m. warranted sim_templates \<lparr>co_base_url = demo_url\<rparr> tables (demo_world demo_db []) play m}"
proof -
  have "only_time tables sim_bus (\<lambda>_ _. False)" by (simp add: only_time_def)
  from no_mail_without_consent [OF sim.app_platform_axioms demo_ok(1) [of "[]"] demo_ok(2) demo_bus_ok this,
      where base_url = demo_url and gcfg = "\<lparr>gc_token = [], gc_request_timeout = 10 * second\<rparr>" and dsn = "''redis://localhost''"
      and up = True and cfg = "\<lparr>sf_interval = 5 * minute, sf_concurrency = 8\<rparr>", unfolded demo_folds, OF play_runs]
  have "set (bus_msgs (sim_bus after_news)) \<subseteq>
     {m. warranted sim_templates \<lparr>co_base_url = demo_url\<rparr> tables (demo_world demo_db []) play m}"
    by (auto simp: demo_world_def demo_bus_def sim_platform_def)
  with play_runs play_news show ?thesis by blast
qed

section \<open>The subscription registry\<close>

text \<open>
  C2. Subscribing, on the application as it is wired (with or without the Redis cache), is a
  step of the abstract registry: a success adds exactly the unconfirmed account with two fresh
  links, and only when the account was not there; a reported failure adds nothing, or, when the
  driver lost the acknowledgement of the commit, exactly that account; a repository name of the
  wrong form and an existing account are rejected with their own errors. The constraints of the
  schema are kept, and nothing is stored unless the GitHub client accepted the repository.
\<close>

theorem subscribe_refines_registry:
  assumes "app_platform P tables bus answered entries" and "schema_ok (tables w)"
    and "svc_subscribe (app_service P base_url (app_github P cfg dsn up)) req w = (r, w')"
  shows "registry_subscribe req (abs_registry (tables w)) r (abs_registry (tables w')) \<and> schema_ok (tables w') \<and>
    (tables w' = tables w \<or> vouched tables (gh_validate_repo (app_github P cfg dsn up)) req w)"
  using app_platform.subscribe_run [OF assms(1) app_platform.app_client_ok [OF assms(1)] assms(2,3)]
    app_platform.subscribe_vouched [OF assms(1) app_platform.app_client_ok [OF assms(1)] assms(3)] by simp

lemma subscribe_refines_registry_witness:
  "\<exists>w'. svc_subscribe demo_service bob (demo_world demo_db []) = (Return None, w') \<and>
     registry_subscribe bob (abs_registry demo_db) (Return None) (abs_registry (tables w')) \<and>
     vouched tables (gh_validate_repo demo_client) bob (demo_world demo_db [])"
proof -
  obtain w' where run: "svc_subscribe demo_service bob (demo_world demo_db []) = (Return None, w')"
    and stored: "map sub_email (subs (tables w')) = [''ann@example.org'', ''bob@example.org'']"
    using bob_subscribes by (elim exE conjE) (rule that)
  have "tables w' \<noteq> demo_db" using stored by (auto simp: demo_db_def)
  moreover note subscribe_refines_registry [OF sim.app_platform_axioms demo_ok(1) run [unfolded demo_runs], unfolded demo_folds demo_fields]
  ultimately show ?thesis using run by (intro exI [of _ w'] conjI) simp_all
qed

text \<open>
  C3. Confirming by a link is a step of the registry: only a link that exists confirms, exactly
  the account it was mailed to becomes confirmed, and the link is spent unless its deletion
  failed (which the caller is not told). "Token not found" is reported only for the empty token
  or a link that does not exist.
\<close>

theorem confirm_refines_registry:
  assumes "app_platform P tables bus answered entries" and "schema_ok (tables w)"
    and "svc_confirm_subscription (app_service P base_url (app_github P cfg dsn up)) v w = (r, w')"
  shows "registry_confirm v (abs_registry (tables w)) r (abs_registry (tables w')) \<and> schema_ok (tables w')"
  using app_platform.confirm_run [OF assms(1) app_platform.app_client_ok [OF assms(1)] assms(2,3)] .

lemma confirm_refines_registry_witness:
  "fst (svc_confirm_subscription demo_service ''yes'' (demo_world demo_db [])) = Return None \<and>
   registry_confirm ''yes'' (abs_registry demo_db) (Return None)
     (abs_registry (tables (snd (svc_confirm_subscription demo_service ''yes'' (demo_world demo_db [])))))"
proof -
  have "fst (svc_confirm_subscription demo_service ''yes'' (demo_world demo_db [])) = Return None"
    by code_simp
  then show ?thesis
    using confirm_refines_registry [OF sim.app_platform_axioms demo_ok(1) [of "[]"] prod.collapse [symmetric],
        where base_url = demo_url and cfg = "\<lparr>gc_token = [], gc_request_timeout = 10 * second\<rparr>" and dsn = "''redis://localhost''" and up = True and v = "''yes''"]
    by (simp add: demo_runs demo_world_def)
qed

text \<open>
  C4. Unsubscribing by a link is a step of the registry: exactly the account the link was mailed
  to leaves, with every link to it; "token not found" is reported only for the empty token or a
  link that does not exist.
\<close>

theorem unsubscribe_refines_registry:
  assumes "app_platform P tables bus answered entries" and "schema_ok (tables w)"
    and "svc_unsubscribe (app_service P base_url (app_github P cfg dsn up)) v w = (r, w')"
  shows "registry_unsubscribe v (abs_registry (tables w)) r (abs_registry (tables w')) \<and> schema_ok (tables w')"
  using app_platform.unsubscribe_run [OF assms(1) app_platform.app_client_ok [OF assms(1)] assms(2,3)] .

lemma unsubscribe_refines_registry_witness:
  "fst (svc_unsubscribe demo_service ''bye'' (demo_world demo_db [Fine, Lost])) \<noteq> Return None \<and>
   tables (snd (svc_unsubscribe demo_service ''bye'' (demo_world demo_db [Fine, Lost]))) \<noteq> demo_db \<and>
   registry_unsubscribe ''bye'' (abs_registry demo_db)
     (fst (svc_unsubscribe demo_service ''bye'' (demo_world demo_db [Fine, Lost])))
     (abs_registry (tables (snd (svc_unsubscribe demo_service ''bye'' (demo_world demo_db [Fine, Lost])))))"
proof -
  have "fst (svc_unsubscribe demo_service ''bye'' (demo_world demo_db [Fine, Lost])) \<noteq> Return None"
    "subs (tables (snd (svc_unsubscribe demo_service ''bye'' (demo_world demo_db [Fine, Lost])))) = []"
    by code_simp+
  then show ?thesis
    using unsubscribe_refines_registry [OF sim.app_platform_axioms demo_ok(1) [of "[Fine, Lost]"] prod.collapse [symmetric],
        where base_url = demo_url and cfg = "\<lparr>gc_token = [], gc_request_timeout = 10 * second\<rparr>" and dsn = "''redis://localhost''" and up = True and v = "''bye''"]
    by (auto simp: demo_runs demo_world_def demo_db_def)
qed

text \<open>
  C5. Listing gives, in some order, the view of every subscription of the trimmed address and
  of no other, changes nothing, and refuses an address that is empty or does not parse.
\<close>

theorem get_subscriptions_lists:
  assumes "app_platform P tables bus answered entries"
    and "svc_get_subscriptions parse_ok (app_service P base_url (app_github P cfg dsn up)) raw w = (r, w')"
  shows "get_contract parse_ok raw (tables w) r (tables w')"
  using meetsD [OF service_env.get_subscriptions_meets
      [OF app_platform.service_env [OF assms(1) app_platform.app_client_ok [OF assms(1)]]] assms(2)] .

lemma get_subscriptions_lists_witness:
  "fst (svc_get_subscriptions (\<lambda>_. True) demo_service '' ann@example.org '' (demo_world demo_db [])) =
     Return (Inr [to_subscription_response demo_sub]) \<and>
   get_contract (\<lambda>_. True) '' ann@example.org '' demo_db (Return (Inr [to_subscription_response demo_sub]))
     (tables (snd (svc_get_subscriptions (\<lambda>_. True) demo_service '' ann@example.org '' (demo_world demo_db []))))"
proof -
  have "fst (svc_get_subscriptions (\<lambda>_. True) demo_service '' ann@example.org '' (demo_world demo_db [])) =
     Return (Inr [to_subscription_response demo_sub])"
    by code_simp
  then show ?thesis
    using get_subscriptions_lists [OF sim.app_platform_axioms prod.collapse [symmetric],
        where parse_ok = "\<lambda>_. True" and base_url = demo_url and cfg = "\<lparr>gc_token = [], gc_request_timeout = 10 * second\<rparr>" and dsn = "''redis://localhost''" and up = True and raw = "'' ann@example.org ''" and w = "demo_world demo_db []"]
    by (simp add: demo_runs demo_world_def)
qed

text \<open>
  C6. The confirmation mail follows the commit: \<open>Subscribe\<close> puts at most one message on the
  stream, only after the subscription is stored, with the id of the stored token and with the
  links of the stored tokens; when it reports an error it has put none.
\<close>

theorem confirmation_mail_follows_store:
  assumes "app_platform P tables bus answered entries"
    and "svc_subscribe (app_service P base_url (app_github P cfg dsn up)) req w = (r, w')"
  shows "mailed_after_store (pf_templates P) \<lparr>co_base_url = base_url\<rparr> req
    (tables w, bus w) r (tables w', bus w')"
  using meetsD [OF app_platform.subscribe_mails [OF assms(1) app_platform.app_client_ok [OF assms(1)]] assms(2)]
  by simp

lemma confirmation_mail_follows_store_witness:
  "\<exists>w'. svc_subscribe demo_service bob (demo_world demo_db []) = (Return None, w') \<and> bus_msgs (sim_bus w') \<noteq> [] \<and>
     mailed_after_store sim_templates \<lparr>co_base_url = demo_url\<rparr> bob (demo_db, demo_bus) (Return None) (tables w', sim_bus w')"
proof -
  obtain w' where run: "svc_subscribe demo_service bob (demo_world demo_db []) = (Return None, w')"
    and mailed: "bus_msgs (sim_bus w') \<noteq> []"
    using bob_subscribes by (elim exE conjE) (rule that)
  note confirmation_mail_follows_store [OF sim.app_platform_axioms run [unfolded demo_runs], unfolded demo_fields]
  with run mailed show ?thesis by (intro exI [of _ w'] conjI)
qed

section \<open>The scanner on the wired application\<close>

abbreviation app_mail :: "'w platform \<Rightarrow> string \<Rightarrow> mail_pred" where
  "app_mail P base_url \<equiv> release_mail (pf_templates P) \<lparr>co_base_url = base_url\<rparr>"

text \<open>
  C7. The scan of one repository never panics, whatever its calls do, and does one of three
  things: nothing; record a tag that is the first one or not new; or announce a new tag to
  followers of the repository and then, only if the stream holds the announcement of every one
  of them, record it. When it reports the rate limit it has done nothing.
\<close>

theorem check_announces_then_advances:
  assumes "app_platform P tables bus answered entries" and "schema_ok (tables w)" and "0 < bus_window (bus w)"
    and "safe_check_repo (app_scanner P base_url (app_github P gcfg dsn up) cfg) repo w = (r, w')"
  shows "(\<exists>x. r = Return x) \<and>
    check_contract (app_mail P base_url) repo (tables w, bus w) r (tables w', bus w')"
  using app_platform.check_run [OF assms(1) app_platform.app_client_ok [OF assms(1)] assms(2-4)] .

lemma demo_followed_ok: "schema_ok (tables (demo_world demo_followed fs))"
  by (simp add: demo_fields schema_ok_demo_followed)

lemma check_announces_then_advances_witness:
  "check_contract (app_mail sim_platform demo_url) ''golang/go'' (demo_followed, demo_bus)
     (fst (safe_check_repo demo_scanner ''golang/go'' (demo_world demo_followed [])))
     (tables (snd (safe_check_repo demo_scanner ''golang/go'' (demo_world demo_followed []))),
      sim_bus (snd (safe_check_repo demo_scanner ''golang/go'' (demo_world demo_followed []))))"
  using check_announces_then_advances [OF sim.app_platform_axioms demo_followed_ok [of "[]"]
      demo_ok(2) prod.collapse [symmetric], where base_url = demo_url
      and gcfg = "\<lparr>gc_token = [], gc_request_timeout = 10 * second\<rparr>" and dsn = "''redis://localhost''" and up = True
      and cfg = "\<lparr>sf_interval = 5 * minute, sf_concurrency = 8\<rparr>" and repo = "''golang/go''",
      unfolded demo_scan_folds]
  unfolding demo_fields by (rule conjunct2)



text \<open>
  C9. The first sighting of a repository is silent, and a check of one repository touches
  nothing else: no subscription, no token, no other cursor, and the constraints of the schema
  are kept.
\<close>

theorem first_sighting_silent:
  assumes "app_platform P tables bus answered entries" and "schema_ok (tables w)" and "0 < bus_window (bus w)"
    and "safe_check_repo (app_scanner P base_url (app_github P gcfg dsn up) cfg) repo w = (r, w')"
  shows "(last_tag (tables w) repo = None \<longrightarrow> bus_msgs (bus w') = bus_msgs (bus w)) \<and>
    subs (tables w') = subs (tables w) \<and> toks (tables w') = toks (tables w) \<and> schema_ok (tables w') \<and>
    (\<forall>other. other \<noteq> repo \<longrightarrow> last_tag (tables w') other = last_tag (tables w) other)"
proof -
  have c: "checked (app_mail P base_url) repo (tables w, bus w) (tables w', bus w')"
    using app_platform.check_run [OF assms(1) app_platform.app_client_ok [OF assms(1)] assms(2-4)]
    by (simp add: check_contract_def)
  from checked_first_sighting [OF c] checked_frame [OF c] checked_schema [OF c] checked_others [OF c] assms(2)
  show ?thesis by simp
qed

lemma first_sighting_silent_witness:
  "bus_msgs (sim_bus (snd (safe_check_repo demo_scanner ''golang/go'' (demo_world (demo_followed\<lparr>watched := []\<rparr>) [])))) = [] \<and>
   last_tag (tables (snd (safe_check_repo demo_scanner ''golang/go'' (demo_world (demo_followed\<lparr>watched := []\<rparr>) [])))) ''golang/go'' =
     Some ''v2''"
proof -
  let ?d = "demo_followed\<lparr>watched := []\<rparr>"
  let ?w = "snd (safe_check_repo demo_scanner ''golang/go'' (demo_world ?d []))"
  have v2: "last_tag (tables ?w) ''golang/go'' = Some ''v2''" and none: "last_tag ?d ''golang/go'' = None"
    by code_simp+
  have "schema_ok (tables (demo_world ?d []))"
    by (simp add: demo_fields schema_defs demo_followed_def demo_db_def demo_sub_def)
  from first_sighting_silent [OF sim.app_platform_axioms this demo_ok(2) prod.collapse [symmetric],
      where base_url = demo_url
      and gcfg = "\<lparr>gc_token = [], gc_request_timeout = 10 * second\<rparr>" and dsn = "''redis://localhost''" and up = True
      and cfg = "\<lparr>sf_interval = 5 * minute, sf_concurrency = 8\<rparr>", unfolded demo_scan_folds, of "''golang/go''"] v2 none
  show ?thesis by (simp add: demo_bus_def)
qed

text \<open>
  A whole cycle of the scanner mails nobody but followers: every message it adds to the
  stream announces a release of some repository to a confirmed subscriber of it, with his own
  unsubscribe link; subscriptions and tokens are not touched.
\<close>

lemma cycle_mails_only_followers:
  assumes "app_platform P tables bus answered entries" and "schema_ok (tables w)" and "0 < bus_window (bus w)"
    and "run_once (app_scanner P base_url (app_github P gcfg dsn up) cfg) w = (r, w')"
  shows "(\<exists>ms. bus_msgs (bus w') = bus_msgs (bus w) @ ms \<and>
      (\<forall>m \<in> set ms. \<exists>repo tag. \<exists>s \<in> followers (tables w) repo. announcement (app_mail P base_url) repo tag s m)) \<and>
    subs (tables w') = subs (tables w) \<and> toks (tables w') = toks (tables w) \<and> schema_ok (tables w')"
proof -
  note s = app_platform.cycle_run [OF assms(1) app_platform.app_client_ok [OF assms(1)] assms(2-4)]
  from scans_messages [OF s] scans_keep(1-3) [OF s] assms(2) show ?thesis by simp
qed

lemma demo_cycle_mails:
  "\<exists>ms. bus_msgs (sim_bus (snd (run_once demo_scanner (demo_world demo_followed [])))) = bus_msgs demo_bus @ ms \<and>
     set ms \<subseteq> {m. \<exists>repo tag. \<exists>s \<in> followers demo_followed repo. announcement (app_mail sim_platform demo_url) repo tag s m}"
  using cycle_mails_only_followers [OF sim.app_platform_axioms demo_followed_ok [of "[]"] demo_ok(2) prod.collapse [symmetric],
      where base_url = demo_url
      and gcfg = "\<lparr>gc_token = [], gc_request_timeout = 10 * second\<rparr>" and dsn = "''redis://localhost''" and up = True
      and cfg = "\<lparr>sf_interval = 5 * minute, sf_concurrency = 8\<rparr>", unfolded demo_scan_folds, THEN conjunct1]
  unfolding demo_fields subset_iff mem_Collect_eq Ball_def .

text \<open>One cycle keeps the promise of the deduplication window, whatever fails in it.\<close>

lemma cycle_never_repeats:
  assumes "app_platform P tables bus answered entries" and "bus_ok (bus w)"
    and "run_once (app_scanner P base_url (app_github P gcfg dsn up) cfg) w = (r, w')"
  shows "bus_ok (bus w')"
  using app_platform.cycle_bus_ok [OF assms(1) app_platform.app_client_ok [OF assms(1)] assms(2,3)] .

text \<open>However long the scanner runs, as long as what happens around it keeps to the same rule.\<close>

lemma scanner_never_repeats:
  assumes "app_platform P tables bus answered entries" and "bus_ok (bus w)"
    and "s = app_scanner P base_url (app_github P gcfg dsn up) cfg"
    and "loop_reaches s E (loop_start (sc_cfg s) t0 w) l"
    and "\<And>a b. E a b \<Longrightarrow> bus_ok (bus a) \<Longrightarrow> bus_ok (bus b)"
  shows "bus_ok (bus (sl_world l))"
proof -
  have "maintains (\<lambda>w. bus_ok (bus w)) (run_once s)"
    using cycle_never_repeats [OF assms(1)] unfolding assms(3) by (intro maintainsI)
  with loop_maintains [OF assms(4), of "\<lambda>w. bus_ok (bus w)"] assms(2,5) show ?thesis by blast
qed



section \<open>The cache in front of GitHub\<close>

text \<open>
  C11. The cached release lookup never invents a tag: over any store that keeps its entries, with
  every entry an answer that GitHub gave, a tag that is returned was given by GitHub to this very
  request, now or before; an error is stored nowhere; and the entries stay answers of GitHub.
\<close>

theorem cached_release_was_given:
  assumes "cached_github tp answered c entries" and "cache_sound (cc_inner c) (entries w, answered w)"
    and "cached_get_latest_release tp c owner repo w = (r, w')"
  shows "latest_contract (cc_inner c) owner repo (entries w, answered w) r (entries w', answered w')"
  using meetsD [OF cached_github.cached_latest_meets [OF assms(1)] assms(3)] assms(2) by simp

lemma cache_sound_empty: "entries = Map.empty \<Longrightarrow> cache_sound g (entries, answers)"
  by (simp add: cache_sound_def)

definition demo_cached :: "world cached_client" where
  "demo_cached =
     \<lparr>cc_inner = new_client \<lparr>gc_token = [], gc_request_timeout = 10 * second\<rparr> [], cc_store = redis_store sim_redis\<rparr>"

lemma demo_cached_sound: "cache_sound (cc_inner demo_cached) (sim_entry_map (demo_world d fs), sim_answered (demo_world d fs))"
  by (rule cache_sound_empty) (simp add: sim_entry_map_def demo_world_def)

lemma demo_cached_axioms: "cached_github sim_transport sim_answered demo_cached sim_entry_map"
  unfolding demo_cached_def by (rule demo_cache_axioms)

lemma cached_release_was_given_witness:
  "fst (cached_get_latest_release sim_transport demo_cached ''golang'' ''go'' (demo_world demo_db [])) = Return (Inr ''v2'') \<and>
   latest_contract (cc_inner demo_cached) ''golang'' ''go''
     (sim_entry_map (demo_world demo_db []), sim_answered (demo_world demo_db [])) (Return (Inr ''v2''))
     (sim_entry_map (snd (cached_get_latest_release sim_transport demo_cached ''golang'' ''go'' (demo_world demo_db []))),
      sim_answered (snd (cached_get_latest_release sim_transport demo_cached ''golang'' ''go'' (demo_world demo_db []))))"
proof -
  have "fst (cached_get_latest_release sim_transport demo_cached ''golang'' ''go'' (demo_world demo_db [])) = Return (Inr ''v2'')"
    by code_simp
  with cached_release_was_given [OF demo_cached_axioms demo_cached_sound prod.collapse [symmetric],
      of "''golang''" "''go''" demo_db "[]"] show ?thesis by simp
qed

text \<open>
  C12. The cached check of a repository answers as GitHub answered: "exists" and "does not exist"
  may come from the cache, but then GitHub gave that answer to this request; a rate limit and
  every other error are never stored.
\<close>

theorem cached_verdict_was_given:
  assumes "cached_github tp answered c entries" and "cache_sound (cc_inner c) (entries w, answered w)"
    and "cached_validate_repo tp c owner repo w = (r, w')"
  shows "validate_contract (cc_inner c) owner repo (entries w, answered w) r (entries w', answered w')"
  using meetsD [OF cached_github.cached_validate_meets [OF assms(1)] assms(3)] assms(2) by simp

lemma cached_verdict_was_given_witness:
  "fst (cached_validate_repo sim_transport demo_cached ''busy'' ''one'' (demo_world demo_db [])) = Return (Some (Sentinel ErrRateLimited)) \<and>
   validate_contract (cc_inner demo_cached) ''busy'' ''one''
     (sim_entry_map (demo_world demo_db []), sim_answered (demo_world demo_db [])) (Return (Some (Sentinel ErrRateLimited)))
     (sim_entry_map (snd (cached_validate_repo sim_transport demo_cached ''busy'' ''one'' (demo_world demo_db []))),
      sim_answered (snd (cached_validate_repo sim_transport demo_cached ''busy'' ''one'' (demo_world demo_db []))))"
proof -
  have "fst (cached_validate_repo sim_transport demo_cached ''busy'' ''one'' (demo_world demo_db [])) =
      Return (Some (Sentinel ErrRateLimited))"
    by code_simp
  with cached_verdict_was_given [OF demo_cached_axioms demo_cached_sound prod.collapse [symmetric],
      of "''busy''" "''one''" demo_db "[]"] show ?thesis by simp
qed

end
